(* ===== verification/Prelude.thy ===== *)
theory Prelude
  imports Main "HOL-Library.Word" "HOL-Library.Signed_Division"
begin

text \<open>
  Shared vocabulary of the PalleyOS development: the fixed-width integers of the
  kernel's C code (\<open>uint8_t\<close>, \<open>uint16_t\<close>, \<open>uint32_t\<close>; \<open>size_t\<close> and every pointer
  of the 32-bit target are 32 bits wide), the collections of rewrite rules that the
  component proofs use, and the generic facts on words, lists and options that more
  than one component needs.
\<close>

unbundle bit_operations_syntax

type_synonym u8 = "8 word"
type_synonym u16 = "16 word"
type_synonym u32 = "32 word"
type_synonym addr = "32 word"

text \<open>
  \<open>layout\<close>: offsets and sizes of packed structures; \<open>frame\<close>: facts of the form
  "this write leaves that value alone"; \<open>unat_bounds\<close>: bounds of words read as
  natural numbers.
\<close>

named_theorems layout
named_theorems frame
named_theorems unat_bounds

section \<open>Words read as natural numbers\<close>

lemma unat_lt_32 [unat_bounds]: "unat (w :: u32) < 4294967296"
  using unsigned_less [of w] by simp

lemma unat_lt_16 [unat_bounds]: "unat (w :: u16) < 65536"
  using unsigned_less [of w] by simp

lemma unat_lt_8 [unat_bounds]: "unat (w :: u8) < 256"
  using unsigned_less [of w] by simp

text \<open>Addition that does not wrap is addition of the natural numbers.\<close>

lemma unat_add_nowrap:
  fixes a b :: u32
  assumes "unat a + unat b < 4294967296"
  shows "unat (a + b) = unat a + unat b"
  using assms by (simp add: unat_word_ariths)

lemma unat_sub_nowrap:
  fixes a b :: u32
  assumes "unat b \<le> unat a"
  shows "unat (a - b) = unat a - unat b"
  using assms by (simp add: unat_sub word_le_nat_alt)

lemma unat_sub_wrap:
  fixes a b :: u32
  assumes "unat a < unat b"
  shows "unat (a - b) = 4294967296 + unat a - unat b"
  using assms by (simp add: unat_sub_if')

lemma unat_of_nat_32:
  assumes "n < 4294967296"
  shows "unat (of_nat n :: u32) = n"
  using assms by (simp add: unat_of_nat)

lemma word_of_nat_unat_eq: "(of_nat (unat w) :: 'a::len word) = w"
  by simp

lemma unat_minus_1_32: "unat (- 1 :: u32) = 4294967295"
  using unat_sub_wrap [of 0 1] by simp

lemma sint_eq_iff: "sint a = sint b \<longleftrightarrow> a = (b :: 'a::len word)"
  by (metis signed_word_eqI)

text \<open>An \<open>int\<close> converted to \<open>size_t\<close> is zero only where the \<open>int\<close> is.\<close>

lemma word_of_int_small_0_iff:
  assumes "- 2147483648 < d" and "d < 2147483648"
  shows "(word_of_int d :: u32) = 0 \<longleftrightarrow> d = 0"
proof
  assume "(word_of_int d :: u32) = 0"
  then have "sint (word_of_int d :: u32) = 0" by simp
  then have "signed_take_bit 31 d = 0" by (simp add: sint_sbintrunc')
  with assms show "d = 0" by (simp add: signed_take_bit_int_eq_self)
qed simp

text \<open>The value of a word read as an \<open>int32_t\<close>.\<close>

lemma shift_mod_32:
  fixes u :: int
  assumes "0 \<le> u" and "u < 4294967296"
  shows "(u + 2147483648) mod 4294967296 - 2147483648 = (if u < 2147483648 then u else u - 4294967296)"
proof (cases "u < 2147483648")
  case False
  have "(u + 2147483648) mod 4294967296 = ((u - 2147483648) + 4294967296) mod 4294967296"
    by (simp add: add.commute)
  also have "\<dots> = u - 2147483648" using False assms by (simp only: mod_add_self2) simp
  finally show ?thesis using False by simp
qed (use assms in simp)

lemma sint_u32: "sint (w :: u32) = (if uint w < 2147483648 then uint w else uint w - 4294967296)"
proof -
  have "sint w = take_bit 32 (uint w + 2147483648) - 2147483648"
    by (simp add: sint_uint signed_take_bit_eq_take_bit_shift)
  also have "\<dots> = (uint w + 2147483648) mod 4294967296 - 2147483648"
    by (simp add: take_bit_eq_mod)
  finally show ?thesis using shift_mod_32 [of "uint w"] unsigned_less [of w, where 'a = int] by simp
qed

lemma signed_pos_iff: "0 <s (w :: u32) \<longleftrightarrow> 0 < unat w \<and> unat w < 2147483648"
proof -
  define n where "n = unat w"
  have u: "uint w = int n" by (simp add: n_def)
  have "0 <s w \<longleftrightarrow> 0 < (if int n < 2147483648 then int n else int n - 4294967296)"
    unfolding word_sless_alt sint_u32 u by simp
  then show ?thesis using unat_lt_32 [of w] unfolding n_def [symmetric] by auto
qed

section \<open>Single bits\<close>

text \<open>\<open>1 << n\<close>\<close>

definition lsh1 :: "nat \<Rightarrow> 'a::len word" where
  "lsh1 n = push_bit n 1"

lemma bit_lsh1 [simp]: "bit (lsh1 n :: 'a::len word) k \<longleftrightarrow> n = k \<and> k < LENGTH('a)"
  by (auto simp: lsh1_def bit_simps)

lemma and_lsh1_iff: "(w AND lsh1 n \<noteq> 0) \<longleftrightarrow> bit (w :: 'a::len word) n"
proof
  assume "w AND lsh1 n \<noteq> 0"
  then obtain k where "bit (w AND lsh1 n) k" using bit_eqI [of "w AND lsh1 n" 0] by auto
  then show "bit w n" by (simp add: bit_and_iff)
next
  assume "bit w n"
  then have "bit (w AND lsh1 n) n" using bit_imp_le_length by (auto simp: bit_and_iff)
  then show "w AND lsh1 n \<noteq> 0" by auto
qed

lemma and_lsh1_0_iff: "(w AND lsh1 n = 0) \<longleftrightarrow> \<not> bit (w :: 'a::len word) n"
  using and_lsh1_iff by blast

text \<open>The sign bit of a byte.\<close>

lemma high_bit_u8: "bit (c :: u8) 7 \<longleftrightarrow> \<not> unat c < 128"
proof -
  have "bit c 7 \<longleftrightarrow> bit (unat c) 7" by (simp add: bit_unsigned_iff)
  also have "\<dots> \<longleftrightarrow> odd (unat c div 128)" by (simp only: bit_iff_odd) simp
  also have "\<dots> \<longleftrightarrow> \<not> unat c < 128"
  proof (cases "unat c < 128")
    case False
    then have "unat c div 128 = 1" using unat_lt_8 [of c] by (intro div_nat_eqI) simp_all
    then show ?thesis using False by simp
  qed simp
  finally show ?thesis .
qed

section \<open>Lists updated and read by index\<close>

text \<open>
  A C array access out of range is undefined behaviour: reads and writes through
  these functions return \<open>None\<close> there.
\<close>

definition nth_opt :: "'a list \<Rightarrow> nat \<Rightarrow> 'a option" where
  "nth_opt xs i = (if i < length xs then Some (xs ! i) else None)"

definition update_opt :: "'a list \<Rightarrow> nat \<Rightarrow> 'a \<Rightarrow> 'a list option" where
  "update_opt xs i x = (if i < length xs then Some (xs[i := x]) else None)"

lemma nth_opt_Some [simp]: "i < length xs \<Longrightarrow> nth_opt xs i = Some (xs ! i)"
  by (simp add: nth_opt_def)

lemma nth_opt_None [simp]: "length xs \<le> i \<Longrightarrow> nth_opt xs i = None"
  by (simp add: nth_opt_def)

lemma nth_opt_eq_Some: "nth_opt xs i = Some x \<longleftrightarrow> i < length xs \<and> xs ! i = x"
  by (auto simp: nth_opt_def)

lemma update_opt_Some [simp]: "i < length xs \<Longrightarrow> update_opt xs i x = Some (xs[i := x])"
  by (simp add: update_opt_def)

lemma update_opt_None [simp]: "length xs \<le> i \<Longrightarrow> update_opt xs i x = None"
  by (simp add: update_opt_def)

lemma update_opt_eq_Some:
  "update_opt xs i x = Some ys \<longleftrightarrow> i < length xs \<and> ys = xs[i := x]"
  by (auto simp: update_opt_def)

section \<open>Searches and ranges\<close>

lemma find_append:
  "find P (xs @ ys) = (case find P xs of None \<Rightarrow> find P ys | Some x \<Rightarrow> Some x)"
  by (induction xs) auto

text \<open>A property of all indices, by pairs.\<close>

lemma all_less_pairs: "(\<forall>i < 2 * k. P i) \<longleftrightarrow> (\<forall>j < k. P (2 * j) \<and> P (2 * j + 1))" for k :: nat
proof
  assume all: "\<forall>j < k. P (2 * j) \<and> P (2 * j + 1)"
  show "\<forall>i < 2 * k. P i"
  proof (intro allI impI)
    fix i assume "i < 2 * k"
    then have "P (2 * (i div 2)) \<and> P (2 * (i div 2) + 1)" using all by simp
    then show "P i" by (cases "even i") simp_all
  qed
qed simp

end
