(* ===== verification/Cmem.thy ===== *)
theory Cmem
  imports Prelude
begin

text \<open>
  The flat byte-addressed memory of the 32-bit machine, little-endian access to it
  at the widths the kernel uses, and the interface that every field of a packed C
  structure offers (locale \<open>packed_field\<close>): reading back what was written, and
  depending on and changing only the bytes of the field. Address arithmetic wraps
  at \<open>2 ^ 32\<close>, as pointers do.
\<close>

type_synonym mem = "addr \<Rightarrow> u8"

section \<open>Little-endian loads and stores\<close>

definition rd8 :: "mem \<Rightarrow> addr \<Rightarrow> u8" where
  "rd8 m a = m a"

definition wr8 :: "mem \<Rightarrow> addr \<Rightarrow> u8 \<Rightarrow> mem" where
  "wr8 m a v = m(a := v)"

definition rd16 :: "mem \<Rightarrow> addr \<Rightarrow> u16" where
  "rd16 m a = ucast (m a) OR push_bit 8 (ucast (m (a + 1)))"

definition wr16 :: "mem \<Rightarrow> addr \<Rightarrow> u16 \<Rightarrow> mem" where
  "wr16 m a v = m(a := ucast v, a + 1 := ucast (drop_bit 8 v))"

definition rd32 :: "mem \<Rightarrow> addr \<Rightarrow> u32" where
  "rd32 m a = ucast (m a) OR push_bit 8 (ucast (m (a + 1)))
     OR push_bit 16 (ucast (m (a + 2))) OR push_bit 24 (ucast (m (a + 3)))"

definition wr32 :: "mem \<Rightarrow> addr \<Rightarrow> u32 \<Rightarrow> mem" where
  "wr32 m a v = m(a := ucast v, a + 1 := ucast (drop_bit 8 v),
     a + 2 := ucast (drop_bit 16 v), a + 3 := ucast (drop_bit 24 v))"

lemma rd8_wr8: "rd8 (wr8 m a v) a = v"
  by (simp add: rd8_def wr8_def)

lemma rd16_wr16: "rd16 (wr16 m a v) a = v"
  unfolding rd16_def wr16_def
  by (rule bit_word_eqI) (auto simp: bit_simps)

lemma rd32_wr32: "rd32 (wr32 m a v) a = v"
proof (rule bit_word_eqI)
  fix n assume "n < LENGTH(32)"
  then consider "n < 8" | "8 \<le> n" "n < 16" | "16 \<le> n" "n < 24" | "24 \<le> n" "n < 32"
    by fastforce
  then show "bit (rd32 (wr32 m a v) a) n = bit v n"
    by cases (auto simp: rd32_def wr32_def bit_simps)
qed

section \<open>Regions\<close>

definition span :: "addr \<Rightarrow> nat \<Rightarrow> addr set" where
  "span a n = {x. unat (x - a) < n}"

lemma in_span: "x \<in> span a n \<longleftrightarrow> unat (x - a) < n"
  by (simp add: span_def)

lemma span_nowrap:
  assumes "unat a + n \<le> 4294967296"
  shows "x \<in> span a n \<longleftrightarrow> unat a \<le> unat x \<and> unat x < unat a + n"
  using assms by (auto simp: in_span unat_sub_if' unat_lt_32)

lemma span_offset:
  assumes "unat k + n \<le> 4294967296"
  shows "x \<in> span (a + k) n \<longleftrightarrow> unat k \<le> unat (x - a) \<and> unat (x - a) < unat k + n"
proof -
  have "x \<in> span (a + k) n \<longleftrightarrow> (x - a) \<in> span k n"
    by (simp add: in_span algebra_simps)
  then show ?thesis using assms by (simp add: span_nowrap)
qed

lemma span_fields_apart:
  assumes "unat k + n \<le> unat l" and "unat l + n' \<le> 4294967296"
  shows "span (a + k) n \<inter> span (a + l) n' = {}"
  using assms by (auto simp: span_offset)

lemma span_field_sub:
  assumes "unat k + n \<le> w" and "w \<le> 4294967296"
  shows "span (a + k) n \<subseteq> span a w"
proof
  fix x assume "x \<in> span (a + k) n"
  then have "unat (x - a) < unat k + n" using assms by (simp add: span_offset)
  then show "x \<in> span a w" using assms by (simp add: in_span)
qed

lemma spans_apart:
  assumes "unat a + n \<le> unat b" and "unat b + n' \<le> 4294967296"
  shows "span a n \<inter> span b n' = {}"
  using assms by (auto simp: span_nowrap)

lemma span_mono: "n \<le> n' \<Longrightarrow> span a n \<subseteq> span a n'"
  by (auto simp: in_span)

lemma span_0 [simp]: "span a 0 = {}"
  by (auto simp: in_span)

section \<open>Memories that agree off a region\<close>

definition agree_off :: "addr set \<Rightarrow> mem \<Rightarrow> mem \<Rightarrow> bool" where
  "agree_off S m m' \<longleftrightarrow> (\<forall>x. x \<notin> S \<longrightarrow> m' x = m x)"

lemma agree_off_refl [simp, intro]: "agree_off S m m"
  by (simp add: agree_off_def)

lemma agree_off_trans:
  "agree_off S m m' \<Longrightarrow> agree_off T m' m'' \<Longrightarrow> agree_off (S \<union> T) m m''"
  by (simp add: agree_off_def)

lemma agree_off_trans_same:
  "agree_off S m m' \<Longrightarrow> agree_off S m' m'' \<Longrightarrow> agree_off S m m''"
  by (simp add: agree_off_def)

lemma agree_off_mono: "agree_off S m m' \<Longrightarrow> S \<subseteq> T \<Longrightarrow> agree_off T m m'"
  by (auto simp: agree_off_def)

lemma agree_offD: "agree_off S m m' \<Longrightarrow> x \<notin> S \<Longrightarrow> m' x = m x"
  by (simp add: agree_off_def)

section \<open>The contract of a field of a packed structure\<close>

locale packed_field =
  fixes off :: addr
    and width :: nat
    and get :: "mem \<Rightarrow> addr \<Rightarrow> 'v"
    and put :: "mem \<Rightarrow> addr \<Rightarrow> 'v \<Rightarrow> mem"
  assumes fits: "unat off + width \<le> 4294967296"
    and get_put: "get (put m a v) a = v"
    and get_local: "(\<And>x. x \<in> span (a + off) width \<Longrightarrow> m' x = m x) \<Longrightarrow> get m' a = get m a"
    and put_local: "x \<notin> span (a + off) width \<Longrightarrow> put m a v x = m x"
begin

text \<open>A write agrees with the old memory off the field.\<close>

lemma put_agree: "agree_off (span (a + off) width) m (put m a v)"
  by (simp add: agree_off_def put_local)

text \<open>A read survives any change off the field.\<close>

lemma get_frame:
  "agree_off S m m' \<Longrightarrow> S \<inter> span (a + off) width = {} \<Longrightarrow> get m' a = get m a"
  by (rule get_local) (auto simp: agree_off_def)

text \<open>A read survives a change to another field of the same structure.\<close>

lemma get_frame_field:
  assumes "agree_off (span (a + off') width') m m'"
    and "unat off' + width' \<le> unat off \<or> unat off + width \<le> unat off'"
    and "unat off' + width' \<le> 4294967296"
  shows "get m' a = get m a"
  using assms(1)
proof (rule get_frame)
  show "span (a + off') width' \<inter> span (a + off) width = {}"
    using assms(2,3) fits span_fields_apart [of off' width' off width a]
      span_fields_apart [of off width off' width' a] by blast
qed

text \<open>Inside a structure of \<open>w\<close> bytes, the write stays in the structure.\<close>

lemma put_agree_struct:
  assumes "unat off + width \<le> w" and "w \<le> 4294967296"
  shows "agree_off (span a w) m (put m a v)"
  by (rule agree_off_mono [OF put_agree span_field_sub [OF assms]])

lemma get_frame_struct:
  assumes "agree_off S m m'" and "S \<inter> span a w = {}"
    and "unat off + width \<le> w" and "w \<le> 4294967296"
  shows "get m' a = get m a"
  using assms(1)
proof (rule get_frame)
  show "S \<inter> span (a + off) width = {}"
    using span_field_sub [OF assms(3,4), of a] assms(2) by blast
qed

end

lemma span_off_cases:
  "x \<notin> span (a + k) 4 \<Longrightarrow>
     x \<noteq> a + k \<and> x \<noteq> a + k + 1 \<and> x \<noteq> a + k + 2 \<and> x \<noteq> a + k + 3"
  "x \<notin> span (a + k) 2 \<Longrightarrow> x \<noteq> a + k \<and> x \<noteq> a + k + 1"
  "x \<notin> span (a + k) 1 \<Longrightarrow> x \<noteq> a + k"
  by (auto simp: in_span)

lemma span_members [simp]:
  "a \<in> span a 4" "a + 1 \<in> span a 4" "a + 2 \<in> span a 4" "a + 3 \<in> span a 4"
  "a \<in> span a 2" "a + 1 \<in> span a 2" "a \<in> span a 1"
  by (simp_all add: in_span)

lemma span_1 [simp]: "span a (Suc 0) = {a}"
  by (auto simp: in_span unat_eq_0)

lemma packed_u8:
  assumes "unat off + 1 \<le> 4294967296"
  shows "packed_field off 1 (\<lambda>m a. rd8 m (a + off)) (\<lambda>m a. wr8 m (a + off))"
  using assms by unfold_locales (auto simp: rd8_def wr8_def)

lemma packed_u16:
  assumes "unat off + 2 \<le> 4294967296"
  shows "packed_field off 2 (\<lambda>m a. rd16 m (a + off)) (\<lambda>m a. wr16 m (a + off))"
proof unfold_locales
  show "rd16 (wr16 m (a + off) v) (a + off) = v" for m a v by (rule rd16_wr16)
qed (use assms in \<open>auto simp: rd16_def wr16_def dest: span_off_cases\<close>)

lemma packed_u32:
  assumes "unat off + 4 \<le> 4294967296"
  shows "packed_field off 4 (\<lambda>m a. rd32 m (a + off)) (\<lambda>m a. wr32 m (a + off))"
proof unfold_locales
  show "rd32 (wr32 m (a + off) v) (a + off) = v" for m a v by (rule rd32_wr32)
qed (use assms in \<open>auto simp: rd32_def wr32_def dest: span_off_cases\<close>)

end
