(* ===== verification/Kstdlib.thy ===== *)
theory Kstdlib
  imports Cmem "HOL-Library.Sublist"
begin

text \<open>
  The kernel's string and memory routines (\<open>src/stdlib/kstdlib.c\<close>) over the flat
  memory. A loop that runs to a NUL byte may never stop, so those routines return
  an \<open>option\<close>, with \<open>None\<close> for a call that never returns. \<open>char\<close> is signed on the
  i686 target. Specifications are stated with \<open>cstr\<close> (a NUL-terminated string in
  memory) and \<open>bytes_at\<close> (a block of bytes).
\<close>

section \<open>The routines\<close>

partial_function (option) kstrlen_loop :: "mem \<Rightarrow> addr \<Rightarrow> u32 \<Rightarrow> u32 option" where
  "kstrlen_loop m str counter =
     (if m str \<noteq> 0 then kstrlen_loop m (str + 1) (counter + 1) else Some counter)"

definition kstrlen :: "mem \<Rightarrow> addr \<Rightarrow> u32 option" where
  "kstrlen m str = kstrlen_loop m str 0"

text \<open>The difference of two signed \<open>char\<close>s, an \<open>int\<close>.\<close>

definition char_diff :: "u8 \<Rightarrow> u8 \<Rightarrow> int" where
  "char_diff c d = sint c - sint d"

partial_function (option) kstrcmp :: "mem \<Rightarrow> addr \<Rightarrow> addr \<Rightarrow> u32 option" where
  "kstrcmp m str1 str2 =
     (if m str1 \<noteq> 0 \<and> m str2 \<noteq> 0
      then (if char_diff (m str1) (m str2) \<noteq> 0
            then Some (word_of_int (char_diff (m str1) (m str2)))
            else kstrcmp m (str1 + 1) (str2 + 1))
      else Some 0)"

fun kmemcmp_loop :: "mem \<Rightarrow> addr \<Rightarrow> addr \<Rightarrow> nat \<Rightarrow> u32" where
  "kmemcmp_loop m ptr1 ptr2 0 = 0"
| "kmemcmp_loop m ptr1 ptr2 (Suc num) =
     (let diff = uint (m ptr1) - uint (m ptr2)
      in if diff \<noteq> 0 then word_of_int diff
         else kmemcmp_loop m (ptr1 + 1) (ptr2 + 1) num)"

definition kmemcmp :: "mem \<Rightarrow> addr \<Rightarrow> addr \<Rightarrow> u32 \<Rightarrow> u32" where
  "kmemcmp m ptr1 ptr2 num = kmemcmp_loop m ptr1 ptr2 (unat num)"

partial_function (option) kstrcpy_loop ::
    "mem \<Rightarrow> addr \<Rightarrow> addr \<Rightarrow> u32 \<Rightarrow> (mem \<times> u32) option" where
  "kstrcpy_loop m dest src num_written =
     (if m src \<noteq> 0
      then kstrcpy_loop (m(dest := m src)) (dest + 1) (src + 1) (num_written + 1)
      else Some (m(dest := 0), num_written))"

definition kstrcpy :: "mem \<Rightarrow> addr \<Rightarrow> addr \<Rightarrow> (mem \<times> u32) option" where
  "kstrcpy m dest src = kstrcpy_loop m dest src 0"

partial_function (option) kstrncpy_loop ::
    "mem \<Rightarrow> addr \<Rightarrow> addr \<Rightarrow> u32 \<Rightarrow> u32 \<Rightarrow> (mem \<times> u32) option" where
  "kstrncpy_loop m dest src limit num_written =
     (if m src \<noteq> 0 \<and> num_written < limit - 1
      then kstrncpy_loop (m(dest := m src)) (dest + 1) (src + 1) limit (num_written + 1)
      else Some (m(dest := 0), num_written))"

definition kstrncpy :: "mem \<Rightarrow> addr \<Rightarrow> addr \<Rightarrow> u32 \<Rightarrow> (mem \<times> u32) option" where
  "kstrncpy m dest src limit = kstrncpy_loop m dest src limit 0"

fun kmemcpy_loop :: "mem \<Rightarrow> addr \<Rightarrow> addr \<Rightarrow> nat \<Rightarrow> u32 \<Rightarrow> mem \<times> u32" where
  "kmemcpy_loop m dest src 0 num_written = (m, num_written)"
| "kmemcpy_loop m dest src (Suc num) num_written =
     kmemcpy_loop (m(dest := m src)) (dest + 1) (src + 1) num (num_written + 1)"

definition kmemcpy :: "mem \<Rightarrow> addr \<Rightarrow> addr \<Rightarrow> u32 \<Rightarrow> mem \<times> u32" where
  "kmemcpy m dest src num = kmemcpy_loop m dest src (unat num) 0"

fun kmemset_loop :: "mem \<Rightarrow> addr \<Rightarrow> u8 \<Rightarrow> nat \<Rightarrow> mem" where
  "kmemset_loop m dest value 0 = m"
| "kmemset_loop m dest value (Suc num) = kmemset_loop (m(dest := value)) (dest + 1) value num"

definition kmemset :: "mem \<Rightarrow> addr \<Rightarrow> u8 \<Rightarrow> u32 \<Rightarrow> mem" where
  "kmemset m dest value num = kmemset_loop m dest value (unat num)"

fun kmemset_u16_loop :: "mem \<Rightarrow> addr \<Rightarrow> u16 \<Rightarrow> nat \<Rightarrow> mem" where
  "kmemset_u16_loop m dest value 0 = m"
| "kmemset_u16_loop m dest value (Suc num) =
     kmemset_u16_loop (wr16 m dest value) (dest + 2) value num"

definition kmemset_u16 :: "mem \<Rightarrow> addr \<Rightarrow> u16 \<Rightarrow> u32 \<Rightarrow> mem" where
  "kmemset_u16 m dest value num = kmemset_u16_loop m dest value (unat num)"

section \<open>Strings and blocks in memory\<close>

primrec bytes_at :: "mem \<Rightarrow> addr \<Rightarrow> u8 list \<Rightarrow> bool" where
  "bytes_at m p [] \<longleftrightarrow> True"
| "bytes_at m p (x # xs) \<longleftrightarrow> m p = x \<and> bytes_at m (p + 1) xs"

primrec cstr :: "mem \<Rightarrow> addr \<Rightarrow> u8 list \<Rightarrow> bool" where
  "cstr m p [] \<longleftrightarrow> m p = 0"
| "cstr m p (x # xs) \<longleftrightarrow> x \<noteq> 0 \<and> m p = x \<and> cstr m (p + 1) xs"

lemma span_Suc:
  assumes "n < 4294967296"
  shows "span p (Suc n) = insert p (span (p + 1) n)"
proof (rule set_eqI)
  fix x
  have "x \<in> span (p + 1) n \<longleftrightarrow> 1 \<le> unat (x - p) \<and> unat (x - p) < Suc n"
    using assms span_offset [of 1 n x p] by simp
  moreover have "1 \<le> unat (x - p) \<longleftrightarrow> x \<noteq> p"
    by (simp add: Suc_le_eq unat_gt_0)
  ultimately show "x \<in> span p (Suc n) \<longleftrightarrow> x \<in> insert p (span (p + 1) n)"
    by (auto simp: in_span)
qed

lemma notin_span_next: "n < 4294967296 \<Longrightarrow> p \<notin> span (p + 1) n"
  by (simp add: in_span unat_minus_1_32)

lemma bytes_at_cong:
  "agree_off S m m' \<Longrightarrow> S \<inter> span p (length xs) = {} \<Longrightarrow> length xs \<le> 4294967296 \<Longrightarrow>
     bytes_at m' p xs = bytes_at m p xs"
proof (induction xs arbitrary: p)
  case (Cons x xs)
  then have "p \<notin> S" and "S \<inter> span (p + 1) (length xs) = {}"
    by (auto simp: span_Suc)
  with Cons show ?case by (simp add: agree_off_def)
qed simp

lemma cstr_iff_bytes_at: "cstr m p xs \<longleftrightarrow> bytes_at m p (xs @ [0]) \<and> 0 \<notin> set xs"
  by (induction xs arbitrary: p) auto

lemma cstr_cong:
  "agree_off S m m' \<Longrightarrow> S \<inter> span p (Suc (length xs)) = {} \<Longrightarrow> length xs < 4294967296 \<Longrightarrow>
     cstr m' p xs = cstr m p xs"
  by (simp add: cstr_iff_bytes_at bytes_at_cong)

lemma all_less_Suc_shift:
  "(\<forall>i < Suc n. P (p + of_nat i)) \<longleftrightarrow> P p \<and> (\<forall>i < n. P (p + 1 + of_nat i))" for p :: addr
  by (auto simp: less_Suc_eq_0_disj add.assoc)

lemma bytes_at_nth: "bytes_at m p xs \<longleftrightarrow> (\<forall>i < length xs. m (p + of_nat i) = xs ! i)"
proof (induction xs arbitrary: p)
  case (Cons x xs)
  have "(\<forall>i < length (x # xs). m (p + of_nat i) = (x # xs) ! i) \<longleftrightarrow>
      m p = x \<and> (\<forall>i < length xs. m (p + 1 + of_nat i) = xs ! i)"
    by (auto simp: less_Suc_eq_0_disj add.assoc)
  with Cons.IH [of "p + 1"] show ?case by simp
qed simp

section \<open>Correctness\<close>

lemma kstrlen_loop_cstr:
  "cstr m p xs \<Longrightarrow> kstrlen_loop m p c = Some (c + of_nat (length xs))"
proof (induction xs arbitrary: p c)
  case (Cons x xs)
  then show ?case by (subst kstrlen_loop.simps) (simp add: algebra_simps)
qed (simp add: kstrlen_loop.simps)

lemma kstrlen_cstr: "cstr m p xs \<Longrightarrow> kstrlen m p = Some (of_nat (length xs))"
  by (simp add: kstrlen_def kstrlen_loop_cstr)

lemma char_diff_0_iff: "char_diff c d = 0 \<longleftrightarrow> c = d"
  by (simp add: char_diff_def sint_eq_iff)

lemma char_diff_bounds: "- 256 < char_diff c d \<and> char_diff c d < 256"
proof -
  have "- 128 \<le> sint c" "sint c < 128" "- 128 \<le> sint d" "sint d < 128"
    using sint_ge [of c] sint_lt [of c] sint_ge [of d] sint_lt [of d] by simp_all
  then show ?thesis by (simp add: char_diff_def)
qed

lemma word_of_char_diff_0_iff: "(word_of_int (char_diff c d) :: u32) = 0 \<longleftrightarrow> c = d"
  using char_diff_bounds [of c d]
  by (simp add: word_of_int_small_0_iff char_diff_0_iff)

lemma kstrcmp_eq_0_iff_prefix:
  assumes "cstr m p xs" and "cstr m q ys"
  shows "kstrcmp m p q = Some 0 \<longleftrightarrow> prefix xs ys \<or> prefix ys xs"
  using assms
proof (induction xs arbitrary: p q ys)
  case Nil
  then show ?case by (subst kstrcmp.simps) simp
next
  case (Cons x xs)
  show ?case
  proof (cases ys)
    case Nil
    with Cons show ?thesis by (subst kstrcmp.simps) simp
  next
    case (Cons y zs)
    with \<open>cstr m p (x # xs)\<close> \<open>cstr m q ys\<close> Cons.IH [of "p + 1" "q + 1" zs] show ?thesis
      by (subst kstrcmp.simps) (auto simp: char_diff_0_iff word_of_char_diff_0_iff)
  qed
qed

text \<open>At the first difference the result is the signed difference, read as a \<open>size_t\<close>.\<close>

lemma kstrcmp_first_difference:
  assumes "cstr m p (zs @ x # xs)" and "cstr m q (zs @ y # ys)" and "x \<noteq> y"
  shows "kstrcmp m p q = Some (word_of_int (char_diff x y))"
  using assms
proof (induction zs arbitrary: p q)
  case Nil
  then show ?case by (subst kstrcmp.simps) (simp add: char_diff_0_iff)
next
  case (Cons z zs)
  then show ?case by (subst kstrcmp.simps) (simp add: char_diff_0_iff)
qed

lemma byte_diff_0_iff: "(word_of_int (uint c - uint d) :: u32) = 0 \<longleftrightarrow> c = d" for c d :: u8
proof -
  have "uint c < 256" "uint d < 256" using uint_lt2p [of c] uint_lt2p [of d] by simp_all
  then have "- 2147483648 < uint c - uint d" "uint c - uint d < 2147483648"
    using uint_ge_0 [of c] uint_ge_0 [of d] by linarith+
  then show ?thesis by (subst word_of_int_small_0_iff) (auto simp: word_uint_eq_iff)
qed

lemma kmemcmp_loop_0_iff:
  "kmemcmp_loop m p q n = 0 \<longleftrightarrow> (\<forall>i < n. m (p + of_nat i) = m (q + of_nat i))"
proof (induction n arbitrary: p q)
  case (Suc n)
  have "kmemcmp_loop m p q (Suc n) = 0 \<longleftrightarrow>
      m p = m q \<and> (\<forall>i < n. m (p + 1 + of_nat i) = m (q + 1 + of_nat i))"
    using byte_diff_0_iff [of "m p" "m q"] word_uint_eq_iff [of "m p" "m q"]
    by (cases "m p = m q") (simp_all add: Let_def Suc.IH del: of_int_diff)
  then show ?case by (auto simp: less_Suc_eq_0_disj add.assoc)
qed simp

lemma kmemcmp_eq_0_iff:
  "kmemcmp m p q num = 0 \<longleftrightarrow> (\<forall>i < unat num. m (p + of_nat i) = m (q + of_nat i))"
  by (simp add: kmemcmp_def kmemcmp_loop_0_iff)

subsection \<open>Copying and filling\<close>

text \<open>
  The copy runs forward, so it is right as long as no byte is overwritten before it is
  read: disjoint blocks, and overlapping ones whose destination lies below the source.
\<close>

definition forward_safe :: "addr \<Rightarrow> addr \<Rightarrow> nat \<Rightarrow> bool" where
  "forward_safe dest src n \<longleftrightarrow> (\<forall>i j. i < j \<and> j < n \<longrightarrow> dest + of_nat i \<noteq> src + of_nat j)"

lemma forward_safe_Suc:
  assumes "forward_safe dest src (Suc n)"
  shows "forward_safe (dest + 1) (src + 1) n" and "dest \<notin> {src + 1 + of_nat i |i. i < n}"
proof -
  have *: "dest + of_nat i \<noteq> src + of_nat j" if "i < j" "j < Suc n" for i j
    using assms that by (simp add: forward_safe_def)
  show "forward_safe (dest + 1) (src + 1) n"
    unfolding forward_safe_def using * [of "Suc i" "Suc j" for i j] by (auto simp: add.assoc)
  show "dest \<notin> {src + 1 + of_nat i |i. i < n}"
    using * [of 0 "Suc i" for i] by (auto simp: add.assoc)
qed

lemma disjoint_forward_safe:
  assumes "span dest n \<inter> span src n = {}" and "n \<le> 4294967296"
  shows "forward_safe dest src n"
proof -
  have "p + of_nat i \<in> span p n" if "i < n" for i p
    using that assms(2) by (simp add: in_span unat_of_nat_32)
  with assms(1) show ?thesis
    unfolding forward_safe_def by (metis disjoint_iff less_trans)
qed

lemma kmemcpy_loop_agree:
  "n < 4294967296 \<Longrightarrow> agree_off (span dest n) m (fst (kmemcpy_loop m dest src n c))"
proof (induction n arbitrary: m dest src c)
  case (Suc n)
  then have "agree_off (span (dest + 1) n) (m(dest := m src))
      (fst (kmemcpy_loop m dest src (Suc n) c))"
    by simp
  moreover have "agree_off {dest} m (m(dest := m src))" by (simp add: agree_off_def)
  ultimately show ?case
    using Suc.prems by (auto simp: span_Suc dest: agree_off_trans)
qed simp

lemma kmemcpy_loop_copies:
  "forward_safe dest src n \<Longrightarrow> n < 4294967296 \<Longrightarrow> i < n \<Longrightarrow>
     fst (kmemcpy_loop m dest src n c) (dest + of_nat i) = m (src + of_nat i)"
proof (induction n arbitrary: m dest src c i)
  case (Suc n)
  let ?m = "m(dest := m src)"
  note safe = forward_safe_Suc [OF Suc.prems(1)]
  show ?case
  proof (cases i)
    case 0
    have "fst (kmemcpy_loop ?m (dest + 1) (src + 1) n (c + 1)) dest = ?m dest"
      using Suc.prems(2) notin_span_next [of n dest]
      by (intro agree_offD [OF kmemcpy_loop_agree]) auto
    with 0 show ?thesis by simp
  next
    case (Suc j)
    with Suc.prems have "j < n" by simp
    then have "fst (kmemcpy_loop ?m (dest + 1) (src + 1) n (c + 1)) (dest + 1 + of_nat j)
        = ?m (src + 1 + of_nat j)"
      using Suc.IH [OF safe(1)] Suc.prems(2) by simp
    moreover have "?m (src + 1 + of_nat j) = m (src + 1 + of_nat j)"
      using safe(2) \<open>j < n\<close> by auto
    ultimately show ?thesis using Suc by (simp add: add.assoc)
  qed
qed simp

lemma kmemcpy_loop_count: "snd (kmemcpy_loop m dest src n c) = c + of_nat n"
  by (induction n arbitrary: m dest src c) simp_all

lemma kmemcpy_correct:
  assumes "forward_safe dest src (unat num)"
  shows "\<forall>i < unat num. fst (kmemcpy m dest src num) (dest + of_nat i) = m (src + of_nat i)"
    and "agree_off (span dest (unat num)) m (fst (kmemcpy m dest src num))"
    and "snd (kmemcpy m dest src num) = num"
  using assms
  by (simp_all add: kmemcpy_def kmemcpy_loop_copies kmemcpy_loop_agree kmemcpy_loop_count
      unat_lt_32)

lemma kmemset_loop_correct:
  "n < 4294967296 \<Longrightarrow>
     kmemset_loop m dest value n = (\<lambda>x. if x \<in> span dest n then value else m x)"
proof (induction n arbitrary: m dest)
  case (Suc n)
  then show ?case by (auto simp: span_Suc fun_eq_iff)
qed simp

lemma kmemset_correct:
  "kmemset m dest value num = (\<lambda>x. if x \<in> span dest (unat num) then value else m x)"
  by (simp add: kmemset_def kmemset_loop_correct unat_lt_32)

lemma kstrncpy_loop_correct:
  assumes "cstr m src xs" and "unat k + length xs < 4294967296" and "unat k \<le> unat (limit - 1)"
    and "span dest (Suc (length xs)) \<inter> span src (Suc (length xs)) = {}"
  defines "n \<equiv> min (length xs) (unat (limit - 1) - unat k)"
  shows "\<exists>m'. kstrncpy_loop m dest src limit k = Some (m', k + of_nat n)
    \<and> cstr m' dest (take n xs) \<and> agree_off (span dest (Suc n)) m m'"
  using assms(1-4) unfolding n_def
proof (induction xs arbitrary: m dest src k)
  case Nil
  then show ?case
    by (subst kstrncpy_loop.simps) (auto simp: agree_off_def)
next
  case (Cons x xs)
  show ?case
  proof (cases "k < limit - 1")
    case False
    then have "unat (limit - 1) - unat k = 0" by (simp add: word_less_nat_alt)
    with False show ?thesis
      by (subst kstrncpy_loop.simps) (auto simp: agree_off_def)
  next
    case True
    let ?N = "unat (limit - 1)"
    define m1 where "m1 = m(dest := m src)"
    from True have lt: "unat k < ?N" by (simp add: word_less_nat_alt)
    then have k1: "unat (k + 1) = Suc (unat k)"
      using unat_lt_32 [of "limit - 1"] by (simp add: unat_word_ariths)
    have len: "length xs < 4294967295" using Cons.prems(2) by simp
    then have sp: "span p (Suc (Suc (length xs))) = insert p (span (p + 1) (Suc (length xs)))" for p
      by (simp add: span_Suc)
    from Cons.prems(4) sp have dj: "dest \<notin> span (src + 1) (Suc (length xs))"
      "span (dest + 1) (Suc (length xs)) \<inter> span (src + 1) (Suc (length xs)) = {}"
      by auto
    have "cstr m1 (src + 1) xs = cstr m (src + 1) xs"
      by (rule cstr_cong [of "{dest}"]) (use dj len in \<open>auto simp: agree_off_def m1_def\<close>)
    with Cons.prems(1) have "cstr m1 (src + 1) xs" by simp
    from Cons.IH [OF this _ _ dj(2), of "k + 1"] Cons.prems(2) lt k1 obtain m' where
      m': "kstrncpy_loop m1 (dest + 1) (src + 1) limit (k + 1)
          = Some (m', k + 1 + of_nat (min (length xs) (?N - Suc (unat k))))"
      "cstr m' (dest + 1) (take (min (length xs) (?N - Suc (unat k))) xs)"
      "agree_off (span (dest + 1) (Suc (min (length xs) (?N - Suc (unat k))))) m1 m'"
      by auto
    let ?j = "min (length xs) (?N - Suc (unat k))"
    have j: "min (Suc (length xs)) (?N - unat k) = Suc ?j" using lt by auto
    have sj: "span dest (Suc (Suc ?j)) = insert dest (span (dest + 1) (Suc ?j))"
      using len by (intro span_Suc) simp
    have "dest \<notin> span (dest + 1) (Suc ?j)" using len by (intro notin_span_next) simp
    with m'(3) have "m' dest = x" using Cons.prems(1) by (auto simp: agree_off_def m1_def)
    moreover have "agree_off (insert dest (span (dest + 1) (Suc ?j))) m m'"
      using m'(3) by (auto simp: agree_off_def m1_def)
    ultimately show ?thesis
      using m' Cons.prems(1) True len
      by (subst kstrncpy_loop.simps) (simp add: j sj add.assoc m1_def)
  qed
qed

lemma kstrncpy_correct:
  fixes limit :: u32
  assumes "cstr m src xs" and "length xs < 4294967296"
    and "span dest (Suc (length xs)) \<inter> span src (Suc (length xs)) = {}"
  defines "n \<equiv> min (length xs) (unat (limit - 1))"
  shows "\<exists>m'. kstrncpy m dest src limit = Some (m', of_nat n)
    \<and> cstr m' dest (take n xs) \<and> agree_off (span dest (Suc n)) m m'"
  using kstrncpy_loop_correct [of m src xs 0 limit dest] assms
  by (simp add: kstrncpy_def)

text \<open>\<open>kstrcpy\<close> is \<open>kstrncpy\<close> without a bound: \<open>max = 0\<close> makes \<open>max - 1\<close> wrap.\<close>

lemma kstrcpy_loop_eq:
  assumes "cstr m src xs" and "unat k + length xs < 4294967295"
    and "span dest (Suc (length xs)) \<inter> span src (Suc (length xs)) = {}"
  shows "kstrcpy_loop m dest src k = kstrncpy_loop m dest src 0 k"
  using assms
proof (induction xs arbitrary: m dest src k)
  case Nil
  then show ?case by (simp add: kstrcpy_loop.simps kstrncpy_loop.simps)
next
  case (Cons x xs)
  have sp: "span p (Suc (Suc (length xs))) = insert p (span (p + 1) (Suc (length xs)))" for p
    using Cons.prems(2) by (intro span_Suc) simp
  from Cons.prems(3) sp have dj: "dest \<notin> span (src + 1) (Suc (length xs))"
    "span (dest + 1) (Suc (length xs)) \<inter> span (src + 1) (Suc (length xs)) = {}"
    by auto
  have "cstr (m(dest := x)) (src + 1) xs = cstr m (src + 1) xs"
    by (rule cstr_cong [of "{dest}"]) (use dj Cons.prems(2) in \<open>auto simp: agree_off_def\<close>)
  with Cons.prems(1) have c: "cstr (m(dest := x)) (src + 1) xs" by simp
  have k: "unat (k + 1) = Suc (unat k)" "k < - 1"
    using Cons.prems(2) by (simp_all add: unat_add_nowrap word_less_nat_alt unat_minus_1_32)
  have "kstrcpy_loop (m(dest := x)) (dest + 1) (src + 1) (k + 1)
      = kstrncpy_loop (m(dest := x)) (dest + 1) (src + 1) 0 (k + 1)"
    using Cons.prems(2) k by (intro Cons.IH [OF c _ dj(2)]) simp
  then show ?case
    using Cons.prems(1) k(2) by (simp add: kstrcpy_loop.simps kstrncpy_loop.simps)
qed

section \<open>Properties\<close>

text \<open>A string and a buffer to copy it to, for the witnesses.\<close>

definition two_strings :: mem where
  "two_strings = (\<lambda>_. 0)(16 := 97, 17 := 98, 32 := 97, 33 := 98, 34 := 99)"

lemma two_strings_cstr:
  "cstr two_strings 16 [97, 98]" "cstr two_strings 32 [97, 98, 99]" "cstr two_strings 64 []"
  by (simp_all add: two_strings_def)

text \<open>
  \<open>kstrcmp\<close> of two strings in memory returns, and returns 0 exactly when one is a prefix
  of the other (the loop stops at the first NUL of either); otherwise it returns the signed
  difference of the first two characters that differ, as a \<open>size_t\<close>.
\<close>

theorem kstrcmp_prefix_order:
  assumes "cstr m p xs" and "cstr m q ys"
  shows "(kstrcmp m p q = Some 0 \<longleftrightarrow> prefix xs ys \<or> prefix ys xs) \<and>
    (\<forall>zs x xs' y ys'. xs = zs @ x # xs' \<and> ys = zs @ y # ys' \<and> x \<noteq> y \<longrightarrow>
       kstrcmp m p q = Some (word_of_int (char_diff x y)))"
  using kstrcmp_eq_0_iff_prefix [OF assms] kstrcmp_first_difference assms by blast

theorem kstrcmp_prefix_order_witness:
  "kstrcmp two_strings 16 32 = Some 0 \<and> kstrcmp two_strings 64 32 = Some 0"
  using kstrcmp_prefix_order [OF two_strings_cstr(1,2)] kstrcmp_prefix_order [OF two_strings_cstr(3,2)]
  by simp

text \<open>
  C13: Where no byte of the source is overwritten before it is read (disjoint blocks, or a
  destination below an overlapping source), \<open>kmemcpy\<close> makes the destination equal to the
  old source byte for byte, \<open>kmemcmp\<close> of the copy with any block that holds the old source
  gives 0, nothing outside the destination changes, and the byte count is returned.
\<close>

theorem kmemcpy_copies:
  assumes "forward_safe dest src (unat num)"
  shows "\<exists>m'. kmemcpy m dest src num = (m', num)
    \<and> (\<forall>i < unat num. m' (dest + of_nat i) = m (src + of_nat i))
    \<and> agree_off (span dest (unat num)) m m'
    \<and> (\<forall>p. (\<forall>i < unat num. m' (p + of_nat i) = m (src + of_nat i)) \<longrightarrow> kmemcmp m' dest p num = 0)"
  using kmemcpy_correct [OF assms, of m]
  by (intro exI [of _ "fst (kmemcpy m dest src num)"])
    (simp add: prod_eq_iff kmemcmp_eq_0_iff)

theorem kmemcpy_copies_witness:
  "\<exists>m'. kmemcpy two_strings 31 32 4 = (m', 4) \<and> m' 31 = 97 \<and> m' 33 = 99"
proof -
  have "forward_safe 31 32 (unat (4 :: u32))"
    unfolding forward_safe_def
  proof (intro allI impI, elim conjE)
    fix i j :: nat assume ij: "i < j" "j < unat (4 :: u32)"
    then have "unat (31 + of_nat i :: addr) = 31 + i" "unat (32 + of_nat j :: addr) = 32 + j"
      by (simp_all add: unat_word_ariths unat_of_nat)
    then have "unat (31 + of_nat i :: addr) \<noteq> unat (32 + of_nat j :: addr)" using ij by simp
    then show "(31 :: addr) + of_nat i \<noteq> 32 + of_nat j" by metis
  qed
  from kmemcpy_copies [OF this, of two_strings] obtain m' where
    "kmemcpy two_strings 31 32 4 = (m', 4)"
    and c: "\<forall>i < 4. m' (31 + of_nat i) = two_strings (32 + of_nat i)" by auto
  moreover have "m' 31 = 97" "m' 33 = 99"
    using c [rule_format, of 0] c [rule_format, of 2] by (simp_all add: two_strings_def)
  ultimately show ?thesis by blast
qed

text \<open>
  Copying a string to a disjoint buffer returns and leaves there a terminated string:
  with \<open>kstrcpy\<close> the whole of it, with \<open>kstrncpy\<close> and a bound \<open>max \<ge> 1\<close> its first
  \<open>max - 1\<close> characters; the count of characters is returned and no byte outside the copy
  and its terminator changes. A bound of 0 is no bound.
\<close>

theorem kstrcpy_copies:
  assumes "cstr m src xs" and "length xs < 4294967295"
    and "span dest (Suc (length xs)) \<inter> span src (Suc (length xs)) = {}"
  shows "(\<exists>m'. kstrcpy m dest src = Some (m', of_nat (length xs)) \<and> cstr m' dest xs
      \<and> agree_off (span dest (Suc (length xs))) m m')
    \<and> (\<forall>limit. \<exists>m' n. kstrncpy m dest src limit = Some (m', of_nat n)
      \<and> n = (if limit = 0 then length xs else min (length xs) (unat limit - 1))
      \<and> cstr m' dest (take n xs) \<and> agree_off (span dest (Suc n)) m m')"
proof -
  have bounded: "\<exists>m'. kstrncpy m dest src limit = Some (m', of_nat n)
      \<and> cstr m' dest (take n xs) \<and> agree_off (span dest (Suc n)) m m'"
    if "n = min (length xs) (unat (limit - 1))" for limit :: u32 and n
    using kstrncpy_correct [OF assms(1) _ assms(3), of limit] assms(2) that by simp
  have "(if limit = 0 then length xs else min (length xs) (unat limit - 1))
      = min (length xs) (unat (limit - 1))" for limit :: u32
    using assms(2) by (simp add: unat_minus_1_32 unat_sub_nowrap unat_gt_0 Suc_le_eq)
  then have "\<forall>limit. \<exists>m' n. kstrncpy m dest src limit = Some (m', of_nat n)
      \<and> n = (if limit = 0 then length xs else min (length xs) (unat limit - 1))
      \<and> cstr m' dest (take n xs) \<and> agree_off (span dest (Suc n)) m m'"
    using bounded by blast
  moreover have "kstrcpy m dest src = kstrncpy m dest src 0"
    using kstrcpy_loop_eq [OF assms(1) _ assms(3), of 0] assms(2)
    by (simp add: kstrcpy_def kstrncpy_def)
  ultimately show ?thesis using bounded [of "length xs" 0] assms(2) by (simp add: unat_minus_1_32)
qed

theorem kstrcpy_copies_witness:
  "(\<exists>m'. kstrcpy two_strings 64 32 = Some (m', 3) \<and> cstr m' 64 [97, 98, 99])
    \<and> (\<exists>m'. kstrncpy two_strings 64 32 3 = Some (m', 2) \<and> cstr m' 64 [97, 98])"
proof -
  have "span (32 :: addr) (Suc (length [97, 98, 99 :: u8])) \<inter> span 64 (Suc (length [97, 98, 99 :: u8])) = {}"
    by (rule spans_apart) simp_all
  then have dj: "span (64 :: addr) (Suc (length [97, 98, 99 :: u8])) \<inter> span 32 (Suc (length [97, 98, 99 :: u8])) = {}"
    by (simp only: Int_commute)
  note kstrcpy_copies [OF two_strings_cstr(2) _ dj]
  from this [THEN conjunct1] this [THEN conjunct2, rule_format, of 3] show ?thesis
    by (auto simp: min_def)
qed

end
