(* ===== verification/Kstdio.thy ===== *)
theory Kstdio
  imports Prelude
begin

text \<open>
  Formatted output (\<open>src/stdlib/kstdio.c\<close>). A C string is a HOL string without its
  terminator; the part of the \<open>result\<close> buffer written so far, up to \<open>result_i\<close>, is
  the string each routine extends. Reading an argument that was not passed, or as the
  wrong type, is undefined behaviour: \<open>kvsprintf\<close> returns \<open>None\<close> there. The three
  digit loops share the contract of locale \<open>radix\<close>.
\<close>

section \<open>Digit loops\<close>

text \<open>
  The \<open>while (true)\<close> loops that fill \<open>buffer\<close> with the digits, least significant
  first; the result is \<open>buffer[0 .. i - 1]\<close>.
\<close>

lemma unat_div_less:
  assumes "iter div base \<noteq> 0" and "1 < unat (base :: u32)"
  shows "unat (iter div base) < unat (iter :: u32)"
proof -
  have "0 < unat iter" using assms(1) by (cases "iter = 0") (auto simp: unat_gt_0)
  with assms(2) show ?thesis by (simp add: unat_div)
qed

function dec_loop :: "u32 \<Rightarrow> u8 list" where
  "dec_loop iter =
     (if iter div 10 = 0 then [ucast (iter mod 10)]
      else ucast (iter mod 10) # dec_loop (iter div 10))"
  by pat_completeness auto
termination
  by (relation "measure unat") (simp_all add: unat_div_less)

function hex_loop :: "u32 \<Rightarrow> u8 list" where
  "hex_loop iter =
     (if iter div 16 = 0 then [ucast (iter mod 16)]
      else ucast (iter mod 16) # hex_loop (iter div 16))"
  by pat_completeness auto
termination
  by (relation "measure unat") (simp_all add: unat_div_less)

function bin_loop :: "u32 \<Rightarrow> u8 list" where
  "bin_loop iter =
     (if iter div 2 = 0 then [ucast (iter mod 2)]
      else ucast (iter mod 2) # bin_loop (iter div 2))"
  by pat_completeness auto
termination
  by (relation "measure unat") (simp_all add: unat_div_less)

text \<open>The loop of \<open>render_integer\<close> works on an \<open>int32_t\<close>, with C's division.\<close>

function sdec_loop :: "int \<Rightarrow> u8 list" where
  "sdec_loop iter =
     (if iter sdiv 10 = 0 then [word_of_int (iter smod 10)]
      else word_of_int (iter smod 10) # sdec_loop (iter sdiv 10))"
  by pat_completeness auto
termination
  by (relation "measure (\<lambda>i. nat \<bar>i\<bar>)") (auto simp: signed_divide_int_def sgn_if split: if_splits)

declare dec_loop.simps [simp del] hex_loop.simps [simp del] bin_loop.simps [simp del]
  sdec_loop.simps [simp del]

section \<open>The renderers\<close>

definition digit_char :: "u8 \<Rightarrow> char" where
  "digit_char d = char_of (unat d + 48)"

definition render_unsigned_integer :: "string \<Rightarrow> u32 \<Rightarrow> string" where
  "render_unsigned_integer result to_render =
     result @ map digit_char (rev (dec_loop to_render))"

definition render_integer :: "string \<Rightarrow> u32 \<Rightarrow> string" where
  "render_integer result to_render =
     (if sint to_render = - 2147483648 then result @ ''-2147483648''
      else if sint to_render < 0
        then (result @ ''-'') @ map digit_char (rev (sdec_loop (sint to_render * - 1)))
        else result @ map digit_char (rev (sdec_loop (sint to_render))))"

definition hex_digits :: string where
  "hex_digits = ''0123456789abcdef''"

definition render_hexadecimal :: "string \<Rightarrow> u32 \<Rightarrow> string" where
  "render_hexadecimal result to_render =
     result @ map (\<lambda>d. hex_digits ! unat d) (rev (hex_loop to_render))"

definition render_binary :: "string \<Rightarrow> u32 \<Rightarrow> string" where
  "render_binary result to_render =
     result @ map digit_char (rev (bin_loop to_render))"

fun render_string :: "string \<Rightarrow> string \<Rightarrow> string" where
  "render_string result [] = result"
| "render_string result (c # cs) = render_string (result @ [c]) cs"

section \<open>Format strings\<close>

datatype va_arg = Va_int u32 | Va_str string

text \<open>
  The loop of \<open>kvsprintf\<close>: the text written so far, the rest of the format and the
  arguments not yet read. The flag is \<open>False\<close> when the routine returned through
  \<open>default: return\<close>, without storing the terminating NUL.
\<close>

fun kvsprintf_loop :: "string \<Rightarrow> string \<Rightarrow> va_arg list \<Rightarrow> (string \<times> bool) option" where
  "kvsprintf_loop result [] args = Some (result, True)"
| "kvsprintf_loop result (c # fmt) args =
     (if c = CHR ''%'' then
        (case fmt of
           [] \<Rightarrow> Some (result, False)
         | d # fmt' \<Rightarrow>
             if d = CHR ''d'' then
               (case args of Va_int w # args' \<Rightarrow>
                  kvsprintf_loop (render_integer result w) fmt' args' | _ \<Rightarrow> None)
             else if d = CHR ''u'' then
               (case args of Va_int w # args' \<Rightarrow>
                  kvsprintf_loop (render_unsigned_integer result w) fmt' args' | _ \<Rightarrow> None)
             else if d = CHR ''x'' then
               (case args of Va_int w # args' \<Rightarrow>
                  kvsprintf_loop (render_hexadecimal result w) fmt' args' | _ \<Rightarrow> None)
             else if d = CHR ''b'' then
               (case args of Va_int w # args' \<Rightarrow>
                  kvsprintf_loop (render_binary result w) fmt' args' | _ \<Rightarrow> None)
             else if d = CHR ''s'' then
               (case args of Va_str s # args' \<Rightarrow>
                  kvsprintf_loop (render_string result s) fmt' args' | _ \<Rightarrow> None)
             else if d = CHR ''c'' then
               (case args of Va_int w # args' \<Rightarrow>
                  kvsprintf_loop (result @ [char_of (unat w mod 256)]) fmt' args' | _ \<Rightarrow> None)
             else Some (result, False))
      else kvsprintf_loop (result @ [c]) fmt args)"

definition kvsprintf :: "string \<Rightarrow> va_arg list \<Rightarrow> (string \<times> bool) option" where
  "kvsprintf fmt args = kvsprintf_loop [] fmt args"

definition ksprintf :: "string \<Rightarrow> va_arg list \<Rightarrow> (string \<times> bool) option" where
  "ksprintf fmt args = kvsprintf fmt args"

text \<open>
  \<open>kvprintf\<close> formats into \<open>char result[1024]\<close> and hands it to \<open>tio_write\<close>, which
  stops at the first NUL. The result here is the text handed over; overrunning the
  buffer, or leaving it unterminated, is \<open>None\<close>.
\<close>

definition kvprintf :: "string \<Rightarrow> va_arg list \<Rightarrow> string option" where
  "kvprintf fmt args =
     (case kvsprintf fmt args of
        Some (text, True) \<Rightarrow>
          if length text < 1024 then Some (takeWhile (\<lambda>c. c \<noteq> CHR 0x00) text) else None
      | _ \<Rightarrow> None)"

definition kprintf :: "string \<Rightarrow> va_arg list \<Rightarrow> string option" where
  "kprintf fmt args = kvprintf fmt args"

section \<open>The contract of a digit loop\<close>

text \<open>The number a list of digits stands for, least significant digit first.\<close>

primrec digits_value :: "nat \<Rightarrow> u8 list \<Rightarrow> nat" where
  "digits_value b [] = 0"
| "digits_value b (d # ds) = unat d + b * digits_value b ds"

locale radix =
  fixes base :: u32
    and loop :: "u32 \<Rightarrow> u8 list"
  assumes base_ge: "1 < unat base"
    and base_le: "unat base \<le> 16"
    and loop_unfold: "loop iter =
      (if iter div base = 0 then [ucast (iter mod base)]
       else ucast (iter mod base) # loop (iter div base))"
begin

lemma unat_digit: "unat (ucast (iter mod base) :: u8) = unat iter mod unat base"
proof -
  have "unat iter mod unat base < unat base" using base_ge by simp
  then have "unat iter mod unat base < 256" using base_le by linarith
  then show ?thesis by (simp add: unsigned_ucast_eq take_bit_eq_mod unat_mod)
qed

lemma div_0_less: "iter div base = 0 \<Longrightarrow> unat iter < unat base"
  using base_ge unat_div [of iter base] by (simp add: div_eq_0_iff)

lemma loop_induct [case_names last more]:
  assumes "\<And>iter. iter div base = 0 \<Longrightarrow> P iter"
    and "\<And>iter. iter div base \<noteq> 0 \<Longrightarrow> P (iter div base) \<Longrightarrow> P iter"
  shows "P iter"
proof (induction "unat iter" arbitrary: iter rule: less_induct)
  case less
  then show ?case using assms base_ge unat_div_less by blast
qed

lemma digits_lt: "d \<in> set (loop iter) \<Longrightarrow> unat d < unat base"
proof (induction iter rule: loop_induct)
  case (last iter)
  then have "d = ucast (iter mod base)" by (simp add: loop_unfold [of iter])
  then show ?case using base_ge by (simp add: unat_digit)
next
  case (more iter)
  then have "d = ucast (iter mod base) \<or> d \<in> set (loop (iter div base))"
    by (simp add: loop_unfold [of iter])
  then show ?case using more.IH base_ge by (auto simp: unat_digit)
qed

lemma loop_value: "digits_value (unat base) (loop iter) = unat iter"
proof (induction iter rule: loop_induct)
  case (last iter)
  then have "loop iter = [ucast (iter mod base)]" by (simp add: loop_unfold [of iter])
  with div_0_less [OF last] show ?case by (simp add: unat_digit)
next
  case (more iter)
  then have "loop iter = ucast (iter mod base) # loop (iter div base)"
    by (simp add: loop_unfold [of iter])
  with more.IH show ?case by (simp add: unat_digit unat_div)
qed

lemma loop_not_Nil: "loop iter \<noteq> []"
  by (simp add: loop_unfold [of iter])

lemma length_loop: "unat iter < unat base ^ Suc k \<Longrightarrow> length (loop iter) \<le> Suc k"
proof (induction k arbitrary: iter)
  case 0
  then have "unat (iter div base) = 0" by (simp add: unat_div)
  then have "iter div base = 0" by (simp only: unat_eq_0)
  then show ?case by (simp add: loop_unfold [of iter])
next
  case (Suc k)
  have "unat (iter div base) < unat base ^ Suc k"
    using Suc.prems base_ge by (simp add: unat_div div_less_iff_less_mult mult.commute)
  then have "length (loop (iter div base)) \<le> Suc k" by (rule Suc.IH)
  then show ?case by (simp add: loop_unfold [of iter])
qed

text \<open>No leading zero: the most significant digit of a number above 0 is not 0.\<close>

lemma last_loop: "iter \<noteq> 0 \<Longrightarrow> last (loop iter) \<noteq> 0"
proof (induction iter rule: loop_induct)
  case (last iter)
  have "unat iter mod unat base = unat iter"
    using div_0_less [OF last.hyps] by simp
  moreover have "unat iter \<noteq> 0" using last.prems by (simp add: unat_eq_0)
  ultimately have "unat (ucast (iter mod base) :: u8) \<noteq> 0" by (simp add: unat_digit)
  then show ?case using last.hyps by (auto simp: loop_unfold [of iter])
next
  case (more iter)
  then show ?case by (subst loop_unfold) (simp add: loop_not_Nil)
qed

end

interpretation dec: radix 10 dec_loop
  by unfold_locales (simp_all add: dec_loop.simps)

interpretation hex: radix 16 hex_loop
  by unfold_locales (simp_all add: hex_loop.simps)

interpretation bin: radix 2 bin_loop
  by unfold_locales (simp_all add: bin_loop.simps)

section \<open>Reading the rendered text back\<close>

text \<open>The specification side: the value of a digit character, a numeral and a signed numeral.\<close>

definition char_digit :: "char \<Rightarrow> nat" where
  "char_digit c = (let n = of_char c in if n < 58 then n - 48 else n - 87)"

definition parse_nat :: "nat \<Rightarrow> string \<Rightarrow> nat" where
  "parse_nat b cs = foldl (\<lambda>acc c. acc * b + char_digit c) 0 cs"

definition parse_int :: "string \<Rightarrow> int" where
  "parse_int cs =
     (if cs \<noteq> [] \<and> hd cs = CHR ''-'' then - int (parse_nat 10 (tl cs))
      else int (parse_nat 10 cs))"

text \<open>The numeral of \<open>n\<close> in base \<open>b\<close>: it reads back as \<open>n\<close> and has no leading zero.\<close>

definition numeral_of :: "nat \<Rightarrow> nat \<Rightarrow> string \<Rightarrow> bool" where
  "numeral_of b n cs \<longleftrightarrow> parse_nat b cs = n \<and> cs \<noteq> [] \<and>
     set cs \<subseteq> set (take b hex_digits) \<and> (hd cs = CHR ''0'' \<longrightarrow> cs = ''0'')"

lemma parse_nat_digits:
  assumes "\<And>d. d \<in> set ds \<Longrightarrow> char_digit (f d) = unat d"
  shows "parse_nat b (map f (rev ds)) = digits_value b ds"
  using assms
  by (induction ds) (simp_all add: parse_nat_def algebra_simps)

lemma less_16_cases: "n < 16 \<Longrightarrow> n \<in> {0, 1, 2, 3, 4, 5, 6, 7, 8, 9, 10, 11, 12, 13, 14, 15 :: nat}"
  by simp presburger

lemma hex_digit_facts:
  assumes "n < 16"
  shows "char_digit (hex_digits ! n) = n" and "hex_digits ! n = CHR ''0'' \<longleftrightarrow> n = 0"
  using less_16_cases [OF assms] by (auto simp: hex_digits_def char_digit_def)

lemma digit_char_hex: "unat d < 10 \<Longrightarrow> digit_char d = hex_digits ! unat d"
proof -
  assume d: "unat d < 10"
  then have "char_of (unat d + 48) = hex_digits ! unat d"
    using less_16_cases [of "unat d"] by (auto simp: hex_digits_def char_of_def bit_0)
  then show ?thesis by (simp add: digit_char_def)
qed

lemma nth_in_take: "i < n \<Longrightarrow> n \<le> length xs \<Longrightarrow> xs ! i \<in> set (take n xs)"
  by (metis length_take min.absorb2 nth_mem nth_take)

lemma length_hex_digits: "length hex_digits = 16"
  by (simp add: hex_digits_def)

context radix
begin

text \<open>Any renderer that maps the digits of the loop through \<open>hex_digits\<close> prints numerals.\<close>

lemma numeral_of_digits:
  "numeral_of (unat base) (unat iter) (map (\<lambda>d. hex_digits ! unat d) (rev (loop iter)))"
proof -
  let ?cs = "map (\<lambda>d. hex_digits ! unat d) (rev (loop iter))"
  have lt: "unat d < unat base" "unat d < 16" if "d \<in> set (loop iter)" for d
    using digits_lt [OF that] base_le by auto
  have "parse_nat (unat base) ?cs = unat iter"
    using lt by (subst parse_nat_digits) (simp_all add: hex_digit_facts loop_value)
  moreover have "set ?cs \<subseteq> set (take (unat base) hex_digits)"
    using lt base_le by (auto intro!: nth_in_take simp: length_hex_digits)
  moreover have "?cs = ''0''" if "hd ?cs = CHR ''0''"
  proof -
    have "hd ?cs = hex_digits ! unat (last (loop iter))"
      by (simp add: hd_map hd_rev loop_not_Nil)
    with that lt loop_not_Nil have "unat (last (loop iter)) = 0"
      using hex_digit_facts(2) by (metis last_in_set)
    then have "iter = 0" using last_loop by (auto simp: unat_eq_0)
    then have "loop iter = [0]" by (simp add: loop_unfold [of 0])
    then show ?thesis by (simp add: hex_digits_def)
  qed
  ultimately show ?thesis by (auto simp: numeral_of_def loop_not_Nil)
qed

lemma map_digit_char:
  assumes "unat base \<le> 10"
  shows "map digit_char (rev (loop iter)) = map (\<lambda>d. hex_digits ! unat d) (rev (loop iter))"
  using digits_lt assms by (intro map_cong) (auto intro!: digit_char_hex dest: less_le_trans)

end

lemma render_unsigned_numeral:
  "\<exists>cs. render_unsigned_integer result w = result @ cs \<and> numeral_of 10 (unat w) cs
     \<and> length cs \<le> 10"
  using dec.numeral_of_digits [of w] dec.length_loop [of w 9] unat_lt_32 [of w]
  by (simp add: render_unsigned_integer_def dec.map_digit_char)

lemma render_hexadecimal_numeral:
  "\<exists>cs. render_hexadecimal result w = result @ cs \<and> numeral_of 16 (unat w) cs
     \<and> length cs \<le> 8"
  using hex.numeral_of_digits [of w] hex.length_loop [of w 7] unat_lt_32 [of w]
  by (simp add: render_hexadecimal_def)

lemma render_binary_numeral:
  "\<exists>cs. render_binary result w = result @ cs \<and> numeral_of 2 (unat w) cs
     \<and> length cs \<le> 32"
  using bin.numeral_of_digits [of w] bin.length_loop [of w 31] unat_lt_32 [of w]
  by (simp add: render_binary_def bin.map_digit_char)

subsection \<open>Signed numbers\<close>

lemma sdec_loop_dec_loop: "n < 2147483648 \<Longrightarrow> sdec_loop (int n) = dec_loop (of_nat n)"
proof (induction n rule: less_induct)
  case (less n)
  have n: "unat (of_nat n :: u32) = n" using less.prems by (simp add: unat_of_nat_32)
  have s: "int n sdiv 10 = int (n div 10)" "int n smod 10 = int (n mod 10)"
    by (simp_all add: signed_divide_int_def signed_modulo_int_def sgn_if zdiv_int zmod_int)
  have q: "(of_nat n :: u32) div 10 = of_nat (n div 10)"
    using n less.prems by (intro unsigned_word_eqI [where 'a = nat]) (simp add: unat_div unat_of_nat_32)
  have "n mod 10 < 256" by (rule less_trans [of _ 10]) simp_all
  then have r: "(ucast ((of_nat n :: u32) mod 10) :: u8) = word_of_int (int (n mod 10))"
    using n dec.unat_digit [of "of_nat n"]
    by (intro unsigned_word_eqI [where 'a = nat]) (simp add: unat_of_nat)
  have "(of_nat n :: u32) div 10 = 0 \<longleftrightarrow> n div 10 = 0"
    using less.prems by (simp add: q unat_of_nat_32 flip: unat_eq_0)
  then show ?case
    using less by (subst sdec_loop.simps, subst dec_loop.simps) (simp add: s q r)
qed

lemma numeral_of_not_minus: "numeral_of b n cs \<Longrightarrow> hd cs \<noteq> CHR ''-''"
proof
  assume "numeral_of b n cs" and minus: "hd cs = CHR ''-''"
  then have "hd cs \<in> set hex_digits"
    by (auto simp: numeral_of_def dest!: hd_in_set dest: set_take_subset [THEN subsetD])
  with minus show False by (simp add: hex_digits_def)
qed

lemma parse_int_numeral: "numeral_of 10 n cs \<Longrightarrow> parse_int cs = int n"
  using numeral_of_not_minus [of 10 n cs] by (simp add: parse_int_def numeral_of_def)

lemma parse_int_minus: "numeral_of 10 n cs \<Longrightarrow> parse_int (CHR ''-'' # cs) = - int n"
  by (simp add: parse_int_def numeral_of_def)

lemma render_integer_cases:
  fixes w :: u32
  obtains (min) "sint w = - 2147483648" "render_integer result w = result @ ''-2147483648''"
  | (neg) cs where "- 2147483648 < sint w" "sint w < 0"
      "render_integer result w = result @ CHR ''-'' # cs"
      "numeral_of 10 (nat (- sint w)) cs" "length cs \<le> 10"
  | (pos) cs where "0 \<le> sint w" "render_integer result w = result @ cs"
      "numeral_of 10 (nat (sint w)) cs" "length cs \<le> 10"
proof -
  have rng: "- 2147483648 \<le> sint w" "sint w < 2147483648"
    using sint_ge [of w] sint_lt [of w] by simp_all
  have num: "\<exists>cs. map digit_char (rev (sdec_loop (int n))) = cs \<and> numeral_of 10 n cs \<and> length cs \<le> 10"
    if "n < 2147483648" for n
    using that render_unsigned_numeral [of "[]" "of_nat n"]
    by (simp add: sdec_loop_dec_loop render_unsigned_integer_def unat_of_nat_32)
  consider "sint w = - 2147483648" | "- 2147483648 < sint w" "sint w < 0" | "0 \<le> sint w"
    using rng by linarith
  then show thesis
  proof cases
    case 1
    then show thesis by (intro min) (simp_all add: render_integer_def)
  next
    case 2
    then have "int (nat (- sint w)) = - sint w" "nat (- sint w) < 2147483648" by simp_all
    with num [of "nat (- sint w)"] 2 show thesis
      by (intro neg [of "map digit_char (rev (sdec_loop (- sint w)))"]) (auto simp: render_integer_def)
  next
    case 3
    then have "int (nat (sint w)) = sint w" "nat (sint w) < 2147483648" using rng by simp_all
    with num [of "nat (sint w)"] 3 show thesis
      by (intro pos [OF 3, of "map digit_char (rev (sdec_loop (sint w)))"])
        (auto simp: render_integer_def)
  qed
qed

lemma render_integer_roundtrip:
  "\<exists>cs. render_integer result w = result @ cs \<and> parse_int cs = sint w \<and> length cs \<le> 11"
proof (cases w result rule: render_integer_cases)
  case min
  then show ?thesis by (simp add: parse_int_def parse_nat_def char_digit_def)
qed (auto simp: parse_int_numeral parse_int_minus)

section \<open>Properties of formatting\<close>

lemma render_string_append: "render_string result s = result @ s"
  by (induction s arbitrary: result) auto

lemma kvsprintf_loop_plain:
  "CHR ''%'' \<notin> set fmt \<Longrightarrow> kvsprintf_loop result fmt args = Some (result @ fmt, True)"
  by (induction fmt arbitrary: result) auto

text \<open>How many arguments a format consumes.\<close>

fun conversions :: "string \<Rightarrow> nat" where
  "conversions (c # d # fmt) =
     (if c = CHR ''%'' then (if d \<in> set ''duxbsc'' then Suc (conversions fmt) else 0)
      else conversions (d # fmt))"
| "conversions _ = 0"

text \<open>What one conversion appends, as a function of its letter and its argument.\<close>

fun conv_text :: "char \<Rightarrow> va_arg \<Rightarrow> string option" where
  "conv_text d (Va_int w) =
     (if d = CHR ''d'' then Some (render_integer [] w)
      else if d = CHR ''u'' then Some (render_unsigned_integer [] w)
      else if d = CHR ''x'' then Some (render_hexadecimal [] w)
      else if d = CHR ''b'' then Some (render_binary [] w)
      else if d = CHR ''c'' then Some [char_of (unat w mod 256)]
      else None)"
| "conv_text d (Va_str s) = (if d = CHR ''s'' then Some s else None)"

lemma render_append:
  "render_integer result w = result @ render_integer [] w"
  "render_unsigned_integer result w = result @ render_unsigned_integer [] w"
  "render_hexadecimal result w = result @ render_hexadecimal [] w"
  "render_binary result w = result @ render_binary [] w"
  by (simp_all add: render_integer_def render_unsigned_integer_def render_hexadecimal_def
      render_binary_def)

lemma kvsprintf_loop_conversion:
  "kvsprintf_loop result (CHR ''%'' # d # fmt) args =
     (if d \<in> set ''duxbsc'' then
        (case args of [] \<Rightarrow> None
         | a # args' \<Rightarrow> (case conv_text d a of None \<Rightarrow> None
             | Some s \<Rightarrow> kvsprintf_loop (result @ s) fmt args'))
      else Some (result, False))"
  by (auto simp: render_string_append split: list.splits va_arg.splits)
    (simp_all only: render_append [of result])

lemma kvsprintf_loop_trailing: "kvsprintf_loop result [CHR ''%''] args = Some (result, False)"
  by simp

lemma kvsprintf_loop_char:
  "c \<noteq> CHR ''%'' \<Longrightarrow> kvsprintf_loop result (c # fmt) args = kvsprintf_loop (result @ [c]) fmt args"
  by simp

lemmas kvsprintf_loop_steps =
  kvsprintf_loop_conversion kvsprintf_loop_trailing kvsprintf_loop_char

text \<open>The text of a conversion is bounded by its argument.\<close>

primrec arg_width :: "va_arg \<Rightarrow> nat" where
  "arg_width (Va_int w) = 32"
| "arg_width (Va_str s) = length s"

lemma render_lengths:
  "length (render_integer [] w) \<le> 32" "length (render_unsigned_integer [] w) \<le> 32"
  "length (render_hexadecimal [] w) \<le> 32" "length (render_binary [] w) \<le> 32"
  using render_integer_roundtrip [of "[]" w] render_unsigned_numeral [of "[]" w]
    render_hexadecimal_numeral [of "[]" w] render_binary_numeral [of "[]" w]
  by auto

lemma conv_text_length: "conv_text d a = Some s \<Longrightarrow> length s \<le> arg_width a"
  using render_lengths by (cases a) (auto split: if_splits)

lemma kvsprintf_loop_length:
  "kvsprintf_loop result fmt args = Some (text, t) \<Longrightarrow>
     length text \<le> length result + length fmt + sum_list (map arg_width args)"
proof (induction fmt arbitrary: result args rule: conversions.induct)
  case (1 c d fmt)
  show ?case
  proof (cases "c = CHR ''%''")
    case True
    show ?thesis
    proof (cases "d \<in> set ''duxbsc''")
      case d: True
      with True 1(3) obtain a args' s where *: "args = a # args'" "conv_text d a = Some s"
        "kvsprintf_loop (result @ s) fmt args' = Some (text, t)"
        by (auto simp: kvsprintf_loop_conversion simp del: kvsprintf_loop.simps
            split: list.splits option.splits)
      from 1(1) [OF True d *(3)] conv_text_length [OF *(2)] *(1) show ?thesis by simp
    next
      case False
      with True 1(3) show ?thesis
        by (simp add: kvsprintf_loop_conversion del: kvsprintf_loop.simps)
    qed
  next
    case False
    with 1(3) have "kvsprintf_loop (result @ [c]) (d # fmt) args = Some (text, t)" by simp
    from 1(2) [OF False this] show ?thesis by simp
  qed
qed (auto split: if_splits)

text \<open>Formatting is compositional: a format and the arguments it consumes can be split off.\<close>

lemma kvsprintf_loop_append:
  assumes "kvsprintf_loop result f1 a1 = Some (text, True)" and "length a1 = conversions f1"
  shows "kvsprintf_loop result (f1 @ f2) (a1 @ a2) = kvsprintf_loop text f2 a2"
  using assms
proof (induction f1 arbitrary: result a1 rule: conversions.induct)
  case (1 c d fmt)
  show ?case
  proof (cases "c = CHR ''%''")
    case True
    with 1(3) have d: "d \<in> set ''duxbsc''"
      by (auto simp: kvsprintf_loop_conversion simp del: kvsprintf_loop.simps split: if_splits)
    with True 1(3) obtain a args' s where *: "a1 = a # args'" "conv_text d a = Some s"
      "kvsprintf_loop (result @ s) fmt args' = Some (text, True)"
      by (auto simp: kvsprintf_loop_conversion simp del: kvsprintf_loop.simps
          split: list.splits option.splits)
    have "length args' = conversions fmt" using 1(4) True d * by simp
    from 1(1) [OF True d *(3) this] True d * show ?thesis
      by (simp add: kvsprintf_loop_conversion del: kvsprintf_loop.simps set_simps)
  next
    case False
    with 1(3,4) have "kvsprintf_loop (result @ [c]) (d # fmt) a1 = Some (text, True)"
      "length a1 = conversions (d # fmt)" by simp_all
    from 1(2) [OF False this] False show ?thesis by simp
  qed
qed (auto split: if_splits)

lemma kprintf_terminated:
  assumes "kvsprintf fmt args = Some (text, True)"
    and "length fmt + sum_list (map arg_width args) < 1024"
  shows "kprintf fmt args = Some (takeWhile (\<lambda>c. c \<noteq> CHR 0x00) text)"
proof -
  have "length text \<le> length fmt + sum_list (map arg_width args)"
    using kvsprintf_loop_length [of "[]" fmt args "text" True] assms(1) by (simp add: kvsprintf_def)
  with assms show ?thesis by (simp add: kprintf_def kvprintf_def)
qed

section \<open>The properties\<close>

text \<open>
  The four integer renderers print numerals that read back as the number they were
  given: \<open>%d\<close> as the signed value for all of \<open>int32_t\<close>, \<open>-2147483648\<close> included;
  \<open>%u\<close>, \<open>%x\<close> and \<open>%b\<close> as the canonical numeral of the unsigned value in base 10, 16
  and 2, without leading zeros.
\<close>
theorem renderers_roundtrip:
  "parse_int (render_integer [] w) = sint w
   \<and> numeral_of 10 (unat w) (render_unsigned_integer [] w)
   \<and> numeral_of 16 (unat w) (render_hexadecimal [] w)
   \<and> numeral_of 2 (unat w) (render_binary [] w)"
  using render_integer_roundtrip [of "[]" w] render_unsigned_numeral [of "[]" w]
    render_hexadecimal_numeral [of "[]" w] render_binary_numeral [of "[]" w]
  by simp



text \<open>
  C15: The 1024-byte buffer of \<open>kvprintf\<close> is not overrun by a text that terminates and
  whose format and arguments are together shorter than the buffer, counting 32 for an
  integer: \<open>kprintf\<close> then hands over exactly the formatted text up to its first NUL.
\<close>
theorem kprintf_fits_buffer:
  assumes "kvsprintf fmt args = Some (text, True)"
    and "length fmt + sum_list (map arg_width args) < 1024"
  shows "kprintf fmt args = Some (takeWhile (\<lambda>c. c \<noteq> CHR 0x00) text)"
  by (rule kprintf_terminated [OF assms])

theorem kprintf_fits_buffer_witness: "kprintf ''id=%s!'' [Va_str ''k7''] = Some ''id=k7!''"
proof -
  have "kvsprintf ''id=%s!'' [Va_str ''k7''] = Some (''id=k7!'', True)"
    by (simp add: kvsprintf_def)
  from kprintf_fits_buffer [OF this] show ?thesis by simp
qed

end
