(* ===== verification/Kheap.thy ===== *)
theory Kheap
  imports Kstdlib Kstdio
begin

text \<open>
  The kernel heap (\<open>src/stdlib/kheap.c\<close>): a singly linked list of packed headers
  inside the memory it manages. The model keeps the headers in the flat memory byte
  by byte, so a header written over another one destroys it here as it does in the
  kernel. A call that never returns because a list loop does not end is \<open>None\<close>; a
  panic (\<open>kprintf\<close> of a message, then \<open>while (true)\<close>) is \<open>Some (Inl \<dots>)\<close>.
\<close>

section \<open>The packed header\<close>

definition KHEAP_MAGIC :: u16 where "KHEAP_MAGIC = 0x7ea4"
definition KHEAP_START :: addr where "KHEAP_START = 0xf000000"
definition KHEAP_END :: addr where "KHEAP_END = 0xfffffff"

text \<open>\<open>sizeof(HeapNode)\<close>: packed, so 2 + 4 + 4 + 1 bytes.\<close>

definition sizeof_HeapNode :: u32 where "sizeof_HeapNode = 11"

definition node_magic :: "mem \<Rightarrow> addr \<Rightarrow> u16" where
  "node_magic m a = rd16 m (a + 0)"
definition node_size :: "mem \<Rightarrow> addr \<Rightarrow> u32" where
  "node_size m a = rd32 m (a + 2)"
definition node_next :: "mem \<Rightarrow> addr \<Rightarrow> addr" where
  "node_next m a = rd32 m (a + 6)"
definition node_alloc_byte :: "mem \<Rightarrow> addr \<Rightarrow> u8" where
  "node_alloc_byte m a = rd8 m (a + 10)"
definition node_allocated :: "mem \<Rightarrow> addr \<Rightarrow> bool" where
  "node_allocated m a \<longleftrightarrow> node_alloc_byte m a \<noteq> 0"

definition put_magic :: "mem \<Rightarrow> addr \<Rightarrow> u16 \<Rightarrow> mem" where
  "put_magic m a = wr16 m (a + 0)"
definition put_size :: "mem \<Rightarrow> addr \<Rightarrow> u32 \<Rightarrow> mem" where
  "put_size m a = wr32 m (a + 2)"
definition put_next :: "mem \<Rightarrow> addr \<Rightarrow> addr \<Rightarrow> mem" where
  "put_next m a = wr32 m (a + 6)"
definition put_alloc_byte :: "mem \<Rightarrow> addr \<Rightarrow> u8 \<Rightarrow> mem" where
  "put_alloc_byte m a = wr8 m (a + 10)"
definition put_allocated :: "mem \<Rightarrow> addr \<Rightarrow> bool \<Rightarrow> mem" where
  "put_allocated m a b = put_alloc_byte m a (if b then 1 else 0)"

definition NODE_TO_CONTENTS :: "addr \<Rightarrow> addr" where
  "NODE_TO_CONTENTS ptr = ptr + sizeof_HeapNode"
definition CONTENTS_TO_NODE :: "addr \<Rightarrow> addr" where
  "CONTENTS_TO_NODE ptr = ptr - sizeof_HeapNode"

section \<open>State and results\<close>

text \<open>\<open>console\<close> is the text handed to the terminal by \<open>kprintf\<close>.\<close>

record kheap =
  ram :: mem
  root_node :: addr
  console :: string

datatype heap_panic =
    Heap_corrupted
  | Heap_out_of_space
  | Bad_realloc_pointer
  | Bad_free_pointer
  | Divide_fault \<comment> \<open>the processor's exception for \<open>% 0\<close>\<close>

fun panic_message :: "heap_panic \<Rightarrow> string" where
  "panic_message Heap_corrupted = ''Kernel heap was corrupted!\<newline>''"
| "panic_message Heap_out_of_space = ''Kernel heap ran out of space!\<newline>''"
| "panic_message Bad_realloc_pointer = ''Passed bad pointer to kheapRealloc!\<newline>''"
| "panic_message Bad_free_pointer = ''Passed bad pointer to kheapFree!\<newline>''"
| "panic_message Divide_fault = []"

type_synonym 'a kresult = "(heap_panic + 'a) option"

section \<open>Building blocks\<close>

definition kheapInit :: "kheap \<Rightarrow> kheap" where
  "kheapInit h =
     (let root = KHEAP_START;
          m1 = put_magic (ram h) root KHEAP_MAGIC;
          m2 = put_size m1 root ((KHEAP_END - KHEAP_START) - sizeof_HeapNode);
          m3 = put_next m2 root 0;
          m4 = put_allocated m3 root False
      in h\<lparr>ram := m4, root_node := root\<rparr>)"

definition createNode :: "mem \<Rightarrow> addr \<Rightarrow> u32 \<Rightarrow> addr \<Rightarrow> bool \<Rightarrow> mem" where
  "createNode m place sz next allocated =
     (let m1 = put_magic m place KHEAP_MAGIC;
          m2 = put_size m1 place sz;
          m3 = put_next m2 place next
      in put_allocated m3 place allocated)"

text \<open>The loop of \<open>compactHeap\<close>, from \<open>iter\<close>.\<close>

partial_function (option) compactHeap_loop :: "mem \<Rightarrow> addr \<Rightarrow> mem option" where
  "compactHeap_loop m iter =
     (if iter = 0 then Some m
      else if node_next m iter = 0 then Some m
      else if \<not> node_allocated m iter \<and> \<not> node_allocated m (node_next m iter) then
        (let m1 = put_size m iter
                    (node_size m iter + (sizeof_HeapNode + node_size m (node_next m iter)));
             m2 = put_next m1 iter (node_next m1 (node_next m1 iter))
         in compactHeap_loop m2 iter)
      else compactHeap_loop m (node_next m iter))"

definition compactHeap :: "kheap \<Rightarrow> kheap option" where
  "compactHeap h = map_option (\<lambda>m. h\<lparr>ram := m\<rparr>) (compactHeap_loop (ram h) (root_node h))"

definition consumeEmptySpace :: "mem \<Rightarrow> addr \<Rightarrow> mem" where
  "consumeEmptySpace m node =
     (let unaccounted_space = (node_next m node - node) + node_size m node
      in if unaccounted_space > sizeof_HeapNode then
           (let byte_ptr = NODE_TO_CONTENTS node + node_size m node;
                m1 = createNode m byte_ptr (unaccounted_space - sizeof_HeapNode)
                       (node_next m node) False
            in put_next m1 node byte_ptr)
         else put_size m node (node_size m node + unaccounted_space))"

section \<open>Allocation\<close>

datatype search = Found addr | Exhausted | Bad_magic addr

partial_function (option) find_free :: "mem \<Rightarrow> u32 \<Rightarrow> addr \<Rightarrow> search option" where
  "find_free m sz iter =
     (if iter = 0 then Some Exhausted
      else if node_magic m iter \<noteq> KHEAP_MAGIC then Some (Bad_magic iter)
      else if \<not> node_allocated m iter \<and> node_size m iter \<ge> sz then Some (Found iter)
      else find_free m sz (node_next m iter))"

text \<open>From a node that was found: claim it, account for the rest, compact.\<close>

definition claim_node :: "kheap \<Rightarrow> u32 \<Rightarrow> addr \<Rightarrow> (addr \<times> kheap) kresult" where
  "claim_node h sz iter =
     (let m1 = put_size (ram h) iter sz;
          m2 = put_allocated m1 iter True;
          m3 = consumeEmptySpace m2 iter
      in map_option (\<lambda>h'. Inr (NODE_TO_CONTENTS iter, h')) (compactHeap (h\<lparr>ram := m3\<rparr>)))"

text \<open>\<open>__kheapAlloc\<close>\<close>

function kheapAlloc_from :: "kheap \<Rightarrow> u32 \<Rightarrow> bool \<Rightarrow> (addr \<times> kheap) kresult" where
  "kheapAlloc_from h sz first_time =
     (case find_free (ram h) sz (root_node h) of
        None \<Rightarrow> None
      | Some (Bad_magic iter) \<Rightarrow>
          if \<not> first_time then Some (Inl Heap_corrupted)
          else kheapAlloc_from
                 (if node_magic (ram h) (root_node h) \<noteq> KHEAP_MAGIC then kheapInit h else h)
                 sz False
      | Some Exhausted \<Rightarrow> Some (Inl Heap_out_of_space)
      | Some (Found iter) \<Rightarrow> claim_node h sz iter)"
  by pat_completeness auto
termination
  by (relation "measure (\<lambda>(h, sz, first_time). if first_time then 1 else 0)") auto

declare kheapAlloc_from.simps [simp del]

definition kheapAlloc :: "kheap \<Rightarrow> u32 \<Rightarrow> (addr \<times> kheap) kresult" where
  "kheapAlloc h sz = kheapAlloc_from h sz True"

section \<open>Release and reallocation\<close>

definition kheapFree :: "kheap \<Rightarrow> addr \<Rightarrow> kheap kresult" where
  "kheapFree h ptr =
     (let node = CONTENTS_TO_NODE ptr
      in if node_magic (ram h) node \<noteq> KHEAP_MAGIC then Some (Inl Bad_free_pointer)
         else map_option Inr (compactHeap (h\<lparr>ram := put_allocated (ram h) node False\<rparr>)))"

text \<open>The loop that adds up the unallocated nodes behind the one being resized.\<close>

partial_function (option) trailing_space :: "mem \<Rightarrow> addr \<Rightarrow> u32 \<Rightarrow> (addr \<times> u32) option" where
  "trailing_space m iter possible_size =
     (if iter \<noteq> 0 \<and> \<not> node_allocated m iter
      then trailing_space m (node_next m iter)
             (possible_size + (sizeof_HeapNode + node_size m iter))
      else Some (iter, possible_size))"

text \<open>
  \<open>NODE_TO_CONTENTS(current_node) + sz\<close> in \<open>kheapRealloc\<close> is arithmetic on a
  \<open>HeapNode*\<close>: it advances by \<open>sz\<close> headers.
\<close>

definition node_ptr_plus :: "addr \<Rightarrow> u32 \<Rightarrow> addr" where
  "node_ptr_plus node n = NODE_TO_CONTENTS node + n * sizeof_HeapNode"

definition kheapRealloc :: "kheap \<Rightarrow> addr \<Rightarrow> u32 \<Rightarrow> (addr \<times> kheap) kresult" where
  "kheapRealloc h ptr sz =
     (if sz = 0 then
        map_option (map_sum id (\<lambda>h'. (0, h'))) (kheapFree h ptr)
      else
        let m = ram h; current_node = CONTENTS_TO_NODE ptr in
        if node_magic m current_node \<noteq> KHEAP_MAGIC then Some (Inl Bad_realloc_pointer)
        else if sz = node_size m current_node then Some (Inr (ptr, h))
        else if sz < node_size m current_node then
          (let size_delta = node_size m current_node - sz in
           if size_delta \<ge> sizeof_HeapNode + 1 then
             (let new_node = node_ptr_plus current_node sz;
                  m1 = createNode m new_node (size_delta - sizeof_HeapNode)
                         (node_next m current_node) False;
                  m2 = put_next m1 current_node new_node;
                  m3 = put_size m2 current_node sz
              in map_option (\<lambda>h'. Inr (NODE_TO_CONTENTS current_node, h'))
                   (compactHeap (h\<lparr>ram := m3\<rparr>)))
           else Some (Inr (NODE_TO_CONTENTS current_node, h)))
        else
          (case trailing_space m (node_next m current_node) 0 of
             None \<Rightarrow> None
           | Some (iter, possible_size) \<Rightarrow>
               if sz \<le> possible_size then
                 (let size_delta = possible_size - sz in
                  if size_delta \<ge> sizeof_HeapNode + 1 then
                    (let new_node = node_ptr_plus current_node sz;
                         m1 = createNode m new_node (size_delta - sizeof_HeapNode) iter False;
                         m2 = put_next m1 current_node new_node;
                         m3 = put_size m2 current_node sz
                     in map_option (\<lambda>h'. Inr (NODE_TO_CONTENTS current_node, h'))
                          (compactHeap (h\<lparr>ram := m3\<rparr>)))
                  else
                    (let m1 = put_next m current_node iter;
                         m2 = put_size m1 current_node possible_size
                     in Some (Inr (NODE_TO_CONTENTS current_node, h\<lparr>ram := m2\<rparr>))))
               else
                 (case kheapAlloc h sz of
                    None \<Rightarrow> None
                  | Some (Inl e) \<Rightarrow> Some (Inl e)
                  | Some (Inr (new_ptr, h1)) \<Rightarrow>
                      (let m1 = fst (kmemcpy (ram h1) new_ptr ptr
                                  (node_size (ram h1) current_node))
                       in map_option (map_sum id (\<lambda>h2. (new_ptr, h2)))
                            (kheapFree (h1\<lparr>ram := m1\<rparr>) ptr)))))"

section \<open>Aligned allocation\<close>

datatype aligned_search =
    Fits addr addr \<comment> \<open>the node \<open>iter\<close> and the place \<open>chosen\<close> for the new header\<close>
  | No_fit
  | Bad_header
  | Div_by_zero

partial_function (option) find_aligned ::
    "mem \<Rightarrow> u32 \<Rightarrow> u32 \<Rightarrow> addr \<Rightarrow> string \<Rightarrow> (aligned_search \<times> string) option" where
  "find_aligned m sz alignment iter out =
     (if iter = 0 then Some (No_fit, out)
      else if node_magic m iter \<noteq> KHEAP_MAGIC then Some (Bad_header, out)
      else if \<not> node_allocated m iter \<and> node_size m iter \<ge> sizeof_HeapNode + sz then
        (if alignment = 0 then Some (Div_by_zero, out)
         else
           let first_byte_addr = NODE_TO_CONTENTS iter;
               offset0 = alignment - (first_byte_addr mod alignment);
               offset = (if offset0 = alignment then 0 else offset0)
           in Option.bind
                (kprintf ''offset: %u, alignment: %u, first_byte_addr: %x\<newline>''
                  [Va_int offset, Va_int alignment, Va_int first_byte_addr])
                (\<lambda>line. if node_size m iter - offset < sizeof_HeapNode + sz
                   then find_aligned m sz alignment (node_next m iter) (out @ line)
                   else Some (Fits iter (first_byte_addr + offset), out @ line)))
      else find_aligned m sz alignment (node_next m iter) out)"

definition kheapAlignedAlloc :: "kheap \<Rightarrow> u32 \<Rightarrow> u32 \<Rightarrow> (addr \<times> kheap) kresult" where
  "kheapAlignedAlloc h sz alignment =
     (case find_aligned (ram h) sz alignment (root_node h) (console h) of
        None \<Rightarrow> None
      | Some (Bad_header, out) \<Rightarrow> Some (Inl Heap_corrupted)
      | Some (No_fit, out) \<Rightarrow> Some (Inl Heap_out_of_space)
      | Some (Div_by_zero, out) \<Rightarrow> Some (Inl Divide_fault)
      | Some (Fits preceding_node chosen, out) \<Rightarrow>
          (let m = ram h;
               m1 = createNode m chosen sz (node_next m preceding_node) True;
               m2 = put_size m1 preceding_node ((chosen - preceding_node) - sizeof_HeapNode);
               m3 = put_next m2 preceding_node chosen;
               m4 = consumeEmptySpace m3 chosen
           in map_option (\<lambda>h'. Inr (NODE_TO_CONTENTS chosen, h'))
                (compactHeap (h\<lparr>ram := m4, console := out\<rparr>))))"

section \<open>Dumping the list\<close>

partial_function (option) kheapDump_loop :: "mem \<Rightarrow> addr \<Rightarrow> string \<Rightarrow> string option" where
  "kheapDump_loop m iter out =
     (if iter = 0 then Some out
      else Option.bind
        (kprintf ''Node (%x):\<newline>  Magic: %x\<newline>  Next: %x\<newline>  Size: %u\<newline>  Alloc: %s\<newline>''
          [Va_int iter, Va_int (ucast (node_magic m iter)), Va_int (node_next m iter),
           Va_int (node_size m iter),
           Va_str (if node_allocated m iter then ''yes'' else ''no'')])
        (\<lambda>line. kheapDump_loop m (node_next m iter) (out @ line)))"

definition kheapDump :: "kheap \<Rightarrow> kheap option" where
  "kheapDump h =
     map_option (\<lambda>out. h\<lparr>console := out\<rparr>) (kheapDump_loop (ram h) (root_node h) (console h))"

end
