(* ===== verification/Kheap_Layout.thy ===== *)
theory Kheap_Layout
  imports Kheap
begin

text \<open>
  The heap list seen as a list of blocks. \<open>path\<close> relates the headers in memory to a
  list of blocks, \<open>laid_out\<close> says that each block ends where the next header starts,
  \<open>compact_blocks\<close> is the specification of the compactor, and \<open>compactHeap_refines\<close>
  shows that the compactor implements it.
\<close>

section \<open>The fields of a header\<close>

lemma node_field_eqs:
  "node_magic = (\<lambda>m a. rd16 m (a + 0))" "put_magic = (\<lambda>m a. wr16 m (a + 0))"
  "node_size = (\<lambda>m a. rd32 m (a + 2))" "put_size = (\<lambda>m a. wr32 m (a + 2))"
  "node_next = (\<lambda>m a. rd32 m (a + 6))" "put_next = (\<lambda>m a. wr32 m (a + 6))"
  "node_alloc_byte = (\<lambda>m a. rd8 m (a + 10))" "put_alloc_byte = (\<lambda>m a. wr8 m (a + 10))"
  by (simp_all only: fun_eq_iff node_magic_def put_magic_def node_size_def put_size_def
      node_next_def put_next_def node_alloc_byte_def put_alloc_byte_def simp_thms)

interpretation fmagic: packed_field 0 2 node_magic put_magic
  unfolding node_field_eqs by (rule packed_u16) simp

interpretation fsize: packed_field 2 4 node_size put_size
  unfolding node_field_eqs by (rule packed_u32) simp

interpretation fnext: packed_field 6 4 node_next put_next
  unfolding node_field_eqs by (rule packed_u32) simp

interpretation falloc: packed_field 10 1 node_alloc_byte put_alloc_byte
  unfolding node_field_eqs by (rule packed_u8) simp

text \<open>A write to one field leaves the others of the same header alone.\<close>

lemma node_put_other [simp]:
  "node_size (put_magic m a v1) a = node_size m a"
  "node_next (put_magic m a v1) a = node_next m a"
  "node_alloc_byte (put_magic m a v1) a = node_alloc_byte m a"
  "node_magic (put_size m a v2) a = node_magic m a"
  "node_next (put_size m a v2) a = node_next m a"
  "node_alloc_byte (put_size m a v2) a = node_alloc_byte m a"
  "node_magic (put_next m a v2) a = node_magic m a"
  "node_size (put_next m a v2) a = node_size m a"
  "node_alloc_byte (put_next m a v2) a = node_alloc_byte m a"
  "node_magic (put_alloc_byte m a v3) a = node_magic m a"
  "node_size (put_alloc_byte m a v3) a = node_size m a"
  "node_next (put_alloc_byte m a v3) a = node_next m a"
  by (rule fsize.get_frame_field [OF fmagic.put_agree] fnext.get_frame_field [OF fmagic.put_agree]
      falloc.get_frame_field [OF fmagic.put_agree] fmagic.get_frame_field [OF fsize.put_agree]
      fnext.get_frame_field [OF fsize.put_agree] falloc.get_frame_field [OF fsize.put_agree]
      fmagic.get_frame_field [OF fnext.put_agree] fsize.get_frame_field [OF fnext.put_agree]
      falloc.get_frame_field [OF fnext.put_agree] fmagic.get_frame_field [OF falloc.put_agree]
      fsize.get_frame_field [OF falloc.put_agree] fnext.get_frame_field [OF falloc.put_agree]; simp)+

lemma node_put_same [simp]:
  "node_magic (put_magic m a v1) a = v1"
  "node_size (put_size m a v2) a = v2"
  "node_next (put_next m a v2) a = v2"
  "node_alloc_byte (put_alloc_byte m a v3) a = v3"
  by (fact fmagic.get_put fsize.get_put fnext.get_put falloc.get_put)+

lemma node_put_allocated [simp]:
  "node_magic (put_allocated m a b) a = node_magic m a"
  "node_size (put_allocated m a b) a = node_size m a"
  "node_next (put_allocated m a b) a = node_next m a"
  "node_allocated (put_allocated m a b) a = b"
  "node_allocated (put_magic m a v1) a = node_allocated m a"
  "node_allocated (put_size m a v2) a = node_allocated m a"
  "node_allocated (put_next m a v2) a = node_allocated m a"
  by (simp_all add: put_allocated_def node_allocated_def)

text \<open>Every write to a header stays in its 11 bytes.\<close>

definition header :: "addr \<Rightarrow> addr set" where
  "header a = span a 11"

lemma put_agree_header [frame]:
  "agree_off (header a) m (put_magic m a v1)"
  "agree_off (header a) m (put_size m a v2)"
  "agree_off (header a) m (put_next m a v2)"
  "agree_off (header a) m (put_alloc_byte m a v3)"
  "agree_off (header a) m (put_allocated m a b)"
  unfolding header_def put_allocated_def
  by (rule fmagic.put_agree_struct fsize.put_agree_struct fnext.put_agree_struct
      falloc.put_agree_struct; simp)+

lemma createNode_agree [frame]: "agree_off (header a) m (createNode m a s n b)"
  unfolding createNode_def Let_def
  by (rule agree_off_trans_same [OF put_agree_header(1) agree_off_trans_same
        [OF put_agree_header(2) agree_off_trans_same [OF put_agree_header(3) put_agree_header(5)]]])

lemma createNode_fields [simp]:
  "node_magic (createNode m a s n b) a = KHEAP_MAGIC"
  "node_size (createNode m a s n b) a = s"
  "node_next (createNode m a s n b) a = n"
  "node_allocated (createNode m a s n b) a = b"
  by (simp_all add: createNode_def Let_def)

text \<open>A header that a change does not touch reads the same.\<close>

lemma node_frame:
  assumes "agree_off S m m'" and "S \<inter> header a = {}"
  shows "node_magic m' a = node_magic m a" "node_size m' a = node_size m a"
    "node_next m' a = node_next m a" "node_allocated m' a = node_allocated m a"
  using fmagic.get_frame_struct [OF assms [unfolded header_def]]
    fsize.get_frame_struct [OF assms [unfolded header_def]]
    fnext.get_frame_struct [OF assms [unfolded header_def]]
    falloc.get_frame_struct [OF assms [unfolded header_def]]
  by (simp_all add: node_allocated_def)

lemma headers_apart:
  assumes "unat a + 11 \<le> unat b" and "unat b + 11 \<le> 4294967296"
  shows "header a \<inter> header b = {}" and "header b \<inter> header a = {}"
  using spans_apart [OF assms] by (auto simp: header_def)

section \<open>Blocks\<close>

record block =
  b_addr :: addr
  b_size :: u32
  b_alloc :: bool

definition node_at :: "mem \<Rightarrow> block \<Rightarrow> bool" where
  "node_at m b \<longleftrightarrow> b_addr b \<noteq> 0 \<and> node_magic m (b_addr b) = KHEAP_MAGIC
     \<and> node_size m (b_addr b) = b_size b \<and> node_allocated m (b_addr b) = b_alloc b"

primrec path :: "mem \<Rightarrow> addr \<Rightarrow> block list \<Rightarrow> addr \<Rightarrow> bool" where
  "path m p [] q \<longleftrightarrow> p = q"
| "path m p (b # bs) q \<longleftrightarrow> b_addr b = p \<and> node_at m b \<and> path m (node_next m p) bs q"

definition headers :: "block list \<Rightarrow> addr set" where
  "headers bs = (\<Union>b \<in> set bs. header (b_addr b))"

lemma headers_simps [simp]:
  "headers [] = {}" "headers (b # bs) = header (b_addr b) \<union> headers bs"
  "headers (as @ bs) = headers as \<union> headers bs"
  by (auto simp: headers_def)

lemma path_append [simp]:
  "path m p (as @ bs) q \<longleftrightarrow> (\<exists>r. path m p as r \<and> path m r bs q)"
  by (induction as arbitrary: p) auto

lemma node_at_frame:
  "agree_off S m m' \<Longrightarrow> S \<inter> header (b_addr b) = {} \<Longrightarrow> node_at m' b = node_at m b"
  by (simp add: node_at_def node_frame)

lemma path_frame:
  "agree_off S m m' \<Longrightarrow> S \<inter> headers bs = {} \<Longrightarrow> path m' p bs q = path m p bs q"
proof (induction bs arbitrary: p)
  case (Cons b bs)
  from Cons.prems have "S \<inter> header (b_addr b) = {}" "S \<inter> headers bs = {}" by auto
  with Cons show ?case
    using node_frame(3) [of S m m' "b_addr b"] by (auto simp: node_at_frame)
qed simp

text \<open>
  \<open>laid_out\<close>: each block but the last is followed at once by the next header; the last
  header fits below the end of the address space. The size of the last block is free:
  see \<open>kheapAlloc\<close>, which leaves it a size that runs past the heap.
\<close>

definition block_end :: "block \<Rightarrow> nat" where
  "block_end b = unat (b_addr b) + 11 + unat (b_size b)"

fun laid_out :: "block list \<Rightarrow> bool" where
  "laid_out [] \<longleftrightarrow> True"
| "laid_out [b] \<longleftrightarrow> unat (b_addr b) + 11 \<le> 4294967296"
| "laid_out (a # b # bs) \<longleftrightarrow> block_end a = unat (b_addr b) \<and> laid_out (b # bs)"

lemma laid_out_tl: "laid_out (b # bs) \<Longrightarrow> laid_out bs"
  by (cases bs) auto

lemma laid_out_hd: "laid_out (b # bs) \<Longrightarrow> unat (b_addr b) + 11 \<le> 4294967296"
proof (cases bs)
  case (Cons c cs)
  assume "laid_out (b # bs)"
  with Cons show ?thesis using unat_lt_32 [of "b_addr c"] by (simp add: block_end_def)
qed simp

lemma laid_out_above:
  "laid_out (b # bs) \<Longrightarrow> c \<in> set bs \<Longrightarrow> block_end b \<le> unat (b_addr c)"
proof (induction bs arbitrary: b)
  case (Cons d bs)
  then show ?case by (fastforce simp: block_end_def dest: Cons.IH)
qed simp

lemma laid_out_header_disjoint:
  assumes "laid_out (b # bs)"
  shows "header (b_addr b) \<inter> headers bs = {}"
proof -
  have "header (b_addr b) \<inter> header (b_addr c) = {}" if c: "c \<in> set bs" for c
  proof (rule headers_apart(1))
    show "unat (b_addr b) + 11 \<le> unat (b_addr c)"
      using laid_out_above [OF assms c] by (simp add: block_end_def)
    obtain ys zs where "bs = ys @ c # zs" using c by (auto simp: in_set_conv_decomp)
    with assms have "laid_out (c # zs)"
      by (induction ys arbitrary: b bs) (auto dest: laid_out_tl)
    then show "unat (b_addr c) + 11 \<le> 4294967296" by (rule laid_out_hd)
  qed
  then show ?thesis by (auto simp: headers_def)
qed

section \<open>The compactor\<close>

text \<open>Specification: adjacent unallocated blocks become one block that covers both.\<close>

fun compact_blocks :: "block list \<Rightarrow> block list" where
  "compact_blocks (a # b # bs) =
     (if \<not> b_alloc a \<and> \<not> b_alloc b
      then compact_blocks (a\<lparr>b_size := b_size a + (sizeof_HeapNode + b_size b)\<rparr> # bs)
      else a # compact_blocks (b # bs))"
| "compact_blocks bs = bs"

fun no_adjacent_free :: "block list \<Rightarrow> bool" where
  "no_adjacent_free (a # b # bs) \<longleftrightarrow> (b_alloc a \<or> b_alloc b) \<and> no_adjacent_free (b # bs)"
| "no_adjacent_free bs \<longleftrightarrow> True"

definition allocated_blocks :: "block list \<Rightarrow> block list" where
  "allocated_blocks bs = filter b_alloc bs"

lemma compact_blocks_hd:
  "bs \<noteq> [] \<Longrightarrow> compact_blocks bs \<noteq> [] \<and> b_addr (hd (compact_blocks bs)) = b_addr (hd bs)
     \<and> b_alloc (hd (compact_blocks bs)) = b_alloc (hd bs)"
  by (induction bs rule: compact_blocks.induct) auto

lemma compact_blocks_no_adjacent: "no_adjacent_free (compact_blocks bs)"
proof (induction bs rule: compact_blocks.induct)
  case (1 a b bs)
  then show ?case
    using compact_blocks_hd [of "b # bs"] by (cases "compact_blocks (b # bs)") auto
qed auto

lemma compact_blocks_fixed: "no_adjacent_free bs \<Longrightarrow> compact_blocks bs = bs"
  by (induction bs rule: compact_blocks.induct) auto

lemma compact_blocks_idem: "compact_blocks (compact_blocks bs) = compact_blocks bs"
  by (simp add: compact_blocks_fixed compact_blocks_no_adjacent)

lemma compact_blocks_allocated:
  "allocated_blocks (compact_blocks bs) = allocated_blocks bs"
  by (induction bs rule: compact_blocks.induct) (auto simp: allocated_blocks_def)

lemma sizeof_HeapNode_unat [layout]: "unat sizeof_HeapNode = 11"
  by (simp add: sizeof_HeapNode_def)

text \<open>Merging keeps the layout, since the merged sizes add up without wrapping.\<close>

lemma laid_out_merge:
  assumes "laid_out (a # b # bs)"
  shows "laid_out (a\<lparr>b_size := b_size a + (sizeof_HeapNode + b_size b)\<rparr> # bs)"
proof (cases bs)
  case Nil
  with assms laid_out_hd [of a "b # bs"] show ?thesis by simp
next
  case (Cons c cs)
  have e: "unat (b_addr a) + 11 + unat (b_size a) = unat (b_addr b)"
    "unat (b_addr b) + 11 + unat (b_size b) = unat (b_addr c)"
    using assms Cons by (simp_all add: block_end_def)
  then have "unat (b_size a) + (11 + unat (b_size b)) < 4294967296"
    using unat_lt_32 [of "b_addr c"] by linarith
  then have "unat (b_size a + (sizeof_HeapNode + b_size b)) = unat (b_size a) + (11 + unat (b_size b))"
    by (simp add: unat_add_nowrap layout)
  with e assms Cons show ?thesis by (simp add: block_end_def)
qed

lemma compact_blocks_laid_out: "laid_out bs \<Longrightarrow> laid_out (compact_blocks bs)"
proof (induction bs rule: compact_blocks.induct)
  case (1 a b bs)
  show ?case
  proof (cases "\<not> b_alloc a \<and> \<not> b_alloc b")
    case True
    with 1 show ?thesis using laid_out_merge by simp
  next
    case False
    with 1 have "laid_out (compact_blocks (b # bs))" by simp
    with False 1(3) compact_blocks_hd [of "b # bs"] show ?thesis
      by (cases "compact_blocks (b # bs)") auto
  qed
qed auto

lemma compact_blocks_headers: "headers (compact_blocks bs) \<subseteq> headers bs"
  by (induction bs rule: compact_blocks.induct) auto

text \<open>
  The compactor implements the specification: on a list that ends at the null pointer
  it returns, the list in memory becomes the compacted one, and only bytes of the
  headers of the list change.
\<close>

lemma compactHeap_loop_refines:
  "path m p bs 0 \<Longrightarrow> laid_out bs \<Longrightarrow>
     \<exists>m'. compactHeap_loop m p = Some m' \<and> path m' p (compact_blocks bs) 0
        \<and> agree_off (headers bs) m m'"
proof (induction bs arbitrary: m p rule: compact_blocks.induct)
  case (1 a b bs)
  let ?n = "node_next m p"
  from "1.prems"(1) have a: "b_addr a = p" "node_at m a" and b: "b_addr b = ?n" "node_at m b"
    and rest: "path m (node_next m ?n) bs 0"
    by auto
  have nz: "p \<noteq> 0" "?n \<noteq> 0" using a b by (auto simp: node_at_def)
  have dab: "header p \<inter> headers (b # bs) = {}"
    using laid_out_header_disjoint [OF "1.prems"(2)] a(1) by simp
  show ?case
  proof (cases "\<not> b_alloc a \<and> \<not> b_alloc b")
    case True
    define m1 where "m1 = put_size m p (node_size m p + (sizeof_HeapNode + node_size m ?n))"
    define m2 where "m2 = put_next m1 p (node_next m1 (node_next m1 p))"
    let ?a = "a\<lparr>b_size := b_size a + (sizeof_HeapNode + b_size b)\<rparr>"
    have ag1: "agree_off (header p) m m1" by (simp add: m1_def frame)
    have "agree_off (header p) m1 m2" by (simp add: m2_def frame)
    with ag1 have ag2: "agree_off (header p) m m2" by (rule agree_off_trans_same)
    have "node_next m1 ?n = node_next m ?n"
      using node_frame(3) [OF ag1, of ?n] dab b(1) by (simp add: Int_Un_distrib)
    then have n2: "node_next m2 p = node_next m ?n" by (simp add: m2_def m1_def)
    have "node_at m2 ?a"
      using a b by (simp add: node_at_def m2_def m1_def)
    moreover have "path m2 (node_next m ?n) bs 0"
      using path_frame [OF ag2, of bs] dab rest by auto
    ultimately have "path m2 p (?a # bs) 0" using a(1) n2 by simp
    from "1.IH"(1) [OF True this laid_out_merge [OF "1.prems"(2)]] obtain m' where
      m': "compactHeap_loop m2 p = Some m'" "path m' p (compact_blocks (?a # bs)) 0"
        "agree_off (headers (?a # bs)) m2 m'" by blast
    have "compactHeap_loop m p = compactHeap_loop m2 p"
      using True nz a b by (subst compactHeap_loop.simps) (simp add: node_at_def m2_def m1_def Let_def)
    moreover have "agree_off (headers (a # b # bs)) m m'"
      by (rule agree_off_mono [OF agree_off_trans [OF ag2 m'(3)]]) (use a(1) in auto)
    ultimately show ?thesis using m' True by auto
  next
    case False
    have "path m ?n (b # bs) 0" using "1.prems"(1) by simp
    from "1.IH"(2) [OF False this laid_out_tl [OF "1.prems"(2)]] obtain m' where
      m': "compactHeap_loop m ?n = Some m'" "path m' ?n (compact_blocks (b # bs)) 0"
        "agree_off (headers (b # bs)) m m'" by blast
    have fr: "node_at m' a" "node_next m' p = ?n"
      using node_at_frame [OF m'(3)] node_frame(3) [OF m'(3)] a dab by auto
    have "compactHeap_loop m p = compactHeap_loop m ?n"
      using False nz a b by (subst compactHeap_loop.simps) (auto simp: node_at_def)
    moreover have "agree_off (headers (a # b # bs)) m m'"
      using m'(3) by (rule agree_off_mono) auto
    moreover have "compact_blocks (a # b # bs) = a # compact_blocks (b # bs)"
      using False by auto
    ultimately show ?thesis using m' fr a(1) by (auto simp del: compact_blocks.simps)
  qed
next
  case "2_1"
  then show ?case by (auto simp: compactHeap_loop.simps)
qed (subst compactHeap_loop.simps, auto)

text \<open>
  On a list without adjacent unallocated blocks the compactor changes nothing, whatever
  the layout; and it walks over such a prefix of any list.
\<close>

lemma compactHeap_loop_skip:
  "path m p as q \<Longrightarrow> q \<noteq> 0 \<Longrightarrow> no_adjacent_free as \<Longrightarrow>
     as = [] \<or> b_alloc (last as) \<or> node_allocated m q \<Longrightarrow>
     compactHeap_loop m p = compactHeap_loop m q"
proof (induction as arbitrary: p)
  case (Cons a as)
  have p: "p \<noteq> 0" "node_allocated m p = b_alloc a" and tl: "path m (node_next m p) as q"
    using Cons.prems(1) by (auto simp: node_at_def)
  have nz: "node_next m p \<noteq> 0"
    using tl Cons.prems(2) by (cases as) (auto simp: node_at_def)
  have "b_alloc a \<or> node_allocated m (node_next m p)"
    using Cons.prems(3,4) tl by (cases as) (auto simp: node_at_def)
  then have "compactHeap_loop m p = compactHeap_loop m (node_next m p)"
    using p nz by (subst compactHeap_loop.simps) auto
  also have "\<dots> = compactHeap_loop m q"
    using Cons tl by (cases as) auto
  finally show ?case .
qed simp

lemma compactHeap_loop_fixed:
  "path m p bs 0 \<Longrightarrow> no_adjacent_free bs \<Longrightarrow> compactHeap_loop m p = Some m"
proof (cases bs rule: rev_cases)
  case (snoc as b)
  assume "path m p bs 0" and naf: "no_adjacent_free bs"
  then obtain q where q: "path m p as q" "q \<noteq> 0" "node_allocated m q = b_alloc b"
      "node_next m q = 0"
    using snoc by (auto simp: node_at_def)
  have "no_adjacent_free (as @ [b]) \<Longrightarrow>
      no_adjacent_free as \<and> (as = [] \<or> b_alloc (last as) \<or> b_alloc b)" for as
    by (induction as rule: no_adjacent_free.induct) auto
  with naf snoc q have "compactHeap_loop m p = compactHeap_loop m q"
    by (intro compactHeap_loop_skip [OF q(1,2)]) auto
  with q show ?thesis by (simp add: compactHeap_loop.simps)
qed (simp add: compactHeap_loop.simps)

text \<open>
  An unallocated node that is its own successor is merged with itself for ever.
\<close>

definition self_free :: "mem \<Rightarrow> addr \<Rightarrow> bool" where
  "self_free m iter \<longleftrightarrow> iter \<noteq> 0 \<and> node_next m iter = iter \<and> \<not> node_allocated m iter"

lemma self_free_step:
  "self_free m iter \<Longrightarrow> self_free (put_next (put_size m iter s) iter iter) iter"
  by (simp add: self_free_def)

lemma compactHeap_loop_self:
  assumes "self_free m iter"
  shows "compactHeap_loop m iter = None"
proof (rule ccontr)
  assume "compactHeap_loop m iter \<noteq> None"
  then obtain r where ret: "compactHeap_loop m iter = Some r" by blast
  have "\<not> self_free m iter"
  proof (rule compactHeap_loop.raw_induct [where P = "\<lambda>m iter r. \<not> self_free m iter", OF _ ret])
    fix f m iter r
    assume IH: "\<And>m iter r. f m iter = Some r \<Longrightarrow> \<not> self_free m iter"
      and eq: "(if iter = 0 then Some m
        else if node_next m iter = 0 then Some m
        else if \<not> node_allocated m iter \<and> \<not> node_allocated m (node_next m iter) then
          (let m1 = put_size m iter
                      (node_size m iter + (sizeof_HeapNode + node_size m (node_next m iter)));
               m2 = put_next m1 iter (node_next m1 (node_next m1 iter))
           in f m2 iter)
        else f m (node_next m iter)) = Some r"
    show "\<not> self_free m iter"
    proof
      assume sf: "self_free m iter"
      with eq obtain s where "f (put_next (put_size m iter s) iter iter) iter = Some r"
        by (auto simp: self_free_def Let_def)
      with IH self_free_step [OF sf] show False by blast
    qed
  qed
  with assms show False by simp
qed

section \<open>Contents\<close>

definition contents :: "block \<Rightarrow> addr set" where
  "contents b = span (NODE_TO_CONTENTS (b_addr b)) (unat (b_size b))"

lemma in_contents:
  assumes "block_end b \<le> 4294967296"
  shows "x \<in> contents b \<longleftrightarrow> unat (b_addr b) + 11 \<le> unat x \<and> unat x < block_end b"
proof (cases "b_size b = 0")
  case False
  with assms have "unat (b_addr b) + 11 < 4294967296"
    by (simp add: block_end_def unat_gt_0 [symmetric])
  then have "unat (NODE_TO_CONTENTS (b_addr b)) = unat (b_addr b) + 11"
    by (simp add: NODE_TO_CONTENTS_def unat_add_nowrap layout)
  with assms show ?thesis by (auto simp: contents_def span_nowrap block_end_def)
qed (auto simp: contents_def block_end_def)

lemma in_header:
  "unat a + 11 \<le> 4294967296 \<Longrightarrow> x \<in> header a \<longleftrightarrow> unat a \<le> unat x \<and> unat x < unat a + 11"
  by (simp add: header_def span_nowrap)

end
