(* ===== verification/Kheap_Correct.thy ===== *)
theory Kheap_Correct
  imports Kheap_Layout
begin

text \<open>
  What the heap operations do to the list of blocks: initialisation, release, the
  first-fit search and its failure, allocation from the end of the heap, and the two
  ways in which reuse of a released block goes wrong.
\<close>

section \<open>The heap list\<close>

definition heap_list :: "kheap \<Rightarrow> block list \<Rightarrow> bool" where
  "heap_list h bs \<longleftrightarrow> path (ram h) (root_node h) bs 0 \<and> laid_out bs"

definition initial_block :: block where
  "initial_block = \<lparr>b_addr = KHEAP_START,
     b_size = (KHEAP_END - KHEAP_START) - sizeof_HeapNode, b_alloc = False\<rparr>"

lemma kheapInit_heap_list: "heap_list (kheapInit h) [initial_block]"
  by (simp add: heap_list_def kheapInit_def Let_def initial_block_def node_at_def KHEAP_START_def)

lemma compactHeap_refines:
  assumes "heap_list h bs"
  obtains h' where "compactHeap h = Some h'" "heap_list h' (compact_blocks bs)"
    "agree_off (headers bs) (ram h) (ram h')" "root_node h' = root_node h" "console h' = console h"
proof -
  from assms obtain m' where m': "compactHeap_loop (ram h) (root_node h) = Some m'"
    "path m' (root_node h) (compact_blocks bs) 0" "agree_off (headers bs) (ram h) m'"
    using compactHeap_loop_refines unfolding heap_list_def by blast
  show thesis
    by (rule that [of "h\<lparr>ram := m'\<rparr>"])
      (use m' assms in \<open>simp_all add: compactHeap_def heap_list_def compact_blocks_laid_out\<close>)
qed

lemma compactHeap_fixed:
  "path (ram h) (root_node h) bs 0 \<Longrightarrow> no_adjacent_free bs \<Longrightarrow> compactHeap h = Some h"
  by (simp add: compactHeap_def compactHeap_loop_fixed)

text \<open>Splitting a laid-out list in the middle.\<close>

lemma laid_out_append: "laid_out (as @ bs) \<Longrightarrow> laid_out as \<and> laid_out bs"
proof (induction as)
  case (Cons a as)
  then show ?case
    using laid_out_hd [of a "as @ bs"] by (cases as) (auto dest: laid_out_tl)
qed simp

lemma laid_out_below:
  assumes "laid_out (as @ b # bs)" and "a \<in> set as"
  shows "block_end a \<le> unat (b_addr b)"
proof -
  obtain ys zs where "as = ys @ a # zs" using assms(2) by (auto simp: in_set_conv_decomp)
  with assms(1) have "laid_out (a # zs @ b # bs)"
    using laid_out_append [of ys "a # zs @ b # bs"] by simp
  then show ?thesis by (rule laid_out_above) simp
qed

lemma laid_out_middle_disjoint:
  assumes "laid_out (as @ b # bs)"
  shows "headers as \<inter> headers (b # bs) = {}"
  using assms
proof (induction as)
  case (Cons a as)
  then have "headers as \<inter> headers (b # bs) = {}" by (auto dest: laid_out_tl)
  moreover have "header (b_addr a) \<inter> headers (as @ b # bs) = {}"
    using laid_out_header_disjoint [of a "as @ b # bs"] Cons.prems by simp
  ultimately show ?case by auto
qed simp

lemma laid_out_set_alloc:
  "laid_out (as @ b # bs) \<Longrightarrow> laid_out (as @ b\<lparr>b_alloc := v\<rparr> # bs)"
proof (induction as)
  case Nil
  then show ?case by (cases bs) (auto simp: block_end_def)
next
  case (Cons a as)
  then show ?case by (cases as) (auto simp: block_end_def)
qed

text \<open>Rewriting one header of a list that is laid out.\<close>

lemma path_update:
  assumes "path m p (as @ b # bs) q" and "laid_out (as @ b # bs)"
    and "agree_off (header (b_addr b)) m m'" and "node_at m' b'"
    and "b_addr b' = b_addr b" and "node_next m' (b_addr b) = node_next m (b_addr b)"
  shows "path m' p (as @ b' # bs) q"
proof -
  have dis: "header (b_addr b) \<inter> headers as = {}" "header (b_addr b) \<inter> headers bs = {}"
    using laid_out_middle_disjoint [OF assms(2)] laid_out_append [OF assms(2)]
      laid_out_header_disjoint [of b bs] by auto
  from assms(1) have "path m p as (b_addr b)" "path m (node_next m (b_addr b)) bs q" by auto
  then have "path m' p as (b_addr b)" "path m' (node_next m (b_addr b)) bs q"
    using path_frame [OF assms(3) dis(1)] path_frame [OF assms(3) dis(2)] by auto
  with assms(4-6) show ?thesis by auto
qed

section \<open>Release\<close>

lemma CONTENTS_TO_NODE_inverse [simp]: "CONTENTS_TO_NODE (NODE_TO_CONTENTS a) = a"
  by (simp add: CONTENTS_TO_NODE_def NODE_TO_CONTENTS_def)

lemma kheapFree_block:
  assumes "heap_list h (as @ b # bs)"
  obtains h' where "kheapFree h (NODE_TO_CONTENTS (b_addr b)) = Some (Inr h')"
    "heap_list h' (compact_blocks (as @ b\<lparr>b_alloc := False\<rparr> # bs))"
    "agree_off (headers (as @ b # bs)) (ram h) (ram h')"
    "root_node h' = root_node h" "console h' = console h"
proof -
  let ?b = "b\<lparr>b_alloc := False\<rparr>"
  let ?h = "h\<lparr>ram := put_allocated (ram h) (b_addr b) False\<rparr>"
  have nb: "node_at (ram h) b" using assms by (auto simp: heap_list_def)
  have ag: "agree_off (header (b_addr b)) (ram h) (ram ?h)" by (simp add: frame)
  have "path (ram ?h) (root_node h) (as @ ?b # bs) 0"
  proof (rule path_update [where b = b])
    show "path (ram h) (root_node h) (as @ b # bs) 0" "laid_out (as @ b # bs)"
      using assms by (simp_all add: heap_list_def)
    show "node_at (ram ?h) ?b" using nb by (simp add: node_at_def)
  qed (use ag in simp_all)
  then have "heap_list ?h (as @ ?b # bs)"
    using assms laid_out_set_alloc by (auto simp: heap_list_def)
  then obtain h' where h': "compactHeap ?h = Some h'"
    "heap_list h' (compact_blocks (as @ ?b # bs))"
    "agree_off (headers (as @ ?b # bs)) (ram ?h) (ram h')"
    "root_node h' = root_node h" "console h' = console h"
    by (rule compactHeap_refines) simp
  have "agree_off (headers (as @ b # bs)) (ram h) (ram h')"
    by (rule agree_off_mono [OF agree_off_trans [OF ag h'(3)]]) auto
  with h' nb show thesis
    by (intro that [of h']) (auto simp: kheapFree_def node_at_def)
qed

lemma allocated_after_release:
  "allocated_blocks (as @ b\<lparr>b_alloc := False\<rparr> # bs) = allocated_blocks as @ allocated_blocks bs"
  by (simp add: allocated_blocks_def)

section \<open>First fit\<close>

definition fits_request :: "u32 \<Rightarrow> block \<Rightarrow> bool" where
  "fits_request n b \<longleftrightarrow> \<not> b_alloc b \<and> b_size b \<ge> n"

lemma find_free_path:
  "path m p bs 0 \<Longrightarrow> find_free m n p =
     Some (case find (fits_request n) bs of Some b \<Rightarrow> Found (b_addr b) | None \<Rightarrow> Exhausted)"
proof (induction bs arbitrary: p)
  case (Cons b bs)
  then have *: "p \<noteq> 0" "node_magic m p = KHEAP_MAGIC" "node_size m p = b_size b"
    "node_allocated m p = b_alloc b" "b_addr b = p" "path m (node_next m p) bs 0"
    by (auto simp: node_at_def)
  show ?case
  proof (cases "fits_request n b")
    case True
    with * show ?thesis by (subst find_free.simps) (simp add: fits_request_def)
  next
    case False
    have "find_free m n p = find_free m n (node_next m p)"
      using * False by (subst find_free.simps) (auto simp: fits_request_def)
    with Cons.IH [OF *(6)] False show ?thesis by simp
  qed
qed (simp add: find_free.simps)

lemma kheapAlloc_found:
  assumes "heap_list h (as @ b # bs)" and "\<forall>a \<in> set as. \<not> fits_request n a" and "fits_request n b"
  shows "kheapAlloc h n = claim_node h n (b_addr b)"
proof -
  have "find (fits_request n) (as @ b # bs) = Some b"
    using assms(2,3) by (induction as) auto
  then have "find_free (ram h) n (root_node h) = Some (Found (b_addr b))"
    using assms(1) find_free_path [of "ram h" "root_node h" "as @ b # bs" n]
    by (simp add: heap_list_def)
  then show ?thesis by (simp add: kheapAlloc_def kheapAlloc_from.simps)
qed

lemma kheapAlloc_exhausted:
  assumes "heap_list h bs" and "\<forall>b \<in> set bs. \<not> fits_request n b"
  shows "kheapAlloc h n = Some (Inl Heap_out_of_space)"
proof -
  have "find (fits_request n) bs = None" using assms(2) by (simp add: find_None_iff)
  then have "find_free (ram h) n (root_node h) = Some Exhausted"
    using assms(1) find_free_path [of "ram h" "root_node h" bs n] by (simp add: heap_list_def)
  then show ?thesis by (simp add: kheapAlloc_def kheapAlloc_from.simps)
qed

text \<open>What claiming a node writes, before the compactor runs.\<close>

definition claimed_ram :: "mem \<Rightarrow> u32 \<Rightarrow> addr \<Rightarrow> mem" where
  "claimed_ram m n iter = consumeEmptySpace (put_allocated (put_size m iter n) iter True) iter"

lemma claim_node_eq:
  "claim_node h n iter = map_option (\<lambda>h'. Inr (NODE_TO_CONTENTS iter, h'))
     (compactHeap (h\<lparr>ram := claimed_ram (ram h) n iter\<rparr>))"
  by (simp add: claim_node_def claimed_ram_def Let_def)

lemma claimed_ram_split:
  assumes "(node_next m a - a) + n > sizeof_HeapNode"
    and "header a \<inter> header (a + sizeof_HeapNode + n) = {}"
  defines "c \<equiv> a + sizeof_HeapNode + n"
  shows "node_magic (claimed_ram m n a) a = node_magic m a"
    "node_size (claimed_ram m n a) a = n"
    "node_next (claimed_ram m n a) a = c"
    "node_allocated (claimed_ram m n a) a"
    "node_magic (claimed_ram m n a) c = KHEAP_MAGIC"
    "node_size (claimed_ram m n a) c = (node_next m a - a) + n - sizeof_HeapNode"
    "node_next (claimed_ram m n a) c = node_next m a"
    "\<not> node_allocated (claimed_ram m n a) c"
    "agree_off (header a \<union> header c) m (claimed_ram m n a)"
proof -
  let ?m2 = "put_allocated (put_size m a n) a True"
  let ?m3 = "createNode ?m2 c ((node_next m a - a) + n - sizeof_HeapNode) (node_next m a) False"
  have eq: "claimed_ram m n a = put_next ?m3 a c"
    using assms(1)
    by (simp add: claimed_ram_def consumeEmptySpace_def Let_def NODE_TO_CONTENTS_def c_def)
  have ag3: "agree_off (header c) ?m2 ?m3" by (simp add: frame)
  have ag4: "agree_off (header a) ?m3 (claimed_ram m n a)" by (simp add: eq frame)
  have dis: "header c \<inter> header a = {}" "header a \<inter> header c = {}"
    using assms(2) by (auto simp: c_def)
  note at_a = node_frame [OF ag3 dis(1)] and at_c = node_frame [OF ag4 dis(2)]
  show "node_magic (claimed_ram m n a) a = node_magic m a"
    "node_size (claimed_ram m n a) a = n" "node_next (claimed_ram m n a) a = c"
    "node_allocated (claimed_ram m n a) a"
    by (simp_all add: eq at_a)
  show "node_magic (claimed_ram m n a) c = KHEAP_MAGIC"
    "node_size (claimed_ram m n a) c = (node_next m a - a) + n - sizeof_HeapNode"
    "node_next (claimed_ram m n a) c = node_next m a" "\<not> node_allocated (claimed_ram m n a) c"
    by (simp_all add: at_c)
  have "agree_off (header a) m ?m2"
    by (rule agree_off_trans_same [OF put_agree_header(2) put_agree_header(5)])
  then show "agree_off (header a \<union> header c) m (claimed_ram m n a)"
    by (rule agree_off_mono [OF agree_off_trans [OF agree_off_trans [OF _ ag3] ag4]]) auto
qed

section \<open>Allocation from the end of the heap\<close>

text \<open>
  The last block has no successor, so the space \<open>consumeEmptySpace\<close> computes for it is
  \<open>n - a\<close> modulo \<open>2 ^ 32\<close>: the unallocated block left behind the new one is given
  that size less a header, whatever the size of the old block was.
\<close>

definition tail_after :: "addr \<Rightarrow> u32 \<Rightarrow> block" where
  "tail_after a n = \<lparr>b_addr = a + sizeof_HeapNode + n, b_size = n - a - sizeof_HeapNode,
     b_alloc = False\<rparr>"

definition served :: "block \<Rightarrow> u32 \<Rightarrow> block" where
  "served t n = \<lparr>b_addr = b_addr t, b_size = n, b_alloc = True\<rparr>"

lemma tail_addresses:
  fixes a n :: u32
  assumes "unat a + 22 + unat n \<le> 4294967296" and "unat n < unat a"
  shows "unat (a + sizeof_HeapNode + n) = unat a + 11 + unat n"
    and "n - a > sizeof_HeapNode"
    and "header a \<inter> header (a + sizeof_HeapNode + n) = {}"
proof -
  have s1: "unat (a + sizeof_HeapNode) = unat a + 11"
    using assms(1) by (simp add: unat_add_nowrap layout)
  then show s2: "unat (a + sizeof_HeapNode + n) = unat a + 11 + unat n"
    using assms(1) by (simp add: unat_add_nowrap)
  have "unat (n - a) = 4294967296 + unat n - unat a" by (rule unat_sub_wrap [OF assms(2)])
  then show "n - a > sizeof_HeapNode" using assms by (simp add: word_less_nat_alt layout)
  show "header a \<inter> header (a + sizeof_HeapNode + n) = {}"
    by (rule headers_apart(1)) (use s2 assms in simp_all)
qed

lemma no_adjacent_free_append:
  "no_adjacent_free (as @ b # bs) \<longleftrightarrow> no_adjacent_free (as @ [b]) \<and> no_adjacent_free (b # bs)"
  by (induction as rule: no_adjacent_free.induct) auto

lemma no_adjacent_free_claim:
  "no_adjacent_free (as @ [t]) \<Longrightarrow> b_alloc u \<Longrightarrow> no_adjacent_free (as @ [u])"
  by (induction as rule: no_adjacent_free.induct) auto

lemma laid_out_replace_last:
  "laid_out (as @ [t]) \<Longrightarrow> b_addr u = b_addr t \<Longrightarrow> laid_out (u # bs) \<Longrightarrow> laid_out (as @ u # bs)"
proof (induction as)
  case (Cons a as)
  then show ?case by (cases as) (auto dest: laid_out_tl)
qed simp

lemma kheapAlloc_tail:
  assumes heap: "heap_list h (as @ [t])" and naf: "no_adjacent_free (as @ [t])"
    and below: "\<forall>a \<in> set as. \<not> fits_request n a" and fit: "fits_request n t"
    and room: "unat (b_addr t) + 22 + unat n \<le> 4294967296" "unat n < unat (b_addr t)"
  obtains h' where "kheapAlloc h n = Some (Inr (NODE_TO_CONTENTS (b_addr t), h'))"
    "heap_list h' (as @ [served t n, tail_after (b_addr t) n])"
    "no_adjacent_free (as @ [served t n, tail_after (b_addr t) n])"
    "agree_off (header (b_addr t) \<union> header (b_addr (tail_after (b_addr t) n))) (ram h) (ram h')"
    "root_node h' = root_node h" "console h' = console h"
proof -
  let ?a = "b_addr t" and ?m = "ram h"
  let ?c = "?a + sizeof_HeapNode + n"
  let ?m' = "claimed_ram ?m n ?a"
  let ?bs = "as @ [served t n, tail_after ?a n]"
  note ta = tail_addresses [OF room]
  from heap have p: "path ?m (root_node h) as ?a" "node_at ?m t" "node_next ?m ?a = 0"
    and lay: "laid_out (as @ [t])"
    by (auto simp: heap_list_def)
  then have "(node_next ?m ?a - ?a) + n > sizeof_HeapNode" using ta(2) by simp
  note cl = claimed_ram_split [OF this ta(3)]
  have "?c \<noteq> 0" using ta(1) by (metis unat_0 add_is_0 zero_neq_numeral)
  have "laid_out [served t n, tail_after ?a n]"
    using ta(1) room by (simp add: served_def tail_after_def block_end_def)
  then have lay': "laid_out ?bs"
    using laid_out_replace_last [OF lay, of "served t n"] by (simp add: served_def)
  have "(header ?a \<union> header ?c) \<inter> headers as = {}"
    using laid_out_middle_disjoint [OF lay'] by (auto simp: served_def tail_after_def)
  then have "path ?m' (root_node h) as ?a" using path_frame [OF cl(9)] p(1) by simp
  moreover have "node_at ?m' (served t n)" "node_at ?m' (tail_after ?a n)"
    using cl p \<open>?c \<noteq> 0\<close> by (simp_all add: node_at_def served_def tail_after_def)
  ultimately have path': "path ?m' (root_node h) ?bs 0"
    using cl(3,7) p(3) by (auto simp: served_def tail_after_def)
  have naf': "no_adjacent_free ?bs"
    using no_adjacent_free_claim [OF naf, of "served t n"]
    by (subst no_adjacent_free_append) (simp add: served_def)
  have "compactHeap (h\<lparr>ram := ?m'\<rparr>) = Some (h\<lparr>ram := ?m'\<rparr>)"
    by (rule compactHeap_fixed [OF _ naf']) (use path' in simp)
  then have "kheapAlloc h n = Some (Inr (NODE_TO_CONTENTS ?a, h\<lparr>ram := ?m'\<rparr>))"
    using kheapAlloc_found [OF heap below fit] by (simp add: claim_node_eq)
  moreover have "heap_list (h\<lparr>ram := ?m'\<rparr>) ?bs" using path' lay' by (simp add: heap_list_def)
  moreover have "agree_off (header ?a \<union> header (b_addr (tail_after ?a n))) ?m ?m'"
    using cl(9) by (simp add: tail_after_def)
  ultimately show thesis using naf' that [of "h\<lparr>ram := ?m'\<rparr>"] by simp
qed

section \<open>Reuse of a released block\<close>

text \<open>
  For a block \<open>a\<close> that has a successor \<open>b\<close>, \<open>consumeEmptySpace\<close> computes
  \<open>b - a + n\<close> where the space left is \<open>b - a - 11 - n\<close>: the new unallocated block
  claims \<open>2 n + 11\<close> bytes past the start of \<open>b\<close>.
\<close>

lemma reuse_addresses:
  assumes "laid_out (a # b # bs)" and "b_size a \<ge> n" and "2 * unat n + 11 < 4294967296"
    and "unat (b_size a) + unat n + 11 < 4294967296" and "n \<noteq> 0"
  shows "unat (b_addr a + sizeof_HeapNode + n) = unat (b_addr a) + 11 + unat n"
    and "(b_addr b - b_addr a) + n > sizeof_HeapNode"
    and "(b_addr b - b_addr a) + n - sizeof_HeapNode = b_size a + n"
proof -
  have e: "unat (b_addr a) + 11 + unat (b_size a) = unat (b_addr b)"
    using assms(1) by (simp add: block_end_def)
  have le: "unat n \<le> unat (b_size a)" using assms(2) by (simp add: word_le_nat_alt)
  note lt = unat_lt_32 [of "b_addr b"]
  have s1: "unat (b_addr a + sizeof_HeapNode) = unat (b_addr a) + 11"
    using e lt by (simp add: unat_add_nowrap layout)
  then show "unat (b_addr a + sizeof_HeapNode + n) = unat (b_addr a) + 11 + unat n"
    using e lt le by (simp add: unat_add_nowrap)
  have "b_addr b = b_addr a + sizeof_HeapNode + b_size a"
    using e lt s1 by (intro unsigned_word_eqI [where 'a = nat]) (simp add: unat_add_nowrap)
  then have d: "(b_addr b - b_addr a) + n = sizeof_HeapNode + (b_size a + n)" by simp
  then show "(b_addr b - b_addr a) + n - sizeof_HeapNode = b_size a + n" by simp
  have "unat n \<noteq> 0" using assms(5) by (simp add: unat_eq_0)
  moreover have "unat (sizeof_HeapNode + (b_size a + n)) = 11 + (unat (b_size a) + unat n)"
    using assms(4) by (simp add: unat_add_nowrap layout)
  ultimately show "(b_addr b - b_addr a) + n > sizeof_HeapNode"
    by (simp add: d word_less_nat_alt layout)
qed

lemma no_adjacent_free_prefix:
  "no_adjacent_free (as @ [b]) \<Longrightarrow>
     no_adjacent_free as \<and> (as = [] \<or> b_alloc (last as) \<or> b_alloc b)"
  by (induction as rule: no_adjacent_free.induct) auto

lemma kheapAlloc_exact_reuse_diverges:
  assumes heap: "heap_list h (as @ a # b # bs)" and naf: "no_adjacent_free (as @ a # b # bs)"
    and below: "\<forall>c \<in> set as. \<not> fits_request n c"
    and free: "\<not> b_alloc a" and exact: "b_size a = n"
    and small: "2 * unat n + 11 < 4294967296" and pos: "n \<noteq> 0"
  shows "kheapAlloc h n = None"
proof -
  let ?a = "b_addr a" and ?m = "ram h"
  let ?c = "?a + sizeof_HeapNode + n"
  let ?m' = "claimed_ram ?m n ?a"
  from heap have lay: "laid_out (as @ a # b # bs)" by (simp add: heap_list_def)
  then have lay2: "laid_out (a # b # bs)" using laid_out_append by blast
  have nxt: "node_next ?m ?a = b_addr b" and pa: "path ?m (root_node h) as ?a"
    and nz: "?a \<noteq> 0" "b_addr b \<noteq> 0"
    using heap by (auto simp: heap_list_def node_at_def)
  note ra = reuse_addresses [OF lay2, of n]
  have c: "?c = b_addr b"
    using ra(1) exact small pos lay2
    by (intro unsigned_word_eqI [where 'a = nat]) (simp add: block_end_def)
  have dis: "header ?a \<inter> header ?c = {}"
    using laid_out_header_disjoint [OF lay2] c by auto
  have gt: "(node_next ?m ?a - ?a) + n > sizeof_HeapNode"
    using ra(2) exact small pos nxt by simp
  note cl = claimed_ram_split [OF gt dis]
  have "self_free ?m' (b_addr b)"
    using cl(7,8) nxt nz by (simp add: self_free_def c)
  then have "compactHeap_loop ?m' (b_addr b) = None" by (rule compactHeap_loop_self)
  then have self: "compactHeap_loop ?m' ?a = None"
    using cl(3,4) nz by (subst compactHeap_loop.simps) (simp add: c)
  have "(header ?a \<union> header ?c) \<inter> headers as = {}"
    using laid_out_middle_disjoint [OF lay] c by auto
  then have "path ?m' (root_node h) as ?a" using path_frame [OF cl(9)] pa by simp
  moreover have "no_adjacent_free as"
    using naf no_adjacent_free_append [of as a] no_adjacent_free_prefix by blast
  ultimately have "compactHeap_loop ?m' (root_node h) = None"
    using compactHeap_loop_skip [of ?m' "root_node h" as ?a] nz cl(4) self by simp
  moreover have "fits_request n a" using free exact by (simp add: fits_request_def)
  ultimately show ?thesis
    using kheapAlloc_found [OF heap below] by (simp add: claim_node_eq compactHeap_def)
qed

lemma kheapAlloc_reuse_overlaps:
  assumes heap: "heap_list h (as @ a # b # bs)" and naf: "no_adjacent_free (as @ a # b # bs)"
    and below: "\<forall>c \<in> set as. \<not> fits_request n c" and free: "\<not> b_alloc a"
    and hole: "unat n + 11 \<le> unat (b_size a)" and pos: "n \<noteq> 0"
    and small: "unat (b_size a) + unat n + 11 < 4294967296"
  defines "c \<equiv> \<lparr>b_addr = b_addr a + sizeof_HeapNode + n, b_size = b_size a + n, b_alloc = False\<rparr>"
  obtains h' where "kheapAlloc h n = Some (Inr (NODE_TO_CONTENTS (b_addr a), h'))"
    "path (ram h') (root_node h') (as @ served a n # c # b # bs) 0"
    "block_end c = unat (b_addr b) + 11 + 2 * unat n"
proof -
  let ?a = "b_addr a" and ?m = "ram h"
  let ?c = "?a + sizeof_HeapNode + n"
  let ?m' = "claimed_ram ?m n ?a"
  let ?bs = "as @ served a n # c # b # bs"
  from heap have lay: "laid_out (as @ a # b # bs)" by (simp add: heap_list_def)
  then have lay2: "laid_out (a # b # bs)" using laid_out_append by blast
  then have e: "?a + 0 = ?a" "unat ?a + 11 + unat (b_size a) = unat (b_addr b)"
    by (simp_all add: block_end_def)
  have p: "node_next ?m ?a = b_addr b" "path ?m (root_node h) as ?a" "node_at ?m a"
    "path ?m (b_addr b) (b # bs) 0"
    using heap by (auto simp: heap_list_def)
  have le: "n \<le> b_size a" using hole by (simp add: word_le_nat_alt)
  have small2: "2 * unat n + 11 < 4294967296" using hole small by linarith
  note ra = reuse_addresses [OF lay2 le small2 small pos]
  have hc: "unat ?c + 11 \<le> unat (b_addr b)" using ra(1) hole e(2) by simp
  have dis: "header ?a \<inter> header ?c = {}"
    by (rule headers_apart(1)) (use ra(1) hc unat_lt_32 [of "b_addr b"] in simp_all)
  have "(node_next ?m ?a - ?a) + n > sizeof_HeapNode" using ra(2) p(1) by simp
  note cl = claimed_ram_split [OF this dis]
  have low: "x \<in> header ?a \<union> header ?c \<Longrightarrow> unat ?a \<le> unat x \<and> unat x < unat (b_addr b)" for x
    using in_header [of ?a x] in_header [of ?c x] ra(1) hc e(2) unat_lt_32 [of "b_addr b"] by auto
  have "headers (b # bs) \<inter> (header ?a \<union> header ?c) = {}"
  proof -
    have "unat (b_addr b) \<le> unat x" if "x \<in> headers (b # bs)" for x
    proof -
      from that obtain d where d: "d \<in> set (b # bs)" "x \<in> header (b_addr d)"
        by (auto simp: headers_def)
      obtain ys zs where sp: "b # bs = ys @ d # zs" using split_list [OF d(1)] by blast
      then have "unat (b_addr d) + 11 \<le> 4294967296"
        using lay2 laid_out_tl laid_out_append [of ys "d # zs"] laid_out_hd by metis
      moreover have "unat (b_addr b) \<le> unat (b_addr d)"
        using d(1) laid_out_above [OF laid_out_tl [OF lay2], of d] by (auto simp: block_end_def)
      ultimately show ?thesis using in_header d(2) by auto
    qed
    then show ?thesis using low by fastforce
  qed
  then have rest: "path ?m' (b_addr b) (b # bs) 0"
    using path_frame [OF cl(9), of "b # bs"] p(4) by (simp only: Int_commute)
  have "(header ?a \<union> header ?c) \<inter> headers as = {}"
  proof -
    have "unat x < unat ?a" if "x \<in> headers as" for x
    proof -
      from that obtain d where d: "d \<in> set as" "x \<in> header (b_addr d)" by (auto simp: headers_def)
      have "block_end d \<le> unat ?a" by (rule laid_out_below [OF lay d(1)])
      then show ?thesis using in_header [of "b_addr d" x] d(2) unat_lt_32 [of ?a]
        by (simp add: block_end_def)
    qed
    then show ?thesis using low by fastforce
  qed
  then have "path ?m' (root_node h) as ?a" using path_frame [OF cl(9)] p(2) by simp
  moreover have "?c \<noteq> 0" using ra(1) by (metis unat_0 add_is_0 zero_neq_numeral)
  then have "node_at ?m' (served a n)" "node_at ?m' c"
    using cl p ra(3) by (simp_all add: node_at_def served_def c_def)
  ultimately have path': "path ?m' (root_node h) ?bs 0"
    using cl(3,7) p(1) rest by (simp add: served_def c_def)
  have naf2: "no_adjacent_free (as @ [a])" "no_adjacent_free (a # b # bs)"
    using naf no_adjacent_free_append [of as a "b # bs"] by blast+
  then have "b_alloc b" "no_adjacent_free (b # bs)" using free by auto
  then have naf': "no_adjacent_free ?bs"
    using no_adjacent_free_claim [OF naf2(1), of "served a n"]
    by (subst no_adjacent_free_append) (simp add: served_def)
  have "compactHeap (h\<lparr>ram := ?m'\<rparr>) = Some (h\<lparr>ram := ?m'\<rparr>)"
    by (rule compactHeap_fixed [OF _ naf']) (use path' in simp)
  moreover have "fits_request n a" using free le by (simp add: fits_request_def)
  ultimately have "kheapAlloc h n = Some (Inr (NODE_TO_CONTENTS ?a, h\<lparr>ram := ?m'\<rparr>))"
    using kheapAlloc_found [OF heap below] by (simp add: claim_node_eq)
  moreover have "unat (b_size a + n) = unat (b_size a) + unat n"
    using small by (simp add: unat_add_nowrap)
  then have "block_end c = unat (b_addr b) + 11 + 2 * unat n"
    using ra(1) e(2) by (simp add: c_def block_end_def)
  ultimately show thesis using path' that [of "h\<lparr>ram := ?m'\<rparr>"] by simp
qed

end
