(* ===== verification/Kheap_Stack.thy ===== *)
theory Kheap_Stack
  imports Kheap_Correct
begin

text \<open>
  The discipline under which the heap works: blocks released in the reverse order of
  their allocation. \<open>stack_allocator\<close> is the contract of such an allocator, with its
  client (a sequence of requests, releases and writes into live blocks) reasoned about
  once; \<open>kheapAlloc\<close> and \<open>kheapFree\<close> provide it.
\<close>

section \<open>The contract\<close>

text \<open>
  \<open>inv h ns\<close>: the live blocks of \<open>h\<close> have sizes \<open>ns\<close>, oldest first. \<open>place ns\<close>: where the
  contents of the next block start. \<open>room ns n\<close>: a further request of \<open>n\<close> can be served.
\<close>

locale stack_allocator =
  fixes inv :: "'h \<Rightarrow> 'n list \<Rightarrow> bool"
    and alloc :: "'h \<Rightarrow> 'n \<Rightarrow> ('e + ('p \<times> 'h)) option"
    and release :: "'h \<Rightarrow> 'p \<Rightarrow> ('e + 'h) option"
    and place :: "'n list \<Rightarrow> 'p"
    and room :: "'n list \<Rightarrow> 'n \<Rightarrow> bool"
    and same_data :: "'n list \<Rightarrow> 'h \<Rightarrow> 'h \<Rightarrow> bool"
  assumes alloc_top: "inv h ns \<Longrightarrow> room ns n \<Longrightarrow>
      \<exists>h'. alloc h n = Some (Inr (place ns, h')) \<and> inv h' (ns @ [n]) \<and> same_data ns h h'"
    and release_top: "inv h (ns @ [n]) \<Longrightarrow>
      \<exists>h'. release h (place ns) = Some (Inr h') \<and> inv h' ns \<and> same_data ns h h'"
    and same_data_refl: "same_data ns h h"
    and same_data_trans: "same_data ns h h1 \<Longrightarrow> same_data ns h1 h2 \<Longrightarrow> same_data ns h h2"
    and same_data_prefix: "same_data (ns @ ms) h h' \<Longrightarrow> same_data ns h h'"
begin

text \<open>A request followed by its release: the live data is as it was.\<close>

lemma push_pop:
  assumes "inv h ns" and "room ns n"
  shows "\<exists>h1 h2. alloc h n = Some (Inr (place ns, h1)) \<and> release h1 (place ns) = Some (Inr h2)
     \<and> inv h2 ns \<and> same_data ns h h2"
proof -
  from alloc_top [OF assms] obtain h1 where h1: "alloc h n = Some (Inr (place ns, h1))"
    "inv h1 (ns @ [n])" "same_data ns h h1" by blast
  from release_top [OF h1(2)] obtain h2 where "release h1 (place ns) = Some (Inr h2)"
    "inv h2 ns" "same_data ns h1 h2" by blast
  with h1 same_data_trans show ?thesis by blast
qed

text \<open>A whole sequence of requests: every one is served, at the place the stack says.\<close>

fun all_room :: "'n list \<Rightarrow> 'n list \<Rightarrow> bool" where
  "all_room ns [] \<longleftrightarrow> True"
| "all_room ns (n # ms) \<longleftrightarrow> room ns n \<and> all_room (ns @ [n]) ms"

fun alloc_all :: "'h \<Rightarrow> 'n list \<Rightarrow> ('e + ('p list \<times> 'h)) option" where
  "alloc_all h [] = Some (Inr ([], h))"
| "alloc_all h (n # ms) =
     (case alloc h n of
        None \<Rightarrow> None
      | Some (Inl e) \<Rightarrow> Some (Inl e)
      | Some (Inr (p, h')) \<Rightarrow>
          map_option (map_sum id (\<lambda>(ps, h''). (p # ps, h''))) (alloc_all h' ms))"

fun places :: "'n list \<Rightarrow> 'n list \<Rightarrow> 'p list" where
  "places ns [] = []"
| "places ns (n # ms) = place ns # places (ns @ [n]) ms"

lemma alloc_all_served:
  "inv h ns \<Longrightarrow> all_room ns ms \<Longrightarrow>
     \<exists>h'. alloc_all h ms = Some (Inr (places ns ms, h')) \<and> inv h' (ns @ ms) \<and> same_data ns h h'"
proof (induction ms arbitrary: h ns)
  case (Cons n ms)
  from Cons.prems alloc_top obtain h1 where h1: "alloc h n = Some (Inr (place ns, h1))"
    "inv h1 (ns @ [n])" "same_data ns h h1" by fastforce
  from Cons.IH [OF h1(2)] Cons.prems(2) obtain h' where
    h': "alloc_all h1 ms = Some (Inr (places (ns @ [n]) ms, h'))" "inv h' ((ns @ [n]) @ ms)"
    "same_data (ns @ [n]) h1 h'" by auto
  have "same_data ns h h'" by (rule same_data_trans [OF h1(3) same_data_prefix [OF h'(3)]])
  with h1 h' show ?case by simp
qed (simp add: same_data_refl)

text \<open>Releasing everything, youngest first, gives back the empty stack.\<close>

fun release_all :: "'h \<Rightarrow> 'p list \<Rightarrow> ('e + 'h) option" where
  "release_all h [] = Some (Inr h)"
| "release_all h (p # ps) =
     (case release h p of
        None \<Rightarrow> None
      | Some (Inl e) \<Rightarrow> Some (Inl e)
      | Some (Inr h') \<Rightarrow> release_all h' ps)"

lemma places_snoc: "places ns (ms @ [n]) = places ns ms @ [place (ns @ ms)]"
  by (induction ms arbitrary: ns) auto

lemma release_all_served:
  "inv h (ns @ ms) \<Longrightarrow>
     \<exists>h'. release_all h (rev (places ns ms)) = Some (Inr h') \<and> inv h' ns \<and> same_data ns h h'"
proof (induction ms arbitrary: h rule: rev_induct)
  case (snoc n ms)
  from snoc.prems release_top [of h "ns @ ms" n] obtain h1 where
    h1: "release h (place (ns @ ms)) = Some (Inr h1)" "inv h1 (ns @ ms)" "same_data (ns @ ms) h h1"
    by auto
  from snoc.IH [OF h1(2)] obtain h' where
    h': "release_all h1 (rev (places ns ms)) = Some (Inr h')" "inv h' ns" "same_data ns h1 h'"
    by blast
  have "same_data ns h h'" by (rule same_data_trans [OF same_data_prefix [OF h1(3)] h'(3)])
  with h1 h' show ?case by (simp add: places_snoc)
qed (simp add: same_data_refl)

lemma session:
  assumes "inv h []" and "all_room [] ms"
  shows "\<exists>h1 h2. alloc_all h ms = Some (Inr (places [] ms, h1)) \<and>
     release_all h1 (rev (places [] ms)) = Some (Inr h2) \<and> inv h1 ms \<and> inv h2 []"
proof -
  from alloc_all_served [OF assms] obtain h1 where
    h1: "alloc_all h ms = Some (Inr (places [] ms, h1))" "inv h1 ([] @ ms)" by auto
  from release_all_served [OF h1(2)] h1 show ?thesis by auto
qed

end

section \<open>The stack of blocks in the heap\<close>

fun stack_top :: "addr \<Rightarrow> u32 list \<Rightarrow> addr" where
  "stack_top a [] = a"
| "stack_top a (n # ns) = stack_top (a + sizeof_HeapNode + n) ns"

fun stack_blocks :: "addr \<Rightarrow> u32 list \<Rightarrow> block list" where
  "stack_blocks a [] = []"
| "stack_blocks a (n # ns) =
     \<lparr>b_addr = a, b_size = n, b_alloc = True\<rparr> # stack_blocks (a + sizeof_HeapNode + n) ns"

definition depth :: "u32 list \<Rightarrow> nat" where
  "depth ns = sum_list (map (\<lambda>n. 11 + unat n) ns)"

lemma depth_simps [simp]:
  "depth [] = 0" "depth (n # ns) = 11 + unat n + depth ns" "depth (ns @ ms) = depth ns + depth ms"
  by (simp_all add: depth_def)

lemma stack_top_append: "stack_top a (ns @ ms) = stack_top (stack_top a ns) ms"
  by (induction ns arbitrary: a) auto

lemma stack_blocks_append:
  "stack_blocks a (ns @ ms) = stack_blocks a ns @ stack_blocks (stack_top a ns) ms"
  by (induction ns arbitrary: a) auto

lemma stack_blocks_alloc: "b \<in> set (stack_blocks a ns) \<Longrightarrow> b_alloc b"
  by (induction ns arbitrary: a) auto

lemma unat_stack_top:
  "unat a + depth ns < 4294967296 \<Longrightarrow> unat (stack_top a ns) = unat a + depth ns"
proof (induction ns arbitrary: a)
  case (Cons n ns)
  have "unat (a + sizeof_HeapNode + n) = unat a + 11 + unat n"
    using Cons.prems by (simp add: unat_add_nowrap layout)
  with Cons show ?case by simp
qed simp

text \<open>
  The unallocated block at the top: \<open>a + s\<close> is where it believes the heap ends, less
  a header: the end of the heap at first, twice the last request later (the space
  computed by \<open>consumeEmptySpace\<close> for the last block).
\<close>

definition top_block :: "u32 list \<Rightarrow> u32 \<Rightarrow> block" where
  "top_block ns s = \<lparr>b_addr = stack_top KHEAP_START ns, b_size = s, b_alloc = False\<rparr>"

definition stack_list :: "u32 list \<Rightarrow> u32 \<Rightarrow> block list" where
  "stack_list ns s = stack_blocks KHEAP_START ns @ [top_block ns s]"

definition top_size_ok :: "u32 list \<Rightarrow> u32 \<Rightarrow> bool" where
  "top_size_ok ns s \<longleftrightarrow>
     stack_top KHEAP_START ns + s = KHEAP_END - sizeof_HeapNode \<or>
     stack_top KHEAP_START ns + s < KHEAP_START"

definition stack_room :: "u32 list \<Rightarrow> u32 \<Rightarrow> bool" where
  "stack_room ns n \<longleftrightarrow> unat KHEAP_START + depth ns + 22 + unat n \<le> unat KHEAP_END"

definition stack_heap :: "kheap \<Rightarrow> u32 list \<Rightarrow> bool" where
  "stack_heap h ns \<longleftrightarrow> unat KHEAP_START + depth ns + 11 \<le> unat KHEAP_END \<and>
     (\<exists>s. heap_list h (stack_list ns s) \<and> top_size_ok ns s)"

definition stack_place :: "u32 list \<Rightarrow> addr" where
  "stack_place ns = NODE_TO_CONTENTS (stack_top KHEAP_START ns)"

lemma heap_bounds [layout]: "unat KHEAP_START = 0xf000000" "unat KHEAP_END = 0xfffffff"
  by (simp_all add: KHEAP_START_def KHEAP_END_def)

lemma no_adjacent_free_stack: "no_adjacent_free (stack_blocks a ns @ [b])"
proof (induction ns arbitrary: a)
  case (Cons n ns)
  from Cons [of "a + sizeof_HeapNode + n"] show ?case
    by (cases "stack_blocks (a + sizeof_HeapNode + n) ns @ [b]") auto
qed simp

lemma top_block_fits:
  assumes "stack_room ns n" and "top_size_ok ns s"
  shows "fits_request n (top_block ns s)"
proof -
  let ?t = "stack_top KHEAP_START ns"
  have t: "unat ?t = 0xf000000 + depth ns" "0xf000000 + depth ns + 22 + unat n \<le> 0xfffffff"
    using assms(1) unat_stack_top [of KHEAP_START ns] by (simp_all add: stack_room_def layout)
  have s: "s = (?t + s) - ?t" by simp
  have "n \<le> s"
    using assms(2) unfolding top_size_ok_def
  proof
    assume e: "?t + s = KHEAP_END - sizeof_HeapNode"
    have "unat (KHEAP_END - sizeof_HeapNode) = 0xffffff4"
      by (simp add: KHEAP_END_def sizeof_HeapNode_def)
    then have "unat s = 0xffffff4 - unat ?t"
      using t s e unat_sub_nowrap [of ?t "KHEAP_END - sizeof_HeapNode"] by simp
    with t show ?thesis by (simp add: word_le_nat_alt)
  next
    assume "?t + s < KHEAP_START"
    then have lt: "unat (?t + s) < 0xf000000" by (simp add: word_less_nat_alt layout)
    then have "unat ((?t + s) - ?t) = 4294967296 + unat (?t + s) - unat ?t"
      using t by (intro unat_sub_wrap) simp
    with t s show ?thesis by (simp add: word_le_nat_alt)
  qed
  then show ?thesis by (simp add: fits_request_def top_block_def)
qed

text \<open>The contents of a block that has a successor lie between two headers.\<close>

lemma contents_headers_disjoint:
  assumes lay: "laid_out (as @ b # c # bs)"
  shows "contents b \<inter> headers (as @ b # c # bs) = {}"
proof -
  let ?bs = "as @ b # c # bs"
  have lb: "laid_out (b # c # bs)" and lt: "block_end b \<le> 4294967296" "block_end b = unat (b_addr c)"
    using laid_out_append [OF lay] unat_lt_32 [of "b_addr c"] by auto
  have "x \<notin> header (b_addr d)" if x: "x \<in> contents b" and d: "d \<in> set ?bs" for x d
  proof -
    have xb: "unat (b_addr b) + 11 \<le> unat x" "unat x < block_end b"
      using x in_contents [OF lt(1)] by auto
    from split_list [OF d] obtain ys zs where sp: "?bs = ys @ d # zs" by blast
    then have "laid_out (d # zs)" using lay laid_out_append [of ys "d # zs"] by simp
    note hd = in_header [OF laid_out_hd [OF this]]
    from d consider "d \<in> set as" | "d = b" | "d \<in> set (c # bs)" by auto
    then show ?thesis
    proof cases
      case 1
      have "block_end d \<le> unat (b_addr b)" by (rule laid_out_below [OF lay 1])
      then show ?thesis using hd xb by (simp add: block_end_def)
    next
      case 3
      then have "block_end b \<le> unat (b_addr d)" using laid_out_above [OF lb] by blast
      then show ?thesis using hd xb by simp
    qed (use hd xb in simp)
  qed
  then show ?thesis by (auto simp: headers_def)
qed

definition live_contents :: "u32 list \<Rightarrow> addr set" where
  "live_contents ns = (\<Union>b \<in> set (stack_blocks KHEAP_START ns). contents b)"

lemma live_contents_headers:
  assumes "laid_out (stack_blocks KHEAP_START ns @ c # bs)"
  shows "live_contents ns \<inter> headers (stack_blocks KHEAP_START ns @ c # bs) = {}"
proof -
  have "contents b \<inter> headers (stack_blocks KHEAP_START ns @ c # bs) = {}"
    if b: "b \<in> set (stack_blocks KHEAP_START ns)" for b
  proof -
    from split_list [OF b] obtain ys zs where sp: "stack_blocks KHEAP_START ns = ys @ b # zs" by blast
    then obtain d ds where "zs @ c # bs = d # ds" by (cases zs) auto
    with sp have "stack_blocks KHEAP_START ns @ c # bs = ys @ b # d # ds" by simp
    with assms contents_headers_disjoint show ?thesis by metis
  qed
  then show ?thesis by (auto simp: live_contents_def)
qed

text \<open>Two heaps agree on the data of the live blocks.\<close>

definition same_live_data :: "u32 list \<Rightarrow> kheap \<Rightarrow> kheap \<Rightarrow> bool" where
  "same_live_data ns h h' \<longleftrightarrow> (\<forall>x \<in> live_contents ns. ram h' x = ram h x)"

lemma stack_heap_init: "stack_heap (kheapInit h) []"
proof -
  have "heap_list (kheapInit h) (stack_list [] ((KHEAP_END - KHEAP_START) - sizeof_HeapNode))"
    using kheapInit_heap_list [of h]
    by (simp add: stack_list_def top_block_def initial_block_def)
  then show ?thesis
    unfolding stack_heap_def by (auto simp: top_size_ok_def layout)
qed

lemma stack_list_snoc:
  "stack_list (ns @ [n]) s = stack_blocks KHEAP_START ns @
     [served (top_block ns s') n, top_block (ns @ [n]) s]"
  by (simp add: stack_list_def stack_blocks_append served_def top_block_def)

text \<open>
  A request served from the top: what is left behind it believes that the heap ends twice the
  request above address 0.
\<close>

lemma kheapAlloc_top:
  assumes heap: "heap_list h (stack_list ns s)" and fit: "fits_request n (top_block ns s)"
    and top: "unat (stack_top KHEAP_START ns) + 22 + unat n \<le> 4294967296" "unat n < unat (stack_top KHEAP_START ns)"
  obtains h' s' where "kheapAlloc h n = Some (Inr (stack_place ns, h'))"
    and "heap_list h' (stack_list (ns @ [n]) s')" and "stack_top KHEAP_START (ns @ [n]) + s' = 2 * n"
    and "agree_off (header (stack_top KHEAP_START ns) \<union> header (stack_top KHEAP_START (ns @ [n]))) (ram h) (ram h')"
proof -
  let ?t = "stack_top KHEAP_START ns" and ?as = "stack_blocks KHEAP_START ns"
  let ?s' = "n - ?t - sizeof_HeapNode"
  have tail: "tail_after (b_addr (top_block ns s)) n = top_block (ns @ [n]) ?s'"
    by (simp add: tail_after_def top_block_def stack_top_append)
  have below: "\<forall>a \<in> set ?as. \<not> fits_request n a"
    using stack_blocks_alloc by (auto simp: fits_request_def)
  obtain h' where h': "kheapAlloc h n = Some (Inr (NODE_TO_CONTENTS (b_addr (top_block ns s)), h'))"
    "heap_list h' (?as @ [served (top_block ns s) n, tail_after (b_addr (top_block ns s)) n])"
    "agree_off (header (b_addr (top_block ns s))
       \<union> header (b_addr (tail_after (b_addr (top_block ns s)) n))) (ram h) (ram h')"
    by (rule kheapAlloc_tail [OF heap [unfolded stack_list_def] no_adjacent_free_stack below fit])
      (use top in \<open>auto simp: top_block_def\<close>)
  show thesis
  proof (rule that)
    show "kheapAlloc h n = Some (Inr (stack_place ns, h'))"
      using h'(1) by (simp add: stack_place_def top_block_def)
    show "heap_list h' (stack_list (ns @ [n]) ?s')" using h'(2) by (simp add: tail stack_list_snoc [of _ _ _ s])
    show "stack_top KHEAP_START (ns @ [n]) + ?s' = 2 * n" by (simp add: stack_top_append)
  qed (use h'(3) in \<open>simp add: tail_after_def top_block_def stack_top_append\<close>)
qed

lemma kheapAlloc_stack:
  assumes inv: "stack_heap h ns" and room: "stack_room ns n"
  shows "\<exists>h'. kheapAlloc h n = Some (Inr (stack_place ns, h')) \<and> stack_heap h' (ns @ [n])
     \<and> same_live_data ns h h'"
proof -
  obtain s where s: "heap_list h (stack_list ns s)" "top_size_ok ns s"
    using inv by (auto simp: stack_heap_def)
  have r: "0xf000000 + depth ns + 22 + unat n \<le> 0xfffffff"
    using room by (simp add: stack_room_def layout)
  then have ut: "unat (stack_top KHEAP_START ns) = 0xf000000 + depth ns"
    using unat_stack_top [of KHEAP_START ns] by (simp add: layout)
  obtain h' s' where h': "kheapAlloc h n = Some (Inr (stack_place ns, h'))" "heap_list h' (stack_list (ns @ [n]) s')"
    "stack_top KHEAP_START (ns @ [n]) + s' = 2 * n"
    "agree_off (header (stack_top KHEAP_START ns) \<union> header (stack_top KHEAP_START (ns @ [n]))) (ram h) (ram h')"
    by (rule kheapAlloc_top [OF s(1) top_block_fits [OF room s(2)]]) (use r ut in auto)
  have "unat (2 * n) = 2 * unat n" using r by (simp add: unat_word_ariths)
  then have "2 * n < KHEAP_START" using r by (simp add: word_less_nat_alt layout)
  then have "top_size_ok (ns @ [n]) s'" using h'(3) by (simp only: top_size_ok_def simp_thms)
  with h'(2) r have inv': "stack_heap h' (ns @ [n])" by (auto simp: stack_heap_def layout)
  have "live_contents ns \<inter> headers (stack_blocks KHEAP_START ns @ [served (top_block ns s) n, top_block (ns @ [n]) s']) = {}"
    using h'(2) by (intro live_contents_headers) (simp add: heap_list_def stack_list_snoc [of _ _ _ s])
  then have "same_live_data ns h h'"
    using agree_offD [OF h'(4)] by (auto simp: same_live_data_def served_def top_block_def)
  with h'(1) inv' show ?thesis by blast
qed

lemma compact_blocks_allocated_prefix:
  "\<forall>a \<in> set as. b_alloc a \<Longrightarrow> compact_blocks (as @ b # bs) = as @ compact_blocks (b # bs)"
proof (induction as)
  case (Cons a as)
  then show ?case by (cases as) auto
qed simp

lemma kheapFree_stack:
  assumes inv: "stack_heap h (ns @ [n])"
  shows "\<exists>h'. kheapFree h (stack_place ns) = Some (Inr h') \<and> stack_heap h' ns
     \<and> same_live_data ns h h'"
proof -
  let ?as = "stack_blocks KHEAP_START ns"
  obtain s where s: "heap_list h (stack_list (ns @ [n]) s)" "top_size_ok (ns @ [n]) s"
    using inv by (auto simp: stack_heap_def)
  let ?b = "served (top_block ns 0) n" and ?t = "top_block (ns @ [n]) s"
  let ?s' = "n + (sizeof_HeapNode + s)"
  have hl: "heap_list h (?as @ ?b # [?t])" using s(1) by (simp add: stack_list_snoc [of _ _ _ 0])
  obtain h' where h': "kheapFree h (NODE_TO_CONTENTS (b_addr ?b)) = Some (Inr h')"
    "heap_list h' (compact_blocks (?as @ ?b\<lparr>b_alloc := False\<rparr> # [?t]))"
    "agree_off (headers (?as @ ?b # [?t])) (ram h) (ram h')"
    using kheapFree_block [OF hl] by metis
  have "compact_blocks (?as @ ?b\<lparr>b_alloc := False\<rparr> # [?t]) = stack_list ns ?s'"
    using stack_blocks_alloc
    by (simp add: compact_blocks_allocated_prefix served_def top_block_def stack_list_def)
  with h'(2) have hl': "heap_list h' (stack_list ns ?s')" by simp
  have "stack_top KHEAP_START ns + ?s' = stack_top KHEAP_START (ns @ [n]) + s"
    by (simp add: stack_top_append)
  with s(2) have "top_size_ok ns ?s'" by (simp only: top_size_ok_def)
  with hl' inv have inv': "stack_heap h' ns" by (auto simp: stack_heap_def)
  have "live_contents ns \<inter> headers (?as @ ?b # [?t]) = {}"
    using hl by (intro live_contents_headers) (simp add: heap_list_def)
  then have "same_live_data ns h h'"
    using agree_offD [OF h'(3)] by (auto simp: same_live_data_def)
  with h'(1) inv' show ?thesis by (auto simp: stack_place_def top_block_def served_def)
qed

text \<open>Writing into live blocks, as the clients of the heap do, keeps the heap.\<close>

lemma stack_heap_write:
  assumes inv: "stack_heap h ns" and wr: "agree_off (live_contents ns) (ram h) m'"
  shows "stack_heap (h\<lparr>ram := m'\<rparr>) ns"
proof -
  obtain s where s: "heap_list h (stack_list ns s)" "top_size_ok ns s"
    using inv by (auto simp: stack_heap_def)
  have "live_contents ns \<inter> headers (stack_list ns s) = {}"
    using s(1) unfolding stack_list_def
    by (intro live_contents_headers) (simp add: heap_list_def)
  then have "path m' (root_node h) (stack_list ns s) 0"
    using path_frame [OF wr] s(1) by (simp add: heap_list_def)
  with s inv show ?thesis by (auto simp: stack_heap_def heap_list_def)
qed

lemma live_contents_prefix: "live_contents ns \<subseteq> live_contents (ns @ ms)"
  by (auto simp: live_contents_def stack_blocks_append)

interpretation heap: stack_allocator stack_heap kheapAlloc kheapFree stack_place stack_room
  same_live_data
proof unfold_locales
  show "same_live_data (ns @ ms) h h' \<Longrightarrow> same_live_data ns h h'" for ns ms h h'
    using live_contents_prefix unfolding same_live_data_def by blast
qed (use kheapAlloc_stack kheapFree_stack in \<open>auto simp: same_live_data_def\<close>)

end
