(* ===== verification/Kheap_Realloc.thy ===== *)
theory Kheap_Realloc
  imports Kheap_Stack
begin

text \<open>
  Reallocation: the cases of \<open>kheapRealloc\<close> that leave the heap alone, and the case that
  moves a block which is followed by another live block.
\<close>

lemma node_of_block: "heap_list h bs \<Longrightarrow> b \<in> set bs \<Longrightarrow> node_at (ram h) b"
proof -
  assume h: "heap_list h bs" and b: "b \<in> set bs"
  from split_list [OF b] obtain as cs where "bs = as @ b # cs" by blast
  with h show ?thesis by (auto simp: heap_list_def)
qed

lemma next_of_block: "heap_list h (as @ b # c # bs) \<Longrightarrow> node_next (ram h) (b_addr b) = b_addr c"
  by (auto simp: heap_list_def)

section \<open>Reallocation that changes nothing\<close>

lemma kheapRealloc_kept:
  assumes "heap_list h bs" and "b \<in> set bs" and "sz \<noteq> 0" and "sz \<le> b_size b"
    and "unat (b_size b) < unat sz + 12"
  shows "kheapRealloc h (NODE_TO_CONTENTS (b_addr b)) sz = Some (Inr (NODE_TO_CONTENTS (b_addr b), h))"
proof -
  have n: "node_at (ram h) b" by (rule node_of_block [OF assms(1,2)])
  have "unat (b_size b - sz) < 12"
    using assms(4,5) by (simp add: unat_sub_nowrap word_le_nat_alt)
  then have "\<not> b_size b - sz \<ge> sizeof_HeapNode + 1"
    by (simp add: word_le_nat_alt sizeof_HeapNode_def)
  with n assms(3,4) show ?thesis
    by (simp add: kheapRealloc_def node_at_def Let_def)
qed

section \<open>Reallocation that moves the block\<close>

lemma stack_blocks_at:
  "stack_blocks KHEAP_START (ns @ n # ms) = stack_blocks KHEAP_START ns @
     served (top_block ns 0) n # stack_blocks (stack_top KHEAP_START (ns @ [n])) ms"
  by (simp add: stack_blocks_append served_def top_block_def stack_top_append)

lemma contents_at:
  "contents (served (top_block ns s) n) = span (stack_place ns) (unat n)"
  by (simp add: contents_def served_def top_block_def stack_place_def)

lemma contents_live: "span (stack_place ns) (unat n) \<subseteq> live_contents (ns @ n # ms)"
  unfolding live_contents_def stack_blocks_at using contents_at [of ns 0 n] by auto

lemma stack_place_unat:
  assumes "unat KHEAP_START + depth ns + 11 \<le> unat KHEAP_END"
  shows "unat (stack_place ns) = unat KHEAP_START + depth ns + 11"
proof -
  have "unat (stack_top KHEAP_START ns) = unat KHEAP_START + depth ns"
    using assms by (intro unat_stack_top) (simp add: layout)
  with assms show ?thesis
    by (simp add: stack_place_def NODE_TO_CONTENTS_def unat_add_nowrap layout)
qed

lemma stack_heap_depth: "stack_heap h ns \<Longrightarrow> unat KHEAP_START + depth ns + 11 \<le> unat KHEAP_END"
  by (simp add: stack_heap_def)

lemma stack_heap_move:
  assumes inv: "stack_heap h (ns @ n # ms @ [sz])" and sz: "unat n \<le> unat sz"
  defines "new \<equiv> stack_place (ns @ n # ms)" and "ptr \<equiv> stack_place ns"
  defines "m1 \<equiv> fst (kmemcpy (ram h) new ptr n)"
  shows "stack_heap (h\<lparr>ram := m1\<rparr>) (ns @ n # ms @ [sz])"
    and "\<forall>i < unat n. m1 (new + of_nat i) = ram h (ptr + of_nat i)"
    and "\<forall>x \<in> live_contents (ns @ n # ms). m1 x = ram h x"
    and "\<forall>i < unat n. new + of_nat i \<in> live_contents (ns @ n # ms @ [sz])"
proof -
  have d: "unat KHEAP_START + depth (ns @ n # ms @ [sz]) + 11 \<le> unat KHEAP_END"
    using stack_heap_depth [OF inv] by simp
  then have un: "unat new = unat KHEAP_START + depth (ns @ n # ms) + 11"
    and up: "unat ptr = unat KHEAP_START + depth ns + 11"
    unfolding new_def ptr_def by (intro stack_place_unat; simp)+
  have sub: "span new (unat n) \<subseteq> live_contents (ns @ n # ms @ [sz])"
    using contents_live [of "ns @ n # ms" sz "[]"] span_mono [OF sz, of new]
    by (simp add: new_def)
  have "span ptr (unat n) \<inter> span new (unat n) = {}"
    by (rule spans_apart) (use un up d sz in \<open>simp_all add: layout\<close>)
  then have "span new (unat n) \<inter> span ptr (unat n) = {}" by auto
  then have "forward_safe new ptr (unat n)"
    by (rule disjoint_forward_safe) (use unat_lt_32 [of n] in simp)
  note cp = kmemcpy_correct [OF this, of "ram h", folded m1_def]
  from cp(2) sub have "agree_off (live_contents (ns @ n # ms @ [sz])) (ram h) m1"
    by (rule agree_off_mono)
  with inv show "stack_heap (h\<lparr>ram := m1\<rparr>) (ns @ n # ms @ [sz])" by (rule stack_heap_write)
  show "\<forall>i < unat n. m1 (new + of_nat i) = ram h (ptr + of_nat i)" by (rule cp(1))
  show "\<forall>x \<in> live_contents (ns @ n # ms). m1 x = ram h x"
  proof
    fix x assume x: "x \<in> live_contents (ns @ n # ms)"
    let ?as = "stack_blocks KHEAP_START (ns @ n # ms)" and ?b = "served (top_block (ns @ n # ms) 0) sz"
    obtain s where "heap_list h (stack_list (ns @ n # ms @ [sz]) s)"
      using inv by (auto simp: stack_heap_def)
    then have lay: "laid_out (?as @ ?b # [top_block (ns @ n # ms @ [sz]) s])"
      using stack_blocks_at [of "ns @ n # ms" sz "[]"] by (simp add: heap_list_def stack_list_def)
    from x obtain c where c: "c \<in> set ?as" "x \<in> contents c" by (auto simp: live_contents_def)
    have "block_end c \<le> unat (b_addr ?b)" by (rule laid_out_below [OF lay c(1)])
    moreover have b: "unat (b_addr ?b) = unat KHEAP_START + depth (ns @ n # ms)"
      using un d unat_stack_top [of KHEAP_START "ns @ n # ms"]
      by (simp add: served_def top_block_def layout)
    ultimately have "unat x < unat new"
      using in_contents [of c x] c(2) un d by (simp add: layout)
    then have "x \<notin> span new (unat n)"
      using span_nowrap [of new "unat n" x] un d sz by (simp add: layout)
    then show "m1 x = ram h x" by (rule agree_offD [OF cp(2)])
  qed
  have "new + of_nat i \<in> span new (unat n)" if "i < unat n" for i
    using that unat_lt_32 [of n] by (simp add: in_span unat_of_nat_32)
  with sub show "\<forall>i < unat n. new + of_nat i \<in> live_contents (ns @ n # ms @ [sz])" by blast
qed

text \<open>Release of a block in the middle of the live ones: nothing to merge.\<close>

lemma kheapFree_middle:
  assumes inv: "stack_heap h (ns @ n # k # ms)"
  shows "\<exists>h' s. kheapFree h (stack_place ns) = Some (Inr h')
     \<and> heap_list h' (stack_blocks KHEAP_START ns @ top_block ns n #
          stack_blocks (stack_top KHEAP_START (ns @ [n])) (k # ms) @ [top_block (ns @ n # k # ms) s])
     \<and> same_live_data (ns @ n # k # ms) h h' \<and> root_node h' = root_node h"
proof -
  let ?as = "stack_blocks KHEAP_START ns" and ?b = "served (top_block ns 0) n"
  obtain s where s: "heap_list h (stack_list (ns @ n # k # ms) s)"
    using inv by (auto simp: stack_heap_def)
  let ?bs = "stack_blocks (stack_top KHEAP_START (ns @ [n])) (k # ms) @ [top_block (ns @ n # k # ms) s]"
  have all: "stack_list (ns @ n # k # ms) s = ?as @ ?b # ?bs"
    by (simp add: stack_list_def stack_blocks_at)
  have hl: "heap_list h (?as @ ?b # ?bs)" using s by (simp only: all)
  obtain h' where h': "kheapFree h (NODE_TO_CONTENTS (b_addr ?b)) = Some (Inr h')"
    "heap_list h' (compact_blocks (?as @ ?b\<lparr>b_alloc := False\<rparr> # ?bs))"
    "agree_off (headers (?as @ ?b # ?bs)) (ram h) (ram h')" "root_node h' = root_node h"
    using kheapFree_block [OF hl] by metis
  have free: "?b\<lparr>b_alloc := False\<rparr> = top_block ns n" by (simp add: served_def top_block_def)
  have "no_adjacent_free (?b # ?bs)"
    using no_adjacent_free_stack [of "stack_top KHEAP_START (ns @ [n])" "k # ms"]
    by (simp add: served_def)
  then have "compact_blocks (top_block ns n # ?bs) = top_block ns n # ?bs"
    by (intro compact_blocks_fixed) simp
  moreover have "compact_blocks (?as @ top_block ns n # ?bs) = ?as @ compact_blocks (top_block ns n # ?bs)"
    by (rule compact_blocks_allocated_prefix) (use stack_blocks_alloc in blast)
  ultimately have "heap_list h' (?as @ top_block ns n # ?bs)" using h'(2) by (simp only: free)
  moreover have "live_contents (ns @ n # k # ms) \<inter> headers (?as @ ?b # ?bs) = {}"
    using hl live_contents_headers [of "ns @ n # k # ms" "top_block (ns @ n # k # ms) s" "[]"]
    by (simp add: heap_list_def all [symmetric] stack_list_def del: stack_blocks.simps)
  then have "same_live_data (ns @ n # k # ms) h h'"
    using agree_offD [OF h'(3)] unfolding same_live_data_def by blast
  moreover have "NODE_TO_CONTENTS (b_addr ?b) = stack_place ns"
    by (simp add: served_def top_block_def stack_place_def)
  ultimately show ?thesis using h' by auto
qed

lemma kheapRealloc_moves:
  assumes inv: "stack_heap h (ns @ n # k # ms)" and grow: "n < sz"
    and room: "stack_room (ns @ n # k # ms) sz"
  shows "\<exists>h' s. kheapRealloc h (stack_place ns) sz = Some (Inr (stack_place (ns @ n # k # ms), h'))
     \<and> heap_list h' (stack_blocks KHEAP_START ns @ top_block ns n #
          stack_blocks (stack_top KHEAP_START (ns @ [n])) (k # ms @ [sz])
          @ [top_block (ns @ n # k # ms @ [sz]) s])
     \<and> (\<forall>i < unat n. ram h' (stack_place (ns @ n # k # ms) + of_nat i)
          = ram h (stack_place ns + of_nat i))
     \<and> same_live_data (ns @ n # k # ms) h h'"
proof -
  let ?L = "ns @ n # k # ms" and ?b = "served (top_block ns 0) n"
  let ?node = "stack_top KHEAP_START ns" and ?ptr = "stack_place ns" and ?new = "stack_place (ns @ n # k # ms)"
  obtain s where s: "heap_list h (stack_list ?L s)" using inv by (auto simp: stack_heap_def)
  have blk: "?b \<in> set (stack_list (ns @ n # k # ms') s')" for ms' s'
    by (simp add: stack_list_def stack_blocks_at)
  have nd: "node_magic (ram h) ?node = KHEAP_MAGIC" "node_size (ram h) ?node = n"
    using node_of_block [OF s blk] by (simp_all add: node_at_def served_def top_block_def)
  let ?c = "\<lparr>b_addr = stack_top KHEAP_START (ns @ [n]), b_size = k, b_alloc = True\<rparr>"
  obtain cs where cs: "stack_list ?L s = stack_blocks KHEAP_START ns @ ?b # ?c # cs"
    by (simp add: stack_list_def stack_blocks_at)
  have nx: "node_next (ram h) ?node = b_addr ?c"
    using next_of_block [OF s [unfolded cs]] by (simp add: served_def top_block_def)
  have "node_at (ram h) ?c" by (rule node_of_block [OF s]) (simp add: cs)
  then have ts: "trailing_space (ram h) (node_next (ram h) ?node) 0 = Some (b_addr ?c, 0)"
    by (subst trailing_space.simps) (simp add: nx node_at_def)
  obtain h1 where h1: "kheapAlloc h sz = Some (Inr (?new, h1))" "stack_heap h1 (?L @ [sz])"
    "same_live_data ?L h h1" using kheapAlloc_stack [OF inv room] by blast
  then have inv1: "stack_heap h1 (ns @ n # (k # ms) @ [sz])" by simp
  obtain s1 where "heap_list h1 (stack_list (ns @ n # k # (ms @ [sz])) s1)"
    using inv1 by (auto simp: stack_heap_def)
  then have sz1: "node_size (ram h1) ?node = n"
    using node_of_block [OF _ blk] by (simp add: node_at_def served_def top_block_def)
  have le: "unat n \<le> unat sz" using grow by (simp add: word_less_nat_alt)
  let ?m1 = "fst (kmemcpy (ram h1) ?new ?ptr n)"
  note mv = stack_heap_move [OF inv1 le]
  have "stack_heap (h1\<lparr>ram := ?m1\<rparr>) (ns @ n # k # ms @ [sz])" using mv(1) by simp
  from kheapFree_middle [OF this] obtain h' s' where h': "kheapFree (h1\<lparr>ram := ?m1\<rparr>) ?ptr = Some (Inr h')"
    "heap_list h' (stack_blocks KHEAP_START ns @ top_block ns n #
          stack_blocks (stack_top KHEAP_START (ns @ [n])) (k # ms @ [sz])
          @ [top_block (ns @ n # k # ms @ [sz]) s'])"
    "same_live_data (ns @ n # k # ms @ [sz]) (h1\<lparr>ram := ?m1\<rparr>) h'" by blast
  have old: "ram h (?ptr + of_nat i) = ram h1 (?ptr + of_nat i)" if "i < unat n" for i
  proof -
    have "?ptr + of_nat i \<in> span ?ptr (unat n)"
      using that unat_lt_32 [of n] by (simp add: in_span unat_of_nat_32)
    then have "?ptr + of_nat i \<in> live_contents ?L" using contents_live by blast
    then show ?thesis using h1(3) by (simp add: same_live_data_def)
  qed
  have "kheapRealloc h ?ptr sz = Some (Inr (?new, h'))"
    using nd grow ts h1(1) sz1 h'(1)
    by (auto simp: kheapRealloc_def stack_place_def Let_def)
  moreover have "ram h' (?new + of_nat i) = ram h (?ptr + of_nat i)" if "i < unat n" for i
    using that mv(2,4) h'(3) old by (simp add: same_live_data_def)
  moreover have "same_live_data ?L h h'"
    using mv(3) h1(3) h'(3) live_contents_prefix [of ?L "[sz]"]
    by (auto simp: same_live_data_def)
  ultimately show ?thesis using h'(2) by blast
qed

end
