(* ===== verification/Kheap_Props.thy ===== *)
theory Kheap_Props
  imports Kheap_Realloc
begin

text \<open>
  The properties of the kernel heap, each with a concrete witness: what it guarantees to
  clients that release in reverse order, what release and reallocation do to the list of
  blocks, and the requests that it does not serve.
\<close>

section \<open>Sessions of a client\<close>

text \<open>
  The heaps a client reaches from \<open>kheapInit\<close> by requests that fit below the end of the
  heap, releases of the youngest block and writes into live blocks; the list holds the
  sizes of the live blocks, oldest first.
\<close>

inductive heap_reach :: "kheap \<Rightarrow> u32 list \<Rightarrow> bool" where
  Init: "heap_reach (kheapInit h) []"
| Alloc: "heap_reach h ns \<Longrightarrow> stack_room ns n \<Longrightarrow> kheapAlloc h n = Some (Inr (p, h')) \<Longrightarrow>
     heap_reach h' (ns @ [n])"
| Free: "heap_reach h (ns @ [n]) \<Longrightarrow> kheapFree h (stack_place ns) = Some (Inr h') \<Longrightarrow>
     heap_reach h' ns"
| Write: "heap_reach h ns \<Longrightarrow> agree_off (live_contents ns) (ram h) m' \<Longrightarrow>
     heap_reach (h\<lparr>ram := m'\<rparr>) ns"

lemma heap_reach_stack: "heap_reach h ns \<Longrightarrow> stack_heap h ns"
proof (induction rule: heap_reach.induct)
  case (Alloc h ns n p h')
  then show ?case using heap.alloc_top by fastforce
next
  case (Free h ns n h')
  then show ?case using heap.release_top by fastforce
qed (simp_all add: stack_heap_init stack_heap_write)

lemma heap_reach_Alloc:
  assumes "heap_reach h ns" and "stack_room ns n"
  obtains h' where "kheapAlloc h n = Some (Inr (stack_place ns, h'))" "heap_reach h' (ns @ [n])"
  using heap.alloc_top [OF heap_reach_stack [OF assms(1)] assms(2)]
    heap_reach.Alloc [OF assms] by blast

definition boot_heap :: kheap where
  "boot_heap = kheapInit \<lparr>ram = (\<lambda>_. 0), root_node = 0, console = []\<rparr>"

lemma boot_heap_reach: "heap_reach boot_heap []"
  by (simp add: boot_heap_def heap_reach.Init)

lemma boot_heap_two:
  assumes "stack_room [] n" and "stack_room [n] k"
  obtains h1 h2 where "kheapAlloc boot_heap n = Some (Inr (stack_place [], h1))"
    "kheapAlloc h1 k = Some (Inr (stack_place [n], h2))" "heap_reach h2 [n, k]"
  using heap_reach_Alloc [OF boot_heap_reach assms(1)] heap_reach_Alloc [OF _ assms(2)]
  by (metis append_Cons append_Nil)

text \<open>
  C1: In every heap a client reaches by last-in first-out use, a request that fits below
  \<open>KHEAP_END\<close> is served at the top of the stack and the release of the youngest block
  returns; neither panics or loops, and neither changes a byte of the blocks that stay live.
\<close>

theorem heap_stack_discipline:
  assumes "heap_reach h ns"
  shows "(\<forall>n. stack_room ns n \<longrightarrow>
      (\<exists>h'. kheapAlloc h n = Some (Inr (stack_place ns, h')) \<and> same_live_data ns h h'))
    \<and> (\<forall>ms k. ns = ms @ [k] \<longrightarrow>
      (\<exists>h'. kheapFree h (stack_place ms) = Some (Inr h') \<and> same_live_data ms h h'))"
  using heap.alloc_top heap.release_top heap_reach_stack [OF assms] by blast

theorem heap_stack_discipline_witness:
  "\<exists>h'. kheapAlloc boot_heap 64 = Some (Inr (0xf00000b, h'))"
proof -
  have "stack_room [] 64" by (simp add: stack_room_def layout)
  moreover have "stack_place [] = 0xf00000b"
    by (simp add: stack_place_def NODE_TO_CONTENTS_def KHEAP_START_def sizeof_HeapNode_def)
  ultimately show ?thesis using heap_stack_discipline [OF boot_heap_reach] by metis
qed



section \<open>Release\<close>

text \<open>
  C8: Releasing any block of a heap whose blocks follow each other returns, leaves a heap
  whose blocks follow each other and no two unallocated blocks are neighbours, leaves
  the allocated blocks but that one as they are, and changes only bytes of headers.
\<close>

theorem kheapFree_compacts:
  assumes "heap_list h (as @ b # bs)"
  shows "\<exists>h' cs. kheapFree h (NODE_TO_CONTENTS (b_addr b)) = Some (Inr h') \<and> heap_list h' cs
    \<and> no_adjacent_free cs \<and> allocated_blocks cs = allocated_blocks as @ allocated_blocks bs
    \<and> agree_off (headers (as @ b # bs)) (ram h) (ram h')"
proof -
  let ?cs = "compact_blocks (as @ b\<lparr>b_alloc := False\<rparr> # bs)"
  obtain h' where "kheapFree h (NODE_TO_CONTENTS (b_addr b)) = Some (Inr h')" "heap_list h' ?cs"
    "agree_off (headers (as @ b # bs)) (ram h) (ram h')"
    using kheapFree_block [OF assms] by metis
  then show ?thesis
    using compact_blocks_no_adjacent compact_blocks_allocated allocated_after_release by metis
qed

lemma two_blocks:
  assumes "heap_reach h [n, k]"
  obtains s where "heap_list h [served (top_block [] 0) n, served (top_block [n] 0) k, top_block [n, k] s]"
  using heap_reach_stack [OF assms]
  by (auto simp: stack_heap_def stack_list_def served_def top_block_def)

theorem kheapFree_compacts_witness:
  "\<exists>h h' cs. heap_reach h [16, 32] \<and> kheapFree h 0xf00000b = Some (Inr h') \<and> heap_list h' cs
     \<and> no_adjacent_free cs"
proof -
  obtain h1 h :: kheap where r: "heap_reach h [16, 32]"
    by (rule boot_heap_two [of 16 32]) (simp_all add: stack_room_def layout)
  then obtain s where
    "heap_list h ([] @ served (top_block [] 0) 16 # [served (top_block [16] 0) 32, top_block [16, 32] s])"
    by (auto elim: two_blocks)
  from kheapFree_compacts [OF this] have "\<exists>h' cs. kheapFree h (NODE_TO_CONTENTS KHEAP_START) = Some (Inr h')
     \<and> heap_list h' cs \<and> no_adjacent_free cs" by (auto simp: served_def top_block_def)
  then show ?thesis
    using r by (auto simp: NODE_TO_CONTENTS_def KHEAP_START_def sizeof_HeapNode_def)
qed


section \<open>Requests that are not served\<close>

text \<open>
  When no unallocated block is as large as the request, \<open>kheapAlloc\<close> panics with the
  out-of-space message; it neither loops nor hands out memory.
\<close>

theorem kheapAlloc_out_of_space:
  assumes "heap_list h bs" and "\<forall>b \<in> set bs. b_alloc b \<or> b_size b < n"
  shows "kheapAlloc h n = Some (Inl Heap_out_of_space)"
  by (rule kheapAlloc_exhausted [OF assms(1)]) (use assms(2) in \<open>auto simp: fits_request_def\<close>)

theorem kheapAlloc_out_of_space_witness:
  "kheapAlloc boot_heap 0xfffff5 = Some (Inl Heap_out_of_space)"
proof -
  have "heap_list boot_heap [initial_block]" unfolding boot_heap_def by (rule kheapInit_heap_list)
  then show ?thesis
    by (rule kheapAlloc_out_of_space)
      (simp add: initial_block_def KHEAP_END_def KHEAP_START_def sizeof_HeapNode_def)
qed


lemma released_first:
  assumes "heap_reach h [n, k]"
  obtains h' s where "kheapFree h (stack_place []) = Some (Inr h')"
    "heap_list h' [top_block [] n, served (top_block [n] 0) k, top_block [n, k] s]"
  using kheapFree_middle [of h "[]" n k "[]"] heap_reach_stack [OF assms]
  by (auto simp: served_def top_block_def)


text \<open>
  A smaller request served from a released block that has a successor leaves an
  unallocated block behind that covers the successor's header and the first \<open>2 n\<close> bytes
  after it, although it should end where the successor starts.
\<close>

theorem kheapAlloc_reuse_overruns:
  assumes "heap_list h (as @ a # b # bs)" and "no_adjacent_free (as @ a # b # bs)"
    and "\<forall>c \<in> set as. b_alloc c \<or> b_size c < n" and "\<not> b_alloc a"
    and "unat n + 11 \<le> unat (b_size a)" and "n \<noteq> 0" and "unat (b_size a) + unat n + 11 < 4294967296"
  shows "\<exists>h' c. kheapAlloc h n = Some (Inr (NODE_TO_CONTENTS (b_addr a), h'))
    \<and> path (ram h') (root_node h') (as @ served a n # c # b # bs) 0 \<and> \<not> b_alloc c
    \<and> block_end c = unat (b_addr b) + 11 + 2 * unat n"
proof -
  have "\<forall>c \<in> set as. \<not> fits_request n c" using assms(3) by (auto simp: fits_request_def)
  from kheapAlloc_reuse_overlaps [OF assms(1,2) this assms(4-7)] show ?thesis
    by (metis block.select_convs(3))
qed

theorem kheapAlloc_reuse_overruns_witness:
  "\<exists>h h' c s. heap_list h [top_block [] 64, served (top_block [64] 0) 32, top_block [64, 32] s]
     \<and> kheapAlloc h 16 = Some (Inr (0xf00000b, h'))
     \<and> path (ram h') (root_node h') [served (top_block [] 64) 16, c,
          served (top_block [64] 0) 32, top_block [64, 32] s] 0
     \<and> block_end c = unat (b_addr (top_block [64] 0)) + 43"
proof -
  obtain h1 h2 :: kheap where h: "heap_reach h2 [64, 32]"
    by (rule boot_heap_two [of 64 32]) (simp_all add: stack_room_def layout)
  obtain h3 s where f:
    "heap_list h3 ([] @ top_block [] 64 # served (top_block [64] 0) 32 # [top_block [64, 32] s])"
    by (rule released_first [OF h]) auto
  have "\<exists>h' c. kheapAlloc h3 16 = Some (Inr (NODE_TO_CONTENTS (b_addr (top_block [] 64)), h'))
    \<and> path (ram h') (root_node h') ([] @ served (top_block [] 64) 16 # c #
        served (top_block [64] 0) 32 # [top_block [64, 32] s]) 0 \<and> \<not> b_alloc c
    \<and> block_end c = unat (b_addr (served (top_block [64] 0) 32)) + 11 + 2 * unat (16 :: u32)"
    by (rule kheapAlloc_reuse_overruns [OF f]) (simp_all add: top_block_def served_def)
  then obtain h' c where c: "kheapAlloc h3 16 = Some (Inr (NODE_TO_CONTENTS (b_addr (top_block [] 64)), h'))"
    "path (ram h') (root_node h') [served (top_block [] 64) 16, c,
        served (top_block [64] 0) 32, top_block [64, 32] s] 0"
    "block_end c = unat (b_addr (served (top_block [64] 0) 32)) + 11 + 2 * unat (16 :: u32)"
    by (auto simp del: path.simps)
  have "NODE_TO_CONTENTS (b_addr (top_block [] 64)) = 0xf00000b"
    by (simp add: top_block_def NODE_TO_CONTENTS_def KHEAP_START_def sizeof_HeapNode_def)
  moreover have "b_addr (served (top_block [64] 0) 32) = b_addr (top_block [64] 0)"
    by (simp add: served_def)
  ultimately show ?thesis using f c by (intro exI [of _ h3] exI [of _ h'] exI [of _ c] exI [of _ s]) simp
qed

section \<open>Reallocation\<close>

text \<open>
  \<open>kheapRealloc\<close> to a size between the block's size less eleven bytes and the block's
  size returns the same pointer and leaves the heap exactly as it was.
\<close>

theorem kheapRealloc_keeps:
  assumes "heap_list h bs" and "b \<in> set bs" and "sz \<noteq> 0" and "sz \<le> b_size b"
    and "unat (b_size b) < unat sz + 12"
  shows "kheapRealloc h (NODE_TO_CONTENTS (b_addr b)) sz = Some (Inr (NODE_TO_CONTENTS (b_addr b), h))"
  by (rule kheapRealloc_kept [OF assms])

theorem kheapRealloc_keeps_witness:
  "\<exists>h. heap_reach h [16, 32] \<and> kheapRealloc h 0xf00000b 5 = Some (Inr (0xf00000b, h))"
proof -
  obtain h1 h :: kheap where r: "heap_reach h [16, 32]"
    by (rule boot_heap_two [of 16 32]) (simp_all add: stack_room_def layout)
  then obtain s where hl:
    "heap_list h [served (top_block [] 0) 16, served (top_block [16] 0) 32, top_block [16, 32] s]"
    by (rule two_blocks)
  have "kheapRealloc h (NODE_TO_CONTENTS (b_addr (served (top_block [] 0) 16))) 5
      = Some (Inr (NODE_TO_CONTENTS (b_addr (served (top_block [] 0) 16)), h))"
    by (rule kheapRealloc_keeps [OF hl]) (simp_all add: served_def)
  then show ?thesis
    using r by (auto simp: served_def top_block_def NODE_TO_CONTENTS_def KHEAP_START_def
        sizeof_HeapNode_def)
qed

text \<open>
  C9: \<open>kheapRealloc\<close> of a live block to a larger size, where the next block is live too,
  serves the request at the top of the stack, copies every byte of the old contents there,
  marks the old block unallocated, and changes no byte of the data of the live blocks.
\<close>

theorem kheapRealloc_moves_data:
  assumes "heap_reach h (ns @ n # k # ms)" and "n < sz" and "stack_room (ns @ n # k # ms) sz"
  shows "\<exists>h' s. kheapRealloc h (stack_place ns) sz = Some (Inr (stack_place (ns @ n # k # ms), h'))
     \<and> heap_list h' (stack_blocks KHEAP_START ns @ top_block ns n #
          stack_blocks (stack_top KHEAP_START (ns @ [n])) (k # ms @ [sz])
          @ [top_block (ns @ n # k # ms @ [sz]) s])
     \<and> (\<forall>i < unat n. ram h' (stack_place (ns @ n # k # ms) + of_nat i)
          = ram h (stack_place ns + of_nat i))
     \<and> same_live_data (ns @ n # k # ms) h h'"
  by (rule kheapRealloc_moves [OF heap_reach_stack [OF assms(1)] assms(2,3)])

theorem kheapRealloc_moves_data_witness:
  "\<exists>h h'. heap_reach h [16, 32] \<and> kheapRealloc h 0xf00000b 100 = Some (Inr (stack_place [16, 32], h'))
     \<and> (\<forall>i < 16. ram h' (stack_place [16, 32] + of_nat i) = ram h (0xf00000b + of_nat i))"
proof -
  obtain h1 h :: kheap where r: "heap_reach h ([] @ 16 # 32 # [])"
    by (rule boot_heap_two [of 16 32]) (simp_all add: stack_room_def layout)
  have p: "stack_place [] = 0xf00000b"
    by (simp add: stack_place_def NODE_TO_CONTENTS_def KHEAP_START_def sizeof_HeapNode_def)
  show ?thesis
    using kheapRealloc_moves_data [OF r, of 100] r by (auto simp: stack_room_def layout p)
qed

end
