(* ===== verification/Paging.thy ===== *)
theory Paging
  imports Cmem Kstdio
begin

text \<open>
  Physical frames and the page directory (\<open>src/memory.c\<close>): 4 MiB frames, a bitmap of
  the frames in use, the RAM regions read from the boot loader's memory map and the page
  fault handler that maps a faulting page to a free frame. The directory, the bitmap and
  the region table are lists updated by index; an access outside them, which is undefined
  behaviour in C, is \<open>None\<close>. A panic (a message, then a loop without end) is \<open>Inl\<close>.
\<close>

section \<open>Directory entries\<close>

datatype PageSize = PAGE_SIZE_4_KIB | PAGE_SIZE_4_MIB
datatype PageRW = PAGE_READ_ONLY | PAGE_READ_WRITE
datatype PagePermission = PAGE_SUPERVISOR_ONLY | PAGE_USER_AND_SUPERVISOR

datatype page_panic = Bad_PFN | Out_of_frames | No_memory_map

fun page_panic_message :: "page_panic \<Rightarrow> string" where
  "page_panic_message Bad_PFN = ''constructPageDirEntry received a bad PFN!\<newline>''"
| "page_panic_message Out_of_frames = ''Ran out of physical memory!''"
| "page_panic_message No_memory_map = ''GRUB did not provide memory information. Failure.\<newline>''"

definition FRAME_SIZE :: u32 where "FRAME_SIZE = 4 * 1024 * 1024"

definition constructPageDirEntry ::
    "u32 \<Rightarrow> PageSize \<Rightarrow> PageRW \<Rightarrow> PagePermission \<Rightarrow> page_panic + u32" where
  "constructPageDirEntry pfn page_size rw permission =
     (if pfn \<ge> 0x40000 then Inl Bad_PFN
      else Inr (push_bit 22 pfn
        OR (if page_size = PAGE_SIZE_4_MIB then lsh1 7 else 0)
        OR (if rw = PAGE_READ_WRITE then lsh1 1 else 0)
        OR (if permission = PAGE_USER_AND_SUPERVISOR then lsh1 2 else 0)
        OR 1))"

definition constructEmptyPageDirEntry ::
    "PageSize \<Rightarrow> PageRW \<Rightarrow> PagePermission \<Rightarrow> page_panic + u32" where
  "constructEmptyPageDirEntry page_size rw permission =
     map_sum id (\<lambda>entry. entry AND NOT 1) (constructPageDirEntry 0 page_size rw permission)"

definition getVirtualFrameNumber :: "u32 \<Rightarrow> u32" where
  "getVirtualFrameNumber virtual_address = drop_bit 22 virtual_address"

definition get_physical_frame_number :: "u32 \<Rightarrow> u32" where
  "get_physical_frame_number physical_address = drop_bit 22 physical_address"

section \<open>The frame map\<close>

definition is_frame_used :: "u32 list \<Rightarrow> u32 \<Rightarrow> bool option" where
  "is_frame_used words pfn =
     map_option (\<lambda>w. w AND lsh1 (unat (pfn mod 32)) \<noteq> 0) (nth_opt words (unat (pfn div 32)))"

definition setFrameUsed :: "u32 list \<Rightarrow> u32 \<Rightarrow> u32 list option" where
  "setFrameUsed words pfn =
     Option.bind (nth_opt words (unat (pfn div 32)))
       (\<lambda>w. update_opt words (unat (pfn div 32)) (w OR lsh1 (unat (pfn mod 32))))"

section \<open>State\<close>

record region =
  r_address :: u32
  r_size :: u32

record paging =
  page_directory :: "u32 list"
  page_frame_words :: "u32 list"
  physical_memory_regions :: "region list"
  physical_memory_region_count :: u32
  paging_enabled :: bool
  tlb_flushes :: nat
  paging_console :: string

definition MAX_PHYSICAL_MEMORY_REGIONS :: nat where "MAX_PHYSICAL_MEMORY_REGIONS = 16"

section \<open>Page faults\<close>

text \<open>
  The whole frames of a region: the address of the first and their number, which the code
  keeps in a \<open>uint8_t\<close>; \<open>None\<close> for a region the code skips.
\<close>

definition region_frames :: "region \<Rightarrow> (u32 \<times> u8) option" where
  "region_frames region =
     (let frame_start = (r_address region AND NOT (FRAME_SIZE - 1)) + FRAME_SIZE
      in if frame_start > r_address region + r_size region then None
         else let remaining_size = r_size region - (frame_start - r_address region)
              in Some (frame_start, ucast (remaining_size div FRAME_SIZE)))"

text \<open>The loops return the frame they jump out with, if they do.\<close>

fun scan_frames :: "u32 list \<Rightarrow> u32 \<Rightarrow> nat \<Rightarrow> u32 \<Rightarrow> u32 option option" where
  "scan_frames words frame_start 0 frame = Some None"
| "scan_frames words frame_start (Suc n) frame =
     (let pfn = get_physical_frame_number (frame_start + frame * FRAME_SIZE)
      in case is_frame_used words pfn of
           None \<Rightarrow> None
         | Some False \<Rightarrow> Some (Some pfn)
         | Some True \<Rightarrow> scan_frames words frame_start n (frame + 1))"

function scan_regions :: "u32 list \<Rightarrow> region list \<Rightarrow> u32 \<Rightarrow> nat \<Rightarrow> u32 option option" where
  "scan_regions words regions count region_index =
     (if region_index < unat count then
        (case nth_opt regions region_index of
           None \<Rightarrow> None
         | Some region \<Rightarrow>
             (case region_frames region of
                None \<Rightarrow> scan_regions words regions count (region_index + 1)
              | Some (frame_start, frame_count) \<Rightarrow>
                  (case scan_frames words frame_start (unat frame_count) 0 of
                     None \<Rightarrow> None
                   | Some (Some pfn) \<Rightarrow> Some (Some pfn)
                   | Some None \<Rightarrow> scan_regions words regions count (region_index + 1))))
      else Some None)"
  by pat_completeness auto
termination
  by (relation "measure (\<lambda>(words, regions, count, i). unat count - i)") auto

declare scan_regions.simps [simp del]

definition handle_page_fault :: "paging \<Rightarrow> u32 \<Rightarrow> (page_panic + paging) option" where
  "handle_page_fault st fault_address =
     (case scan_regions (page_frame_words st) (physical_memory_regions st)
             (physical_memory_region_count st) 0 of
        None \<Rightarrow> None
      | Some None \<Rightarrow> Some (Inl Out_of_frames)
      | Some (Some pfn) \<Rightarrow>
          Option.bind (setFrameUsed (page_frame_words st) pfn) (\<lambda>words.
            case constructPageDirEntry pfn PAGE_SIZE_4_MIB PAGE_READ_WRITE PAGE_USER_AND_SUPERVISOR of
              Inl e \<Rightarrow> Some (Inl e)
            | Inr entry \<Rightarrow>
                map_option (\<lambda>dir. Inr (st\<lparr>page_frame_words := words, page_directory := dir,
                    tlb_flushes := tlb_flushes st + 1\<rparr>))
                  (update_opt (page_directory st) (unat (getVirtualFrameNumber fault_address)) entry)))"

section \<open>The boot loader's memory map\<close>

text \<open>Descriptor fields, packed: size, base (low, high), length (low, high), type.\<close>

definition desc_size :: "mem \<Rightarrow> addr \<Rightarrow> u32" where "desc_size m a = rd32 m a"
definition desc_base_addr_low :: "mem \<Rightarrow> addr \<Rightarrow> u32" where "desc_base_addr_low m a = rd32 m (a + 4)"
definition desc_length_low :: "mem \<Rightarrow> addr \<Rightarrow> u32" where "desc_length_low m a = rd32 m (a + 12)"
definition desc_region_type :: "mem \<Rightarrow> addr \<Rightarrow> u32" where "desc_region_type m a = rd32 m (a + 20)"

definition info_flags :: "mem \<Rightarrow> addr \<Rightarrow> u32" where "info_flags m a = rd32 m a"
definition info_mmap_length :: "mem \<Rightarrow> addr \<Rightarrow> u32" where "info_mmap_length m a = rd32 m (a + 44)"
definition info_mmap_addr :: "mem \<Rightarrow> addr \<Rightarrow> u32" where "info_mmap_addr m a = rd32 m (a + 48)"

definition region_line :: "u32 \<Rightarrow> u32 \<Rightarrow> u32 \<Rightarrow> string option" where
  "region_line region_type base len = kprintf ''%s from: %x to %x\<newline>''
     [Va_str (if region_type = 1 then ''RAM   '' else ''No RAM''), Va_int base, Va_int (base + len)]"

partial_function (option) load_regions_loop ::
    "mem \<Rightarrow> u32 \<Rightarrow> addr \<Rightarrow> u32 \<Rightarrow> paging \<Rightarrow> paging option" where
  "load_regions_loop m mmap_length region traversed_size st =
     (if traversed_size < mmap_length then
        Option.bind (region_line (desc_region_type m region) (desc_base_addr_low m region)
            (desc_length_low m region)) (\<lambda>line.
          let st1 = st\<lparr>paging_console := paging_console st @ line\<rparr>;
              next_traversed = traversed_size + (desc_size m region + 4);
              next_region = region + desc_size m region + 4
          in if desc_region_type m region = 1 then
               Option.bind (update_opt (physical_memory_regions st1)
                   (unat (physical_memory_region_count st1))
                   \<lparr>r_address = desc_base_addr_low m region, r_size = desc_length_low m region\<rparr>)
                 (\<lambda>regions. load_regions_loop m mmap_length next_region next_traversed
                   (st1\<lparr>physical_memory_regions := regions,
                        physical_memory_region_count := physical_memory_region_count st1 + 1\<rparr>))
             else load_regions_loop m mmap_length next_region next_traversed st1)
      else Some st)"

definition loadPhysicalMemoryRegionDescriptors ::
    "mem \<Rightarrow> addr \<Rightarrow> paging \<Rightarrow> (page_panic + paging) option" where
  "loadPhysicalMemoryRegionDescriptors m multiboot_info st =
     (if info_flags m multiboot_info AND lsh1 6 = 0 then Some (Inl No_memory_map)
      else map_option (\<lambda>st'. Inr (st'\<lparr>paging_console :=
               paging_console st' @ ''====================\<newline>''\<rparr>))
             (load_regions_loop m (info_mmap_length m multiboot_info)
               (info_mmap_addr m multiboot_info) 0
               (st\<lparr>paging_console := paging_console st @ ''==== MEMORY MAP ====\<newline>'',
                   physical_memory_region_count := 0\<rparr>)))"

section \<open>Set-up\<close>

definition setupPaging :: "paging \<Rightarrow> (page_panic + paging) option" where
  "setupPaging st =
     (let dir0 = map (\<lambda>_. 0) (page_directory st);
          words0 = map (\<lambda>_. 0) (page_frame_words st)
      in case constructPageDirEntry 0 PAGE_SIZE_4_MIB PAGE_READ_WRITE PAGE_USER_AND_SUPERVISOR of
           Inl e \<Rightarrow> Some (Inl e)
         | Inr entry \<Rightarrow>
             Option.bind (update_opt dir0 0 entry) (\<lambda>dir1.
             Option.bind (nth_opt words0 0) (\<lambda>w.
             map_option (\<lambda>words1. Inr (st\<lparr>page_directory := dir1, page_frame_words := words1,
                 paging_enabled := True\<rparr>))
               (update_opt words0 0 (w OR lsh1 0)))))"

end
