(* ===== verification/Bitmap.thy ===== *)
theory Bitmap
  imports Prelude
begin

text \<open>
  The contract of an allocation bitmap, and the invariant its clients keep: a table of
  owners, each of a different unit, all of them marked. The frame map of the paging code
  and the page bitmap of the file system both provide it.
\<close>

locale bitmap =
  fixes valid :: "'s \<Rightarrow> 'i \<Rightarrow> bool"
    and used :: "'s \<Rightarrow> 'i \<Rightarrow> bool"
    and mark :: "'s \<Rightarrow> 'i \<Rightarrow> 's"
  assumes used_mark: "valid s i \<Longrightarrow> valid s j \<Longrightarrow> used (mark s i) j \<longleftrightarrow> i = j \<or> used s j"
    and valid_mark: "valid s i \<Longrightarrow> valid (mark s i) j \<longleftrightarrow> valid s j"
begin

definition used_set :: "'s \<Rightarrow> 'i set" where
  "used_set s = {i. valid s i \<and> used s i}"

lemma used_set_mark: "valid s i \<Longrightarrow> used_set (mark s i) = insert i (used_set s)"
  by (auto simp: used_set_def used_mark valid_mark)

lemma mark_keeps: "valid s i \<Longrightarrow> valid s j \<Longrightarrow> used s j \<Longrightarrow> used (mark s i) j"
  by (simp add: used_mark)

text \<open>Owners hold different units, and every unit held is marked.\<close>

definition owned :: "'s \<Rightarrow> ('k \<Rightarrow> 'i option) \<Rightarrow> bool" where
  "owned s f \<longleftrightarrow> ran f \<subseteq> used_set s \<and> inj_on f (dom f)"

lemma owned_distinct: "owned s f \<Longrightarrow> f k = Some i \<Longrightarrow> f l = Some i \<Longrightarrow> k = l"
  unfolding owned_def inj_on_def by (metis domI)

lemma owned_used: "owned s f \<Longrightarrow> f k = Some i \<Longrightarrow> valid s i \<and> used s i"
  by (auto simp: owned_def used_set_def ran_def)

lemma owned_empty: "owned s (\<lambda>_. None)"
  by (simp add: owned_def)

text \<open>Giving an unmarked unit to an owner, and marking it, keeps the table.\<close>

lemma owned_assign:
  assumes "owned s f" and "valid s i" and "\<not> used s i"
  shows "owned (mark s i) (f(k \<mapsto> i))"
proof -
  have "i \<notin> ran f" using assms(1,3) by (auto simp: owned_def used_set_def)
  then have "inj_on (f(k \<mapsto> i)) (dom (f(k \<mapsto> i)))"
    using assms(1) unfolding owned_def inj_on_def
    by (metis (mono_tags, lifting) domIff fun_upd_apply option.inject ranI domD option.distinct(1))
  moreover have "ran (f(k \<mapsto> i)) \<subseteq> insert i (ran f)" by (auto simp: ran_def)
  ultimately show ?thesis using assms(1,2) by (auto simp: owned_def used_set_mark)
qed

lemma owned_mark: "owned s f \<Longrightarrow> valid s i \<Longrightarrow> owned (mark s i) f"
  by (auto simp: owned_def used_set_mark)

end

end
