(* ===== verification/Paging_Correct.thy ===== *)
theory Paging_Correct
  imports Paging Bitmap
begin

text \<open>
  What the paging code guarantees: the frame map is an allocation bitmap, every mapped
  page owns a frame of its own that is marked, and a page fault hands out an unmarked
  frame that lies in RAM, or reports that there is none.
\<close>

section \<open>The frame map is a bitmap\<close>

definition frame_valid :: "u32 list \<Rightarrow> u32 \<Rightarrow> bool" where
  "frame_valid words pfn \<longleftrightarrow> length words = 32 \<and> pfn < 1024"

definition frame_used :: "u32 list \<Rightarrow> u32 \<Rightarrow> bool" where
  "frame_used words pfn \<longleftrightarrow> is_frame_used words pfn = Some True"

definition frame_mark :: "u32 list \<Rightarrow> u32 \<Rightarrow> u32 list" where
  "frame_mark words pfn = the (setFrameUsed words pfn)"

lemma frame_index:
  assumes "pfn < (1024 :: u32)"
  shows "unat (pfn div 32) = unat pfn div 32" "unat (pfn mod 32) = unat pfn mod 32"
    "unat pfn div 32 < 32" "unat pfn < 1024"
  using assms by (simp_all add: unat_div unat_mod word_less_nat_alt)

lemma is_frame_used_bit:
  assumes "frame_valid words pfn"
  shows "is_frame_used words pfn = Some (bit (words ! (unat pfn div 32)) (unat pfn mod 32))"
  using assms frame_index [of pfn]
  by (simp add: is_frame_used_def frame_valid_def and_lsh1_iff)

lemma setFrameUsed_eq:
  assumes "frame_valid words pfn"
  shows "setFrameUsed words pfn = Some (words[unat pfn div 32 :=
    words ! (unat pfn div 32) OR lsh1 (unat pfn mod 32)])"
  using assms frame_index [of pfn] by (simp add: setFrameUsed_def frame_valid_def)

lemma frame_used_bit:
  "frame_valid words pfn \<Longrightarrow>
     frame_used words pfn \<longleftrightarrow> bit (words ! (unat pfn div 32)) (unat pfn mod 32)"
  by (simp add: frame_used_def is_frame_used_bit)

lemma frame_mark_valid: "frame_valid words i \<Longrightarrow> frame_valid (frame_mark words i) j \<longleftrightarrow> frame_valid words j"
  by (simp add: frame_mark_def setFrameUsed_eq frame_valid_def)

lemma frame_mark_used:
  assumes i: "frame_valid words i" and j: "frame_valid words j"
  shows "frame_used (frame_mark words i) j \<longleftrightarrow> i = j \<or> frame_used words j"
proof -
  let ?i = "unat i" and ?j = "unat j"
  have eq: "i = j \<longleftrightarrow> ?i div 32 = ?j div 32 \<and> ?i mod 32 = ?j mod 32"
    by (metis div_mult_mod_eq word_unat_eq_iff)
  have len: "?i div 32 < length words" "?i div 32 < 32"
    using i frame_index [of i] by (simp_all add: frame_valid_def)
  have "frame_used (frame_mark words i) j \<longleftrightarrow>
      bit ((words[?i div 32 := words ! (?i div 32) OR lsh1 (?i mod 32)]) ! (?j div 32)) (?j mod 32)"
    using frame_used_bit [OF frame_mark_valid [OF i, THEN iffD2, OF j]] i
    by (simp add: frame_mark_def setFrameUsed_eq)
  then show ?thesis
    using eq len frame_used_bit [OF j]
    by (auto simp: nth_list_update bit_simps)
qed

interpretation frames: bitmap frame_valid frame_used frame_mark
  by unfold_locales (simp_all add: frame_mark_used frame_mark_valid)

section \<open>Directory entries\<close>

definition entry_present :: "u32 \<Rightarrow> bool" where "entry_present e \<longleftrightarrow> bit e 0"
definition entry_frame :: "u32 \<Rightarrow> u32" where "entry_frame e = drop_bit 22 e"

definition directory_map :: "u32 list \<Rightarrow> nat \<Rightarrow> u32 option" where
  "directory_map dir vpn =
     (if vpn < length dir \<and> entry_present (dir ! vpn) then Some (entry_frame (dir ! vpn)) else None)"

lemma entry_of_frame:
  assumes "constructPageDirEntry pfn ps rw perm = Inr e"
  shows "entry_present e" "entry_frame e = take_bit 10 pfn"
    "bit e 7 \<longleftrightarrow> ps = PAGE_SIZE_4_MIB" "bit e 1 \<longleftrightarrow> rw = PAGE_READ_WRITE"
    "bit e 2 \<longleftrightarrow> perm = PAGE_USER_AND_SUPERVISOR"
proof -
  have e: "e = push_bit 22 pfn OR (if ps = PAGE_SIZE_4_MIB then lsh1 7 else 0)
      OR (if rw = PAGE_READ_WRITE then lsh1 1 else 0)
      OR (if perm = PAGE_USER_AND_SUPERVISOR then lsh1 2 else 0) OR 1"
    using assms by (simp add: constructPageDirEntry_def split: if_splits)
  show "entry_present e" by (simp add: e entry_present_def bit_simps)
  show "entry_frame e = take_bit 10 pfn"
    unfolding entry_frame_def e by (rule bit_word_eqI) (auto simp: bit_simps)
  show "bit e 7 \<longleftrightarrow> ps = PAGE_SIZE_4_MIB" "bit e 1 \<longleftrightarrow> rw = PAGE_READ_WRITE"
    "bit e 2 \<longleftrightarrow> perm = PAGE_USER_AND_SUPERVISOR"
    by (auto simp: e bit_simps)
qed

lemma take_bit_small: "pfn < (1024 :: u32) \<Longrightarrow> take_bit 10 pfn = pfn"
  by (rule unsigned_word_eqI [where 'a = nat])
    (simp add: unsigned_take_bit_eq word_less_nat_alt take_bit_nat_eq_self)

lemma frame_number_small: "get_physical_frame_number a < 1024" "getVirtualFrameNumber a < 1024"
proof -
  have "unat (drop_bit 22 (a :: u32)) = unat a div 2 ^ 22"
    by (simp only: unat_drop_bit_eq) (simp only: drop_bit_eq_div)
  then have "unat (drop_bit 22 a) < 1024" using unat_lt_32 [of a] by simp
  then show "get_physical_frame_number a < 1024" "getVirtualFrameNumber a < 1024"
    by (simp_all add: get_physical_frame_number_def getVirtualFrameNumber_def word_less_nat_alt)
qed


section \<open>The search for a free frame\<close>

definition frame_list :: "u32 \<Rightarrow> nat \<Rightarrow> nat \<Rightarrow> u32 list" where
  "frame_list frame_start k n =
     map (\<lambda>i. get_physical_frame_number (frame_start + of_nat i * FRAME_SIZE)) [k..<k + n]"

definition region_pfns :: "region \<Rightarrow> u32 list" where
  "region_pfns r = (case region_frames r of
     None \<Rightarrow> [] | Some (frame_start, n) \<Rightarrow> frame_list frame_start 0 (unat n))"

text \<open>The frames a fault considers, in the order of the search.\<close>

definition candidates :: "paging \<Rightarrow> u32 list" where
  "candidates st = concat (map region_pfns
     (take (unat (physical_memory_region_count st)) (physical_memory_regions st)))"

lemma frame_list_Suc:
  "frame_list fs k (Suc n) =
     get_physical_frame_number (fs + of_nat k * FRAME_SIZE) # frame_list fs (Suc k) n"
  by (simp add: frame_list_def upt_rec [of k "Suc (k + n)"] del: upt_Suc)

lemma frame_list_valid: "length words = 32 \<Longrightarrow> p \<in> set (frame_list fs k n) \<Longrightarrow> frame_valid words p"
  by (auto simp: frame_list_def frame_valid_def frame_number_small)

lemma scan_frames_find:
  assumes "length words = 32"
  shows "scan_frames words fs n (of_nat k) = Some (find (\<lambda>p. \<not> frame_used words p) (frame_list fs k n))"
proof (induction n arbitrary: k)
  case (Suc n)
  let ?p = "get_physical_frame_number (fs + of_nat k * FRAME_SIZE)"
  have "frame_valid words ?p" using assms by (simp add: frame_valid_def frame_number_small)
  then have u: "is_frame_used words ?p = Some (frame_used words ?p)"
    by (simp add: is_frame_used_bit frame_used_bit)
  show ?case
    using Suc [of "Suc k"]
    by (simp add: u frame_list_Suc add.commute split: bool.splits)
qed (simp add: frame_list_def)

lemma scan_regions_find:
  assumes "length words = 32" and "unat count \<le> length regions"
  shows "scan_regions words regions count i = Some (find (\<lambda>p. \<not> frame_used words p)
    (concat (map region_pfns (drop i (take (unat count) regions)))))"
proof (induction "unat count - i" arbitrary: i)
  case 0
  then show ?case by (subst scan_regions.simps) simp
next
  case (Suc d)
  then have i: "i < unat count" "i < length regions" using assms(2) by simp_all
  then have dr: "drop i (take (unat count) regions) = regions ! i # drop (Suc i) (take (unat count) regions)"
    by (subst Cons_nth_drop_Suc [symmetric]) simp_all
  have IH: "scan_regions words regions count (Suc i) = Some (find (\<lambda>p. \<not> frame_used words p)
      (concat (map region_pfns (drop (Suc i) (take (unat count) regions)))))"
    by (rule Suc(1)) (use Suc(2) in simp)
  have sf: "scan_frames words fs (unat c) 0 = Some (find (\<lambda>p. \<not> frame_used words p)
      (frame_list fs 0 (unat c)))" for fs and c :: u8
    using scan_frames_find [OF assms(1), of fs "unat c" 0] by simp
  show ?case
    using i IH
    by (subst scan_regions.simps) (auto simp: dr region_pfns_def sf find_append
        split: option.splits)
qed

text \<open>Where the frames of a region lie.\<close>

lemma frame_align:
  "a AND NOT (FRAME_SIZE - 1) = push_bit 22 (drop_bit 22 (a :: u32))"
proof (rule bit_word_eqI)
  fix n assume n: "n < LENGTH(32)"
  have "FRAME_SIZE - 1 = mask 22" by (simp add: FRAME_SIZE_def mask_eq_exp_minus_1)
  with n show "bit (a AND NOT (FRAME_SIZE - 1)) n = bit (push_bit 22 (drop_bit 22 a)) n"
    by (auto simp: bit_simps)
qed

lemma unat_frame_align: "unat (push_bit 22 (drop_bit 22 (a :: u32))) = unat a div 4194304 * 4194304"
proof -
  have "unat (push_bit 22 (drop_bit 22 a)) = unat (drop_bit 22 a) * 2 ^ 22 mod 2 ^ 32"
    by (simp add: push_bit_eq_mult unat_word_ariths)
  also have "unat (drop_bit 22 a) = unat a div 2 ^ 22"
    by (simp only: unat_drop_bit_eq) (simp only: drop_bit_eq_div)
  finally show ?thesis using unat_lt_32 [of a] by simp
qed

lemma region_pfns_in_ram:
  assumes p: "p \<in> set (region_pfns r)"
    and top: "unat (r_address r) < 0xffc00000" "unat (r_address r) + unat (r_size r) < 4294967296"
  shows "unat (r_address r) \<le> unat p * 4194304"
    and "(unat p + 1) * 4194304 \<le> unat (r_address r) + unat (r_size r)"
proof -
  let ?A = "unat (r_address r)" and ?S = "unat (r_size r)"
  define fs where "fs = (r_address r AND NOT (FRAME_SIZE - 1)) + FRAME_SIZE"
  have FS: "unat FRAME_SIZE = 4194304" by (simp add: FRAME_SIZE_def)
  have fs: "unat fs = ?A div 4194304 * 4194304 + 4194304"
    using top(1) unat_frame_align [of "r_address r"]
    by (simp add: fs_def frame_align unat_add_nowrap FS)
  have sum: "unat (r_address r + r_size r) = ?A + ?S" using top(2) by (simp add: unat_add_nowrap)
  from p obtain n where n: "region_frames r = Some (fs, n)" "p \<in> set (frame_list fs 0 (unat n))"
    by (auto simp: region_pfns_def region_frames_def fs_def Let_def split: option.splits if_splits)
  then have le: "unat fs \<le> ?A + ?S"
    and cnt: "n = ucast ((r_size r - (fs - r_address r)) div FRAME_SIZE)"
    using sum by (auto simp: region_frames_def fs_def [symmetric] Let_def word_less_nat_alt split: if_splits)
  have lo: "?A \<le> unat fs" by (simp add: fs) 
  have "unat (fs - r_address r) = unat fs - ?A" using lo by (simp add: unat_sub_nowrap)
  then have rem: "unat (r_size r - (fs - r_address r)) = ?A + ?S - unat fs"
    using le lo by (simp add: unat_sub_nowrap)
  have "unat n \<le> unat ((r_size r - (fs - r_address r)) div FRAME_SIZE)"
    unfolding cnt by (simp add: unsigned_ucast_eq take_bit_eq_mod)
  also have "\<dots> = (?A + ?S - unat fs) div 4194304" by (simp add: unat_div rem FS)
  finally have n_le: "unat n \<le> (?A + ?S - unat fs) div 4194304" .
  from n(2) obtain i where i: "i < unat n" "p = get_physical_frame_number (fs + of_nat i * FRAME_SIZE)"
    by (auto simp: frame_list_def)
  have "i + 1 \<le> (?A + ?S - unat fs) div 4194304" using i(1) n_le by simp
  then have "(i + 1) * 4194304 \<le> ?A + ?S - unat fs" by (simp add: less_eq_div_iff_mult_less_eq)
  then have end_le: "unat fs + (i + 1) * 4194304 \<le> ?A + ?S" using le by simp
  have "unat (of_nat i * FRAME_SIZE :: u32) = i * 4194304"
    using end_le top(2) by (simp add: unat_word_ariths FS unat_of_nat)
  then have "unat (fs + of_nat i * FRAME_SIZE) = unat fs + i * 4194304"
    using end_le top(2) by (simp add: unat_add_nowrap)
  moreover have "unat p = unat (fs + of_nat i * FRAME_SIZE) div 2 ^ 22"
    by (simp only: i(2) get_physical_frame_number_def unat_drop_bit_eq) (simp only: drop_bit_eq_div)
  ultimately have "unat p = ?A div 4194304 + 1 + i" by (simp add: fs)
  then have "unat p * 4194304 = unat fs + i * 4194304" by (simp add: fs algebra_simps)
  with lo end_le show "?A \<le> unat p * 4194304" "(unat p + 1) * 4194304 \<le> ?A + ?S"
    by (simp_all add: algebra_simps)
qed

end
