(* ===== verification/Paging_Props.thy ===== *)
theory Paging_Props
  imports Paging_Correct
begin

text \<open>
  The properties of the paging code: exclusive ownership of frames in every state reached
  by page faults, what a fault does and where the frame it hands out lies, the encoding of
  directory entries, the reading of the memory map, and the number of frames of a region.
\<close>

section \<open>The state after a fault\<close>

definition paging_shape :: "paging \<Rightarrow> bool" where
  "paging_shape st \<longleftrightarrow> length (page_directory st) = 1024 \<and> length (page_frame_words st) = 32
     \<and> length (physical_memory_regions st) = MAX_PHYSICAL_MEMORY_REGIONS
     \<and> unat (physical_memory_region_count st) \<le> MAX_PHYSICAL_MEMORY_REGIONS"

definition page_entry :: "u32 \<Rightarrow> u32" where
  "page_entry pfn = projr (constructPageDirEntry pfn PAGE_SIZE_4_MIB PAGE_READ_WRITE
     PAGE_USER_AND_SUPERVISOR)"

lemma page_entry_eq:
  assumes "pfn < 1024"
  shows "constructPageDirEntry pfn PAGE_SIZE_4_MIB PAGE_READ_WRITE PAGE_USER_AND_SUPERVISOR
    = Inr (page_entry pfn)" (is "?c = _")
    and "entry_present (page_entry pfn)" and "entry_frame (page_entry pfn) = pfn"
proof -
  have "\<not> pfn \<ge> 0x40000" using assms by (simp add: word_le_nat_alt word_less_nat_alt)
  then show c: "?c = Inr (page_entry pfn)" by (simp add: page_entry_def constructPageDirEntry_def)
  show "entry_present (page_entry pfn)" "entry_frame (page_entry pfn) = pfn"
    using entry_of_frame(1,2) [OF c] take_bit_small [OF assms] by simp_all
qed

definition first_free :: "paging \<Rightarrow> u32 option" where
  "first_free st = find (\<lambda>p. \<not> frame_used (page_frame_words st) p) (candidates st)"

definition mapped_to :: "paging \<Rightarrow> u32 \<Rightarrow> u32 \<Rightarrow> paging" where
  "mapped_to st fault_address pfn = st\<lparr>page_frame_words := frame_mark (page_frame_words st) pfn,
     page_directory := (page_directory st)[unat (getVirtualFrameNumber fault_address) := page_entry pfn],
     tlb_flushes := tlb_flushes st + 1\<rparr>"

lemma candidates_small: "p \<in> set (candidates st) \<Longrightarrow> p < 1024"
  by (auto simp: candidates_def region_pfns_def frame_list_def frame_number_small
      split: option.splits)

lemma first_free_Some:
  assumes "paging_shape st" and "first_free st = Some p"
  shows "p \<in> set (candidates st)" "\<not> frame_used (page_frame_words st) p"
    "frame_valid (page_frame_words st) p" "p < 1024"
proof -
  show p: "p \<in> set (candidates st)" "\<not> frame_used (page_frame_words st) p"
    using assms(2) by (auto simp: first_free_def find_Some_iff)
  then show "p < 1024" by (simp add: candidates_small)
  then show "frame_valid (page_frame_words st) p"
    using assms(1) by (simp add: frame_valid_def paging_shape_def)
qed

lemma handle_page_fault_eq:
  assumes "paging_shape st"
  shows "handle_page_fault st a = Some (case first_free st of
     None \<Rightarrow> Inl Out_of_frames | Some p \<Rightarrow> Inr (mapped_to st a p))"
proof -
  have sc: "scan_regions (page_frame_words st) (physical_memory_regions st)
      (physical_memory_region_count st) 0 = Some (first_free st)"
    using scan_regions_find [of "page_frame_words st" "physical_memory_region_count st"
        "physical_memory_regions st" 0] assms
    by (simp add: paging_shape_def first_free_def candidates_def)
  show ?thesis
  proof (cases "first_free st")
    case (Some p)
    note f = first_free_Some [OF assms Some]
    have "setFrameUsed (page_frame_words st) p = Some (frame_mark (page_frame_words st) p)"
      using f(3) by (simp add: frame_mark_def setFrameUsed_eq)
    moreover have "unat (getVirtualFrameNumber a) < length (page_directory st)"
      using assms frame_number_small(2) [of a] by (simp add: paging_shape_def word_less_nat_alt)
    ultimately show ?thesis
      using Some sc page_entry_eq(1) [OF f(4)]
      by (simp add: handle_page_fault_def mapped_to_def)
  qed (simp add: handle_page_fault_def sc)
qed

lemma directory_map_update:
  assumes "p < 1024" and "vpn < length dir"
  shows "directory_map (dir[vpn := page_entry p]) = (directory_map dir)(vpn \<mapsto> p)"
  using assms page_entry_eq(2,3) [OF assms(1)] by (auto simp: directory_map_def nth_list_update)

section \<open>Reachable states\<close>

inductive paging_reach :: "paging \<Rightarrow> bool" where
  Setup: "paging_shape st \<Longrightarrow> setupPaging st = Some (Inr st') \<Longrightarrow> paging_reach st'"
| Fault: "paging_reach st \<Longrightarrow> handle_page_fault st a = Some (Inr st') \<Longrightarrow> paging_reach st'"

definition paging_inv :: "paging \<Rightarrow> bool" where
  "paging_inv st \<longleftrightarrow> paging_shape st
     \<and> frames.owned (page_frame_words st) (directory_map (page_directory st))"

lemma setupPaging_eq:
  assumes "paging_shape st"
  shows "setupPaging st = Some (Inr (st\<lparr>page_directory := (replicate 1024 0)[0 := page_entry 0],
     page_frame_words := (replicate 32 0)[0 := lsh1 0], paging_enabled := True\<rparr>))"
  using assms page_entry_eq(1) [of 0]
  by (simp add: setupPaging_def Let_def paging_shape_def map_replicate_const)

lemma initial_directory: "directory_map ((replicate 1024 0)[0 := page_entry 0]) = [0 \<mapsto> 0]"
proof -
  have "directory_map (replicate 1024 0) = (\<lambda>_. None)"
    by (rule ext) (simp add: directory_map_def entry_present_def)
  then show ?thesis by (subst directory_map_update) simp_all
qed

lemma setupPaging_inv:
  assumes "paging_shape st" and "setupPaging st = Some (Inr st')"
  shows "paging_inv st'"
proof -
  let ?w = "replicate 32 0 :: u32 list"
  have v: "frame_valid ?w 0" by (simp add: frame_valid_def)
  have m: "frame_mark ?w 0 = ?w[0 := lsh1 0]" using v by (simp add: frame_mark_def setFrameUsed_eq)
  note initial_directory
  moreover have "frames.owned (frame_mark ?w 0) ((\<lambda>_. None)(0 \<mapsto> 0))"
    by (rule frames.owned_assign [OF frames.owned_empty v]) (use v in \<open>simp add: frame_used_bit\<close>)
  moreover have "st' = st\<lparr>page_directory := (replicate 1024 0)[0 := page_entry 0],
     page_frame_words := ?w[0 := lsh1 0], paging_enabled := True\<rparr>"
    using setupPaging_eq [OF assms(1)] assms(2) by simp
  ultimately show ?thesis
    using assms(1) by (simp add: paging_inv_def paging_shape_def m del: list_update.simps)
qed

lemma handle_page_fault_inv:
  assumes "paging_inv st" and "handle_page_fault st a = Some (Inr st')"
  shows "paging_inv st'"
proof -
  have sh: "paging_shape st" using assms(1) by (simp add: paging_inv_def)
  then obtain p where p: "first_free st = Some p" "st' = mapped_to st a p"
    using assms(2) handle_page_fault_eq by (auto split: option.splits)
  note f = first_free_Some [OF sh p(1)]
  have "unat (getVirtualFrameNumber a) < length (page_directory st)"
    using sh frame_number_small(2) [of a] by (simp add: paging_shape_def word_less_nat_alt)
  moreover have "frames.owned (page_frame_words st) (directory_map (page_directory st))"
    using assms(1) by (simp add: paging_inv_def)
  note frames.owned_assign [OF this f(3,2)]
  ultimately have "frames.owned (page_frame_words st') (directory_map (page_directory st'))"
    using f(4) by (simp add: p(2) mapped_to_def directory_map_update)
  moreover have "paging_shape st'"
    using sh frame_mark_valid [OF f(3), of p] f(3)
    by (auto simp: p(2) mapped_to_def paging_shape_def frame_valid_def)
  ultimately show ?thesis by (simp add: paging_inv_def)
qed

lemma paging_reach_inv: "paging_reach st \<Longrightarrow> paging_inv st"
  by (induction rule: paging_reach.induct) (auto intro: setupPaging_inv handle_page_fault_inv)

text \<open>A machine with 16 MiB of RAM above the first megabyte, for the witnesses.\<close>

definition small_machine :: paging where
  "small_machine = \<lparr>page_directory = replicate 1024 0, page_frame_words = replicate 32 0,
     physical_memory_regions = \<lparr>r_address = 0x100000, r_size = 0x1000000\<rparr> # replicate 15 \<lparr>r_address = 0, r_size = 0\<rparr>,
     physical_memory_region_count = 1, paging_enabled = False, tlb_flushes = 0,
     paging_console = []\<rparr>"

definition booted_machine :: paging where
  "booted_machine = projr (the (setupPaging small_machine))"

lemma small_machine_shape: "paging_shape small_machine"
  by (simp add: paging_shape_def small_machine_def MAX_PHYSICAL_MEMORY_REGIONS_def)

lemma booted_machine_reach: "paging_reach booted_machine"
  using paging_reach.Setup [OF small_machine_shape, of booted_machine]
    setupPaging_eq [OF small_machine_shape] by (simp add: booted_machine_def)

lemma small_region_pfns:
  "region_pfns \<lparr>r_address = 0x100000, r_size = 0x1000000\<rparr> = 1 # frame_list 0x400000 1 2"
proof -
  have r: "region_frames \<lparr>r_address = 0x100000, r_size = 0x1000000\<rparr> = Some (0x400000, 3)"
    by (simp add: region_frames_def FRAME_SIZE_def Let_def)
  have "frame_list 0x400000 0 3 = get_physical_frame_number 0x400000 # frame_list 0x400000 1 2"
    using frame_list_Suc [of "0x400000" 0 2] by (simp add: eval_nat_numeral)
  then show ?thesis by (simp add: region_pfns_def r get_physical_frame_number_def)
qed

lemma booted_machine_first_free: "first_free booted_machine = Some 1"
proof -
  have "candidates booted_machine = region_pfns \<lparr>r_address = 0x100000, r_size = 0x1000000\<rparr>"
    using setupPaging_eq [OF small_machine_shape]
    by (simp add: candidates_def booted_machine_def small_machine_def)
  then have c: "candidates booted_machine = 1 # frame_list 0x400000 1 2"
    by (simp only: small_region_pfns)
  have w: "page_frame_words booted_machine = (replicate 32 0)[0 := lsh1 0]"
    using setupPaging_eq [OF small_machine_shape] by (simp add: booted_machine_def)
  then have v: "frame_valid (page_frame_words booted_machine) 1" by (simp add: frame_valid_def)
  have "\<not> frame_used (page_frame_words booted_machine) 1"
    using frame_used_bit [OF v] by (simp add: w)
  then show ?thesis by (simp add: first_free_def c)
qed


section \<open>Properties of page faults\<close>

text \<open>
  C16: In every state reached from \<open>setupPaging\<close> by page faults, each present directory entry
  names a frame below 1024 that is marked in the frame map, and two different present
  entries name different frames: no frame is handed out twice.
\<close>

theorem paging_frames_exclusive:
  assumes "paging_reach st" and "directory_map (page_directory st) i = Some p"
  shows "p < 1024 \<and> is_frame_used (page_frame_words st) p = Some True
    \<and> (\<forall>j. directory_map (page_directory st) j = Some p \<longrightarrow> j = i)"
proof -
  have o: "frames.owned (page_frame_words st) (directory_map (page_directory st))"
    using paging_reach_inv [OF assms(1)] by (simp add: paging_inv_def)
  show ?thesis
    using frames.owned_used [OF o assms(2)] frames.owned_distinct [OF o assms(2)]
    by (auto simp: frame_valid_def frame_used_def)
qed

theorem paging_frames_exclusive_witness:
  "is_frame_used (page_frame_words booted_machine) 0 = Some True"
proof -
  have "page_directory booted_machine = (replicate 1024 0)[0 := page_entry 0]"
    using setupPaging_eq [OF small_machine_shape] by (simp add: booted_machine_def)
  then have "directory_map (page_directory booted_machine) 0 = Some 0"
    using page_entry_eq(2,3) [of 0] by (simp add: directory_map_def)
  from paging_frames_exclusive [OF booted_machine_reach this] show ?thesis by simp
qed

lemma page_fault_cases:
  assumes "paging_reach st"
  shows "(\<exists>p st'. handle_page_fault st a = Some (Inr st') \<and> p \<in> set (candidates st)
        \<and> is_frame_used (page_frame_words st) p = Some False
        \<and> directory_map (page_directory st') =
            (directory_map (page_directory st))(unat a div 2 ^ 22 \<mapsto> p)
        \<and> (\<forall>q < 1024. is_frame_used (page_frame_words st') q =
             (if q = p then Some True else is_frame_used (page_frame_words st) q))
        \<and> tlb_flushes st' = tlb_flushes st + 1)
    \<or> (handle_page_fault st a = Some (Inl Out_of_frames)
        \<and> (\<forall>p \<in> set (candidates st). is_frame_used (page_frame_words st) p = Some True))"
proof -
  have sh: "paging_shape st" using paging_reach_inv [OF assms] by (simp add: paging_inv_def)
  have len: "length (page_frame_words st) = 32" using sh by (simp add: paging_shape_def)
  have u: "is_frame_used ws q = Some (frame_used ws q)" if "q < 1024" "length ws = 32" for q ws
    using that by (simp add: is_frame_used_bit frame_used_bit frame_valid_def)
  show ?thesis
  proof (cases "first_free st")
    case None
    then have "\<forall>p \<in> set (candidates st). frame_used (page_frame_words st) p"
      by (simp add: first_free_def find_None_iff)
    then show ?thesis
      using None handle_page_fault_eq [OF sh] by (simp add: frame_used_def)
  next
    case (Some p)
    note f = first_free_Some [OF sh Some]
    have "unat (getVirtualFrameNumber a) = unat a div 2 ^ 22"
      unfolding getVirtualFrameNumber_def by (simp only: unat_drop_bit_eq) (simp only: drop_bit_eq_div)
    moreover have "unat (getVirtualFrameNumber a) < length (page_directory st)"
      using sh frame_number_small(2) [of a] by (simp add: paging_shape_def word_less_nat_alt)
    ultimately have "directory_map (page_directory (mapped_to st a p)) =
        (directory_map (page_directory st))(unat a div 2 ^ 22 \<mapsto> p)"
      using f(4) by (simp add: mapped_to_def directory_map_update)
    moreover have "length (page_frame_words (mapped_to st a p)) = 32"
      using frame_mark_valid [OF f(3), of p] f(3) by (simp add: mapped_to_def frame_valid_def)
    then have "is_frame_used (page_frame_words (mapped_to st a p)) q =
        (if q = p then Some True else is_frame_used (page_frame_words st) q)" if "q < 1024" for q
      using that len u frame_mark_used [OF f(3), of q]
      by (auto simp: mapped_to_def frame_valid_def)
    moreover have "tlb_flushes (mapped_to st a p) = tlb_flushes st + 1" by (simp add: mapped_to_def)
    ultimately show ?thesis
      using f u [OF f(4) len] handle_page_fault_eq [OF sh, of a] Some
      by (intro disjI1 exI [of _ p] exI [of _ "mapped_to st a p"]) simp
  qed
qed



text \<open>
  C18: The frame a page fault hands out lies wholly inside one of the RAM regions, provided
  no region reaches into the last 4 MiB of the address space or wraps around it.
\<close>

theorem page_fault_frame_in_ram:
  assumes "paging_reach st" and "handle_page_fault st a = Some (Inr st')"
    and "\<forall>r \<in> set (physical_memory_regions st).
      unat (r_address r) < 0xffc00000 \<and> unat (r_address r) + unat (r_size r) < 4294967296"
  shows "\<exists>p r. directory_map (page_directory st') (unat a div 2 ^ 22) = Some p
    \<and> r \<in> set (physical_memory_regions st)
    \<and> unat (r_address r) \<le> unat p * 0x400000
    \<and> (unat p + 1) * 0x400000 \<le> unat (r_address r) + unat (r_size r)"
proof -
  have sh: "paging_shape st" using paging_reach_inv [OF assms(1)] by (simp add: paging_inv_def)
  obtain p where p: "first_free st = Some p" "st' = mapped_to st a p"
    using assms(2) handle_page_fault_eq [OF sh] by (auto split: option.splits)
  note f = first_free_Some [OF sh p(1)]
  have "unat (getVirtualFrameNumber a) = unat a div 2 ^ 22"
    unfolding getVirtualFrameNumber_def by (simp only: unat_drop_bit_eq) (simp only: drop_bit_eq_div)
  moreover have "unat (getVirtualFrameNumber a) < length (page_directory st)"
    using sh frame_number_small(2) [of a] by (simp add: paging_shape_def word_less_nat_alt)
  ultimately have m: "directory_map (page_directory st') (unat a div 2 ^ 22) = Some p"
    using f(4) by (simp add: p(2) mapped_to_def directory_map_update)
  from f(1) obtain r where r: "r \<in> set (physical_memory_regions st)" "p \<in> set (region_pfns r)"
    by (auto simp: candidates_def dest: in_set_takeD)
  from region_pfns_in_ram [OF r(2)] assms(3) r(1) m show ?thesis by fastforce
qed

theorem page_fault_frame_in_ram_witness:
  "\<exists>st' p r. handle_page_fault booted_machine 0xf000000 = Some (Inr st')
     \<and> directory_map (page_directory st') 60 = Some p
     \<and> r \<in> set (physical_memory_regions booted_machine)
     \<and> unat (r_address r) \<le> unat p * 0x400000
     \<and> (unat p + 1) * 0x400000 \<le> unat (r_address r) + unat (r_size r)"
proof -
  have "paging_shape booted_machine"
    using paging_reach_inv [OF booted_machine_reach] by (simp add: paging_inv_def)
  then have h: "handle_page_fault booted_machine 0xf000000 = Some (Inr (mapped_to booted_machine 0xf000000 1))"
    by (simp add: handle_page_fault_eq booted_machine_first_free)
  have "physical_memory_regions booted_machine = physical_memory_regions small_machine"
    using setupPaging_eq [OF small_machine_shape] by (simp add: booted_machine_def)
  then have "\<forall>r \<in> set (physical_memory_regions booted_machine).
      unat (r_address r) < 0xffc00000 \<and> unat (r_address r) + unat (r_size r) < 4294967296"
    by (simp add: small_machine_def)
  note page_fault_frame_in_ram [OF booted_machine_reach h this]
  moreover have "unat (0xf000000 :: u32) div 2 ^ 22 = 60" by simp
  ultimately show ?thesis using h by metis
qed

text \<open>What the processor lets ring 3 do with a page: bits 1 and 2 of its entry.\<close>

definition user_writable :: "u32 \<Rightarrow> bool" where
  "user_writable e \<longleftrightarrow> bit e 1 \<and> bit e 2"

lemma page_entry_user: "pfn < 1024 \<Longrightarrow> user_writable (page_entry pfn)"
  using entry_of_frame(4,5) [OF page_entry_eq(1)] by (simp add: user_writable_def)

lemma paging_reach_user:
  "paging_reach st \<Longrightarrow> paging_shape st \<and> (\<forall>e \<in> set (page_directory st). entry_present e \<longrightarrow> user_writable e)"
proof (induction rule: paging_reach.induct)
  case (Setup st st')
  have "set ((replicate 1024 0)[0 := page_entry 0]) \<subseteq> insert (page_entry 0) {0}"
    using set_update_subset_insert [of "replicate 1024 0" 0 "page_entry 0"] by auto
  moreover have "st' = st\<lparr>page_directory := (replicate 1024 0)[0 := page_entry 0],
     page_frame_words := (replicate 32 0)[0 := lsh1 0], paging_enabled := True\<rparr>"
    using setupPaging_eq [OF Setup(1)] Setup(2) by simp
  moreover have "paging_shape st'"
    using setupPaging_inv [OF Setup] by (simp add: paging_inv_def)
  ultimately show ?case
    using page_entry_user [of 0] by (auto simp: entry_present_def simp del: list_update.simps)
next
  case (Fault st a st')
  have shape: "paging_shape st" using Fault.IH by simp
  obtain p where p: "first_free st = Some p" "st' = mapped_to st a p"
    using Fault(2) handle_page_fault_eq [OF shape, of a] by (auto split: option.splits)
  have "set (page_directory st') \<subseteq> insert (page_entry p) (set (page_directory st))"
    using set_update_subset_insert by (simp add: p(2) mapped_to_def)
  moreover have "paging_shape st'"
    using handle_page_fault_inv [OF paging_reach_inv [OF Fault(1)] Fault(2)] by (simp add: paging_inv_def)
  ultimately show ?case
    using Fault.IH page_entry_user [OF first_free_Some(4) [OF shape p(1)]] by blast
qed

text \<open>
  There is no protection between the rings: in every state reached from \<open>setupPaging\<close> by page
  faults, the entry of every mapped page lets ring 3 read and write it, whether the page was
  mapped at set-up (the first 4 MiB, with the kernel's code and tables) or by a fault (such as
  the heap's).
\<close>

theorem mapped_pages_open:
  assumes "paging_reach st" and "directory_map (page_directory st) i = Some p"
  shows "user_writable (page_directory st ! i)"
  using paging_reach_user [OF assms(1)] assms(2) by (auto simp: directory_map_def split: if_splits)

theorem mapped_pages_open_witness: "user_writable (page_directory booted_machine ! 0)"
proof -
  have "page_directory booted_machine = (replicate 1024 0)[0 := page_entry 0]"
    using setupPaging_eq [OF small_machine_shape] by (simp add: booted_machine_def)
  then have "directory_map (page_directory booted_machine) 0 = Some 0" by (simp add: initial_directory del: list_update.simps)
  from mapped_pages_open [OF booted_machine_reach this] show ?thesis .
qed

text \<open>
  \<open>constructPageDirEntry\<close> encodes a frame number below 1024, the page size, the
  write permission and the user permission so that the fields read back, with the present
  bit set; a number from 1024 up to 0x3ffff passes the sanity check all the same and the
  entry then names the frame modulo 1024; only larger numbers are rejected.
\<close>

theorem constructPageDirEntry_decodes:
  "(case constructPageDirEntry pfn ps rw perm of
      Inl e \<Rightarrow> e = Bad_PFN \<and> unat pfn \<ge> 0x40000
    | Inr e \<Rightarrow> unat pfn < 0x40000 \<and> entry_present e \<and> unat (entry_frame e) = unat pfn mod 1024
        \<and> (bit e 7 \<longleftrightarrow> ps = PAGE_SIZE_4_MIB) \<and> (bit e 1 \<longleftrightarrow> rw = PAGE_READ_WRITE)
        \<and> (bit e 2 \<longleftrightarrow> perm = PAGE_USER_AND_SUPERVISOR))"
proof (cases "constructPageDirEntry pfn ps rw perm")
  case (Inl e)
  then show ?thesis
    by (simp add: constructPageDirEntry_def word_le_nat_alt split: if_splits)
next
  case (Inr e)
  have "unat pfn < 0x40000"
    using Inr by (simp add: constructPageDirEntry_def word_le_nat_alt split: if_splits)
  moreover have "unat (take_bit 10 pfn) = take_bit 10 (unat pfn)"
    by (simp only: unsigned_take_bit_eq)
  then have "unat (take_bit 10 pfn) = unat pfn mod 1024" by (simp add: take_bit_eq_mod)
  ultimately show ?thesis using entry_of_frame [OF Inr] by (simp add: Inr)
qed

text \<open>
  The number of whole frames of a region is kept modulo 256: for a region that does
  not wrap around, the count the search uses is the number of whole frames after the first
  frame boundary above its start, modulo 256, so a region with 256 of them has none.
\<close>

theorem region_frame_count_truncated:
  assumes "unat (r_address r) + unat (r_size r) < 4294967296"
    and "region_frames r = Some (frame_start, n)" and "r_address r \<le> frame_start"
  shows "unat n = ((unat (r_address r) + unat (r_size r) - unat frame_start) div 0x400000) mod 256"
proof -
  have FS: "unat FRAME_SIZE = 4194304" by (simp add: FRAME_SIZE_def)
  have sum: "unat (r_address r + r_size r) = unat (r_address r) + unat (r_size r)"
    using assms(1) by (simp add: unat_add_nowrap)
  have n: "n = ucast ((r_size r - (frame_start - r_address r)) div FRAME_SIZE)"
    and le: "unat frame_start \<le> unat (r_address r) + unat (r_size r)"
    using assms(2) sum by (auto simp: region_frames_def Let_def word_less_nat_alt split: if_splits)
  have "unat (frame_start - r_address r) = unat frame_start - unat (r_address r)"
    using assms(3) by (simp add: unat_sub_nowrap word_le_nat_alt)
  then have "unat (r_size r - (frame_start - r_address r))
      = unat (r_address r) + unat (r_size r) - unat frame_start"
    using le assms(3) by (simp add: unat_sub_nowrap word_le_nat_alt)
  then show ?thesis by (simp add: n unsigned_ucast_eq take_bit_eq_mod unat_div FS)
qed

theorem region_frame_count_truncated_witness:
  "region_frames \<lparr>r_address = 0, r_size = 0x40400000\<rparr> = Some (0x400000, 0)"
proof -
  let ?r = "\<lparr>r_address = 0, r_size = 0x40400000\<rparr>"
  obtain n where n: "region_frames ?r = Some (0x400000, n)"
    by (simp add: region_frames_def FRAME_SIZE_def Let_def)
  have "unat n = ((unat (r_address ?r) + unat (r_size ?r) - unat (0x400000 :: u32)) div 0x400000) mod 256"
    by (rule region_frame_count_truncated [OF _ n]) simp_all
  then have "n = 0" by (simp add: unat_eq_0)
  with n show ?thesis by simp
qed

end
