(* ===== verification/Memory_Map.thy ===== *)
theory Memory_Map
  imports Paging_Props
begin

text \<open>
  Reading the boot loader's memory map: a list of descriptors in memory, and the table of
  RAM regions that \<open>loadPhysicalMemoryRegionDescriptors\<close> makes of it.
\<close>

record mdesc =
  d_size :: u32
  d_base :: u32
  d_length :: u32
  d_type :: u32

primrec map_at :: "mem \<Rightarrow> addr \<Rightarrow> mdesc list \<Rightarrow> bool" where
  "map_at m a [] \<longleftrightarrow> True"
| "map_at m a (d # ds) \<longleftrightarrow> desc_size m a = d_size d \<and> desc_base_addr_low m a = d_base d
     \<and> desc_length_low m a = d_length d \<and> desc_region_type m a = d_type d
     \<and> map_at m (a + d_size d + 4) ds"

definition map_bytes :: "mdesc list \<Rightarrow> nat" where
  "map_bytes ds = sum_list (map (\<lambda>d. unat (d_size d) + 4) ds)"

definition ram_regions :: "mdesc list \<Rightarrow> region list" where
  "ram_regions ds = map (\<lambda>d. \<lparr>r_address = d_base d, r_size = d_length d\<rparr>) (filter (\<lambda>d. d_type d = 1) ds)"

lemma map_bytes_simps [simp]:
  "map_bytes [] = 0" "map_bytes (d # ds) = unat (d_size d) + 4 + map_bytes ds"
  by (simp_all add: map_bytes_def)

lemma ram_regions_simps [simp]:
  "ram_regions [] = []"
  "ram_regions (d # ds) = (if d_type d = 1
     then \<lparr>r_address = d_base d, r_size = d_length d\<rparr> # ram_regions ds else ram_regions ds)"
  by (simp_all add: ram_regions_def)

lemma region_line_Some: "\<exists>line. region_line t base len = Some line"
proof -
  let ?args = "[Va_str (if t = 1 then ''RAM   '' else ''No RAM''), Va_int base, Va_int (base + len)]"
  obtain x where "kvsprintf ''%s from: %x to %x\<newline>'' ?args = Some (x, True)"
    by (simp add: kvsprintf_def)
  from kprintf_terminated [OF this] show ?thesis by (simp add: region_line_def)
qed

text \<open>One entry of the table filled.\<close>

definition add_region :: "paging \<Rightarrow> region \<Rightarrow> paging" where
  "add_region st r = st\<lparr>physical_memory_regions :=
       (physical_memory_regions st)[unat (physical_memory_region_count st) := r],
     physical_memory_region_count := physical_memory_region_count st + 1\<rparr>"

lemma add_region_console:
  "add_region (s\<lparr>paging_console := out\<rparr>) r = (add_region s r)\<lparr>paging_console := out\<rparr>"
  by (simp add: add_region_def)

lemma fold_add_region_console:
  "fold (\<lambda>r s. add_region s r) rs (s\<lparr>paging_console := out\<rparr>) =
     (fold (\<lambda>r s. add_region s r) rs s)\<lparr>paging_console := out\<rparr>"
  by (induction rs arbitrary: s) (simp_all add: add_region_console)

lemma load_regions_loop_step:
  assumes "map_at m a (d # ds)" and "unat traversed + map_bytes (d # ds) = unat len"
    and "length (physical_memory_regions st) = 16"
  shows "\<exists>line. load_regions_loop m len a traversed st =
    (let st1 = st\<lparr>paging_console := paging_console st @ line\<rparr>
     in if d_type d = 1 then
          (if unat (physical_memory_region_count st) < 16
           then load_regions_loop m len (a + d_size d + 4) (traversed + (d_size d + 4))
                  (add_region st1 \<lparr>r_address = d_base d, r_size = d_length d\<rparr>)
           else None)
        else load_regions_loop m len (a + d_size d + 4) (traversed + (d_size d + 4)) st1)"
proof -
  obtain line where l: "region_line (d_type d) (d_base d) (d_length d) = Some line"
    using region_line_Some by blast
  have "traversed < len" using assms(2) by (simp add: word_less_nat_alt)
  then show ?thesis
    using assms(1,3) l
    by (intro exI [of _ line], subst load_regions_loop.simps)
      (auto simp: Let_def add_region_def)
qed

lemma traversed_add:
  assumes "unat traversed + (unat (d_size d) + 4 + n) = unat (len :: u32)"
  shows "unat (traversed + (d_size d + 4)) = unat traversed + (unat (d_size d) + 4)"
  using assms unat_lt_32 [of len] by (simp add: unat_add_nowrap)

lemma load_regions_loop_fills:
  "map_at m a ds \<Longrightarrow> unat traversed + map_bytes ds = unat len \<Longrightarrow>
   length (physical_memory_regions st) = 16 \<Longrightarrow>
   unat (physical_memory_region_count st) + length (ram_regions ds) \<le> 16 \<Longrightarrow>
   \<exists>st' out. load_regions_loop m len a traversed st = Some st'
     \<and> st' = (fold (\<lambda>r s. add_region s r) (ram_regions ds) st)\<lparr>paging_console := out\<rparr>"
proof (induction ds arbitrary: a traversed st)
  case Nil
  have "\<not> traversed < len" using Nil.prems(2) by (simp add: word_less_nat_alt)
  then show ?case
    by (subst load_regions_loop.simps) (auto intro!: exI [of _ "paging_console st"])
next
  case (Cons d ds)
  have t: "unat (traversed + (d_size d + 4)) + map_bytes ds = unat len"
    using Cons.prems(2) traversed_add [of traversed d "map_bytes ds" len] by simp
  obtain line where l: "load_regions_loop m len a traversed st =
    (let st1 = st\<lparr>paging_console := paging_console st @ line\<rparr>
     in if d_type d = 1 then
          (if unat (physical_memory_region_count st) < 16
           then load_regions_loop m len (a + d_size d + 4) (traversed + (d_size d + 4))
                  (add_region st1 \<lparr>r_address = d_base d, r_size = d_length d\<rparr>)
           else None)
        else load_regions_loop m len (a + d_size d + 4) (traversed + (d_size d + 4)) st1)"
    using load_regions_loop_step [OF Cons.prems(1-3)] by blast
  let ?st1 = "st\<lparr>paging_console := paging_console st @ line\<rparr>"
  let ?st2 = "if d_type d = 1 then add_region ?st1 \<lparr>r_address = d_base d, r_size = d_length d\<rparr> else ?st1"
  have c: "unat (physical_memory_region_count st + 1) = unat (physical_memory_region_count st) + 1"
    if "d_type d = 1"
    using Cons.prems(4) that by (simp add: unat_add_nowrap)
  have "load_regions_loop m len a traversed st =
      load_regions_loop m len (a + d_size d + 4) (traversed + (d_size d + 4)) ?st2"
    using Cons.prems(4) by (auto simp: l split: if_splits)
  moreover have "\<exists>st' out. load_regions_loop m len (a + d_size d + 4) (traversed + (d_size d + 4)) ?st2 = Some st'
     \<and> st' = (fold (\<lambda>r s. add_region s r) (ram_regions ds) ?st2)\<lparr>paging_console := out\<rparr>"
    by (rule Cons.IH [OF _ t]) (use Cons.prems c in \<open>auto simp: add_region_def\<close>)
  ultimately show ?case by (auto simp: add_region_console fold_add_region_console)
qed

lemma load_regions_loop_overflow:
  "map_at m a ds \<Longrightarrow> unat traversed + map_bytes ds = unat len \<Longrightarrow>
   length (physical_memory_regions st) = 16 \<Longrightarrow> unat (physical_memory_region_count st) \<le> 16 \<Longrightarrow>
   16 < unat (physical_memory_region_count st) + length (ram_regions ds) \<Longrightarrow>
   load_regions_loop m len a traversed st = None"
proof (induction ds arbitrary: a traversed st)
  case (Cons d ds)
  have t: "unat (traversed + (d_size d + 4)) + map_bytes ds = unat len"
    using Cons.prems(2) traversed_add [of traversed d "map_bytes ds" len] by simp
  have c: "unat (physical_memory_region_count st + 1) = unat (physical_memory_region_count st) + 1"
    using Cons.prems(4) by (simp add: unat_add_nowrap)
  have IH: "load_regions_loop m len (a + d_size d + 4) (traversed + (d_size d + 4)) st2 = None"
    if "length (physical_memory_regions st2) = 16" "unat (physical_memory_region_count st2) \<le> 16"
      "16 < unat (physical_memory_region_count st2) + length (ram_regions ds)" for st2
    by (rule Cons.IH [OF _ t that]) (use Cons.prems(1) in simp)
  show ?case
    using load_regions_loop_step [OF Cons.prems(1-3)] Cons.prems(3-5) c
    by (auto simp: Let_def IH add_region_def)
qed simp

lemma fold_add_region:
  "length (physical_memory_regions st) = 16 \<Longrightarrow>
   unat (physical_memory_region_count st) + length rs \<le> 16 \<Longrightarrow>
   unat (physical_memory_region_count (fold (\<lambda>r s. add_region s r) rs st))
       = unat (physical_memory_region_count st) + length rs
   \<and> physical_memory_regions (fold (\<lambda>r s. add_region s r) rs st) =
       take (unat (physical_memory_region_count st)) (physical_memory_regions st) @ rs
       @ drop (unat (physical_memory_region_count st) + length rs) (physical_memory_regions st)
   \<and> page_directory (fold (\<lambda>r s. add_region s r) rs st) = page_directory st
   \<and> page_frame_words (fold (\<lambda>r s. add_region s r) rs st) = page_frame_words st"
proof (induction rs arbitrary: st)
  case (Cons r rs)
  let ?c = "unat (physical_memory_region_count st)"
  have c: "unat (physical_memory_region_count st + 1) = ?c + 1"
    using Cons.prems(2) by (simp add: unat_add_nowrap)
  have "take (?c + 1) ((physical_memory_regions st)[?c := r]) =
      take ?c (physical_memory_regions st) @ [r]"
    using Cons.prems by (simp add: take_Suc_conv_app_nth)
  then show ?case
    using Cons.IH [of "add_region st r"] Cons.prems c by (simp add: add_region_def)
qed simp

lemma memory_map_fills:
  assumes "map_at m (info_mmap_addr m info) ds" and "map_bytes ds = unat (info_mmap_length m info)"
    and "length (physical_memory_regions st) = 16" and "bit (info_flags m info) 6" and "length (ram_regions ds) \<le> 16"
  shows "\<exists>st'. loadPhysicalMemoryRegionDescriptors m info st = Some (Inr st')
    \<and> unat (physical_memory_region_count st') = length (ram_regions ds)
    \<and> physical_memory_regions st' = ram_regions ds @ drop (length (ram_regions ds)) (physical_memory_regions st)
    \<and> page_directory st' = page_directory st \<and> page_frame_words st' = page_frame_words st"
proof -
  let ?st0 = "st\<lparr>paging_console := paging_console st @ ''==== MEMORY MAP ====\<newline>'',
     physical_memory_region_count := 0\<rparr>"
  have t: "unat (0 :: u32) + map_bytes ds = unat (info_mmap_length m info)" using assms(2) by simp
  have len: "length (physical_memory_regions ?st0) = 16" using assms(3) by simp
  from load_regions_loop_fills [OF assms(1) t len] assms(5) obtain out where
    "load_regions_loop m (info_mmap_length m info) (info_mmap_addr m info) 0 ?st0
      = Some ((fold (\<lambda>r s. add_region s r) (ram_regions ds) ?st0)\<lparr>paging_console := out\<rparr>)" by auto
  then show ?thesis
    using assms(4,5) fold_add_region [OF len, of "ram_regions ds"]
    by (simp add: loadPhysicalMemoryRegionDescriptors_def and_lsh1_0_iff)
qed

text \<open>
  C19: Given a memory map of descriptors in memory, the loader returns with the table holding
  the RAM regions of the map in order and their number, if there are at most 16 of them;
  with more it writes past the end of \<open>physical_memory_regions\<close>. The directory and the
  frame map are left alone. Without the memory-map flag it panics.
\<close>

theorem memory_map_loaded:
  assumes "map_at m (info_mmap_addr m info) ds"
    and "map_bytes ds = unat (info_mmap_length m info)"
    and "length (physical_memory_regions st) = MAX_PHYSICAL_MEMORY_REGIONS"
  shows "if \<not> bit (info_flags m info) 6
      then loadPhysicalMemoryRegionDescriptors m info st = Some (Inl No_memory_map)
    else if length (ram_regions ds) \<le> MAX_PHYSICAL_MEMORY_REGIONS
      then \<exists>st'. loadPhysicalMemoryRegionDescriptors m info st = Some (Inr st')
        \<and> unat (physical_memory_region_count st') = length (ram_regions ds)
        \<and> take (length (ram_regions ds)) (physical_memory_regions st') = ram_regions ds
        \<and> page_directory st' = page_directory st \<and> page_frame_words st' = page_frame_words st
    else loadPhysicalMemoryRegionDescriptors m info st = None"
proof -
  let ?st0 = "st\<lparr>paging_console := paging_console st @ ''==== MEMORY MAP ====\<newline>'',
     physical_memory_region_count := 0\<rparr>"
  have t: "unat (0 :: u32) + map_bytes ds = unat (info_mmap_length m info)" using assms(2) by simp
  have len: "length (physical_memory_regions ?st0) = 16"
    using assms(3) by (simp add: MAX_PHYSICAL_MEMORY_REGIONS_def)
  consider "\<not> bit (info_flags m info) 6"
    | "bit (info_flags m info) 6" "length (ram_regions ds) \<le> 16"
    | "bit (info_flags m info) 6" "16 < length (ram_regions ds)" by linarith
  then show ?thesis
  proof cases
    case 1
    then show ?thesis
      by (simp add: loadPhysicalMemoryRegionDescriptors_def and_lsh1_0_iff)
  next
    case 2
    then show ?thesis
      using memory_map_fills [OF assms(1,2), of st] assms(3) by (fastforce simp: MAX_PHYSICAL_MEMORY_REGIONS_def)
  next
    case 3
    have "load_regions_loop m (info_mmap_length m info) (info_mmap_addr m info) 0 ?st0 = None"
      by (rule load_regions_loop_overflow [OF assms(1) t len]) (use 3 in simp_all)
    then show ?thesis
      using 3 by (simp add: loadPhysicalMemoryRegionDescriptors_def and_lsh1_0_iff MAX_PHYSICAL_MEMORY_REGIONS_def)
  qed
qed

text \<open>A memory with a two-entry map at 0x100, described by the information at 0.\<close>

definition map_memory :: mem where
  "map_memory = (\<lambda>_. 0)(0 := 0x40, 44 := 48, 49 := 0, 48 := 0, 49 := 1,
     0x100 := 20, 0x114 := 2, 0x118 := 20, 0x11e := 0x10, 0x127 := 1, 0x12c := 1)"

lemma map_memory_rd32:
  "rd32 map_memory 0x100 = 20" "rd32 map_memory 0x104 = 0" "rd32 map_memory 0x10c = 0"
  "rd32 map_memory 0x114 = 2" "rd32 map_memory 0x118 = 20" "rd32 map_memory 0x11c = 0x100000"
  "rd32 map_memory 0x124 = 0x1000000" "rd32 map_memory 0x12c = 1"
  by (simp_all add: rd32_def map_memory_def)

lemma map_memory_fields:
  "desc_size map_memory 0x100 = 20" "desc_base_addr_low map_memory 0x100 = 0"
  "desc_length_low map_memory 0x100 = 0" "desc_region_type map_memory 0x100 = 2"
  "desc_size map_memory 0x118 = 20" "desc_base_addr_low map_memory 0x118 = 0x100000"
  "desc_length_low map_memory 0x118 = 0x1000000" "desc_region_type map_memory 0x118 = 1"
  using map_memory_rd32
  by (simp_all add: desc_size_def desc_base_addr_low_def desc_length_low_def desc_region_type_def)

definition map_entries :: "mdesc list" where
  "map_entries = [\<lparr>d_size = 20, d_base = 0, d_length = 0, d_type = 2\<rparr>,
    \<lparr>d_size = 20, d_base = 0x100000, d_length = 0x1000000, d_type = 1\<rparr>]"

lemma map_memory_info:
  "info_mmap_addr map_memory 0 = 0x100" "info_mmap_length map_memory 0 = 48" "info_flags map_memory 0 = 64"
  by (simp_all add: info_mmap_addr_def info_mmap_length_def info_flags_def rd32_def map_memory_def)

lemma map_memory_entries:
  "map_at map_memory (info_mmap_addr map_memory 0) map_entries"
  "map_bytes map_entries = unat (info_mmap_length map_memory 0)" "bit (info_flags map_memory 0) 6"
  "ram_regions map_entries = [\<lparr>r_address = 0x100000, r_size = 0x1000000\<rparr>]"
  using map_memory_fields by (simp_all add: map_entries_def map_memory_info bit_numeral_rec)

theorem memory_map_loaded_witness:
  "\<exists>st'. loadPhysicalMemoryRegionDescriptors map_memory 0 small_machine = Some (Inr st')
     \<and> unat (physical_memory_region_count st') = 1
     \<and> take 1 (physical_memory_regions st') = [\<lparr>r_address = 0x100000, r_size = 0x1000000\<rparr>]"
proof -
  have "length (physical_memory_regions small_machine) = MAX_PHYSICAL_MEMORY_REGIONS"
    by (simp add: small_machine_def MAX_PHYSICAL_MEMORY_REGIONS_def)
  from memory_map_loaded [OF map_memory_entries(1,2) this] show ?thesis
    using map_memory_entries(3,4) by (auto simp: MAX_PHYSICAL_MEMORY_REGIONS_def)
qed

end
