(* ===== verification/Port_IO.thy ===== *)
theory Port_IO
  imports Prelude
begin

text \<open>
  The processor's view of its devices (\<open>include/io.h\<close>): port reads and writes and the
  interrupt flag. The hardware is not part of the sources; it is the parameter of type
  \<open>device\<close>, which answers a read from the whole sequence of operations so far. The model
  of a driver is a function of the device and of the \<open>machine\<close>, whose log records every
  operation in order.
\<close>

datatype io_event =
    Outb u16 u8
  | Outw u16 u16
  | Outl u16 u32
  | Inb u16 u8
  | Inw u16 u16
  | Inl32 u16 u32
  | Cli
  | Sti
  | Lidt u16 u32 \<comment> \<open>limit and base of the table\<close>
  | Lgdt u16 u32
  | Ltr u16

record machine =
  io_log :: "io_event list"
  int_flag :: bool

record device =
  read8 :: "io_event list \<Rightarrow> u16 \<Rightarrow> u8"
  read16 :: "io_event list \<Rightarrow> u16 \<Rightarrow> u16"
  read32 :: "io_event list \<Rightarrow> u16 \<Rightarrow> u32"

definition record_event :: "machine \<Rightarrow> io_event \<Rightarrow> machine" where
  "record_event m e = m\<lparr>io_log := io_log m @ [e]\<rparr>"

definition outb :: "machine \<Rightarrow> u16 \<Rightarrow> u8 \<Rightarrow> machine" where
  "outb m port val = record_event m (Outb port val)"

definition outw :: "machine \<Rightarrow> u16 \<Rightarrow> u16 \<Rightarrow> machine" where
  "outw m port val = record_event m (Outw port val)"

definition outl :: "machine \<Rightarrow> u16 \<Rightarrow> u32 \<Rightarrow> machine" where
  "outl m port val = record_event m (Outl port val)"

definition inb :: "device \<Rightarrow> machine \<Rightarrow> u16 \<Rightarrow> u8 \<times> machine" where
  "inb dev m port =
     (let ret = read8 dev (io_log m) port in (ret, record_event m (Inb port ret)))"

definition inw :: "device \<Rightarrow> machine \<Rightarrow> u16 \<Rightarrow> u16 \<times> machine" where
  "inw dev m port =
     (let ret = read16 dev (io_log m) port in (ret, record_event m (Inw port ret)))"

definition inl :: "device \<Rightarrow> machine \<Rightarrow> u16 \<Rightarrow> u32 \<times> machine" where
  "inl dev m port =
     (let ret = read32 dev (io_log m) port in (ret, record_event m (Inl32 port ret)))"

definition cli :: "machine \<Rightarrow> machine" where
  "cli m = record_event (m\<lparr>int_flag := False\<rparr>) Cli"

definition sti :: "machine \<Rightarrow> machine" where
  "sti m = record_event (m\<lparr>int_flag := True\<rparr>) Sti"

definition sendEndOfInterrupt :: "machine \<Rightarrow> machine" where
  "sendEndOfInterrupt m = outb (outb m 0x20 0x20) 0xa0 0x20"

named_theorems io_simps

lemma io_log_simps [io_simps]:
  "io_log (record_event m e) = io_log m @ [e]" "int_flag (record_event m e) = int_flag m"
  "io_log (outb m p v) = io_log m @ [Outb p v]" "int_flag (outb m p v) = int_flag m"
  "io_log (outw m p w) = io_log m @ [Outw p w]" "int_flag (outw m p w) = int_flag m"
  "io_log (outl m p l) = io_log m @ [Outl p l]" "int_flag (outl m p l) = int_flag m"
  "io_log (cli m) = io_log m @ [Cli]" "int_flag (cli m) = False"
  "io_log (sti m) = io_log m @ [Sti]" "int_flag (sti m) = True"
  by (simp_all add: record_event_def outb_def outw_def outl_def cli_def sti_def)

lemma in_simps [io_simps]:
  "fst (inb dev m p) = read8 dev (io_log m) p"
  "io_log (snd (inb dev m p)) = io_log m @ [Inb p (read8 dev (io_log m) p)]"
  "int_flag (snd (inb dev m p)) = int_flag m"
  "fst (inw dev m p) = read16 dev (io_log m) p"
  "io_log (snd (inw dev m p)) = io_log m @ [Inw p (read16 dev (io_log m) p)]"
  "int_flag (snd (inw dev m p)) = int_flag m"
  by (simp_all add: inb_def inw_def Let_def record_event_def)

text \<open>The last value written to a port.\<close>

primrec last_outb_rev :: "io_event list \<Rightarrow> u16 \<Rightarrow> u8 option" where
  "last_outb_rev [] p = None"
| "last_outb_rev (e # es) p =
     (case e of Outb q v \<Rightarrow> if q = p then Some v else last_outb_rev es p | _ \<Rightarrow> last_outb_rev es p)"

definition last_outb :: "io_event list \<Rightarrow> u16 \<Rightarrow> u8 option" where
  "last_outb log p = last_outb_rev (rev log) p"

lemma last_outb_snoc [io_simps]:
  "last_outb (log @ [e]) p = (case e of Outb q v \<Rightarrow> if q = p then Some v else last_outb log p
     | _ \<Rightarrow> last_outb log p)"
  by (cases e) (simp_all add: last_outb_def)

lemma last_outb_Nil [io_simps]: "last_outb [] p = None"
  by (simp add: last_outb_def)

text \<open>Devices for witnesses: one that answers every read alike.\<close>

definition constant_device :: "u8 \<Rightarrow> device" where
  "constant_device v = \<lparr>read8 = (\<lambda>_ _. v), read16 = (\<lambda>_ _. ucast v), read32 = (\<lambda>_ _. ucast v)\<rparr>"

definition idle_machine :: machine where
  "idle_machine = \<lparr>io_log = [], int_flag = False\<rparr>"

end
