(* ===== verification/Idt.thy ===== *)
theory Idt
  imports Port_IO Kstdio
begin

text \<open>
  The interrupt descriptor table (\<open>src/idt.c\<close>), the interrupt controllers (\<open>src/idt.c\<close>,
  \<open>src/pic.c\<close>) and the exception handlers (\<open>src/exceptions.c\<close>). The addresses of the
  assembly entry points and of the table itself are chosen by the linker; they are the
  parameters \<open>symbol_addr\<close> and \<open>table_addr\<close>.
\<close>

section \<open>The interrupt controllers\<close>

definition PIC1_COMMAND :: u16 where "PIC1_COMMAND = 0x20"
definition PIC1_DATA :: u16 where "PIC1_DATA = 0x21"
definition PIC2_COMMAND :: u16 where "PIC2_COMMAND = 0xA0"
definition PIC2_DATA :: u16 where "PIC2_DATA = 0xA1"

text \<open>\<open>1 << irq_line\<close>, an \<open>int\<close> that is converted to \<open>uint8_t\<close> on the way to the port.\<close>

definition irqSetMask :: "device \<Rightarrow> machine \<Rightarrow> u8 \<Rightarrow> machine" where
  "irqSetMask dev m irq_line =
     (let (port, line) = (if irq_line < 8 then (PIC1_DATA, irq_line) else (PIC2_DATA, irq_line - 8));
          (v, m1) = inb dev m port;
          value = v OR ucast (push_bit (unat line) 1 :: u32)
      in outb m1 port value)"

definition irqClearMask :: "device \<Rightarrow> machine \<Rightarrow> u8 \<Rightarrow> machine" where
  "irqClearMask dev m irq_line =
     (let (port, line) = (if irq_line < 8 then (PIC1_DATA, irq_line) else (PIC2_DATA, irq_line - 8));
          (v, m1) = inb dev m port;
          value = v AND ucast (NOT (push_bit (unat line) 1 :: u32))
      in outb m1 port value)"

text \<open>The two reads of the last line are unsequenced in C; here the left one comes first.\<close>

definition picGetIrqReg :: "device \<Rightarrow> machine \<Rightarrow> u8 \<Rightarrow> u16 \<times> machine" where
  "picGetIrqReg dev m ocw3 =
     (let m1 = outb m PIC1_COMMAND ocw3;
          m2 = outb m1 PIC2_COMMAND ocw3;
          (hi, m3) = inb dev m2 PIC2_COMMAND;
          (lo, m4) = inb dev m3 PIC1_COMMAND
      in (push_bit 8 (ucast hi) OR ucast lo, m4))"

definition picGetIrr :: "device \<Rightarrow> machine \<Rightarrow> u16 \<times> machine" where
  "picGetIrr dev m = picGetIrqReg dev m 0x0A"

definition picGetIsr :: "device \<Rightarrow> machine \<Rightarrow> u16 \<times> machine" where
  "picGetIsr dev m = picGetIrqReg dev m 0x0B"

text \<open>\<open>ioWait\<close> only jumps forward; it leaves no trace.\<close>

definition remapPIC :: "machine \<Rightarrow> u8 \<Rightarrow> u8 \<Rightarrow> machine" where
  "remapPIC m offset1 offset2 =
     (let m1 = outb m PIC1_COMMAND (0x10 OR 0x01);
          m2 = outb m1 PIC2_COMMAND (0x10 OR 0x01);
          m3 = outb m2 PIC1_DATA offset1;
          m4 = outb m3 PIC2_DATA offset2;
          m5 = outb m4 PIC1_DATA 4;
          m6 = outb m5 PIC2_DATA 2;
          m7 = outb m6 PIC1_DATA 0x01;
          m8 = outb m7 PIC2_DATA 0x01;
          m9 = outb m8 PIC1_DATA 0xFC
      in outb m9 PIC2_DATA 0xFF)"

section \<open>Gates\<close>

record idt_entry =
  offset_low :: u16
  selector :: u16
  zero :: u8
  type_attr :: u8
  offset_high :: u16

definition zero_entry :: idt_entry where
  "zero_entry = \<lparr>offset_low = 0, selector = 0, zero = 0, type_attr = 0, offset_high = 0\<rparr>"

definition TASK_GATE :: u32 where "TASK_GATE = 0x5"
definition INTERRUPT_GATE_16 :: u32 where "INTERRUPT_GATE_16 = 0x6"
definition TRAP_GATE_16 :: u32 where "TRAP_GATE_16 = 0x7"
definition INTERRUPT_GATE_32 :: u32 where "INTERRUPT_GATE_32 = 0xE"
definition TRAP_GATE_32 :: u32 where "TRAP_GATE_32 = 0xF"

record idt =
  idt_entries :: "idt_entry list"
  idt_size :: u16
  idt_addr :: u32
  cpu :: machine
  idt_console :: string

definition make_gate :: "u32 \<Rightarrow> u32 \<Rightarrow> u32 \<Rightarrow> idt_entry" where
  "make_gate func_ptr desc_level gate_type =
     (let t1 = ucast (push_bit 5 (desc_level AND 0x3) OR push_bit 7 1) :: u8;
          t2 = t1 OR ucast (gate_type AND 0xf);
          t3 = (if gate_type = INTERRUPT_GATE_16 \<or> gate_type = INTERRUPT_GATE_32
                  \<or> gate_type = TRAP_GATE_16 \<or> gate_type = TRAP_GATE_32
                then t2 AND NOT (push_bit 4 1) else t2 OR push_bit 4 1)
      in \<lparr>offset_low = ucast (func_ptr AND 0xffff), selector = 0x08, zero = 0, type_attr = t3,
          offset_high = ucast (drop_bit 16 (func_ptr AND 0xffff0000))\<rparr>)"

definition addIsrToIdt :: "idt \<Rightarrow> u8 \<Rightarrow> u32 \<Rightarrow> u32 \<Rightarrow> u32 \<Rightarrow> idt option" where
  "addIsrToIdt st num func_ptr desc_level gate_type =
     map_option (\<lambda>es. st\<lparr>idt_entries := es\<rparr>)
       (update_opt (idt_entries st) (unat num) (make_gate func_ptr desc_level gate_type))"

definition idtLoad :: "idt \<Rightarrow> idt" where
  "idtLoad st = st\<lparr>cpu := record_event (cpu st) (Lidt (idt_size st) (idt_addr st))\<rparr>"

text \<open>\<open>desc_level\<close> and \<open>type\<close> are \<open>uint8_t\<close> here.\<close>

definition idt_add_isr :: "idt \<Rightarrow> u8 \<Rightarrow> u32 \<Rightarrow> u8 \<Rightarrow> u8 \<Rightarrow> idt option" where
  "idt_add_isr st offset isr desc_level gate_type =
     Option.bind (addIsrToIdt (st\<lparr>cpu := cli (cpu st)\<rparr>) offset isr (ucast desc_level) (ucast gate_type))
       (\<lambda>st1. let st2 = idtLoad st1 in Some (st2\<lparr>cpu := sti (cpu st2)\<rparr>))"

section \<open>Exceptions\<close>

text \<open>The entry points, by the name of the symbol.\<close>

datatype isr =
    DivByZeroIsr | DebugIsr | BreakpointIsr | OverflowIsr | BoundRangeIsr | InvalidOpcodeIsr
  | DeviceNAIsr | DoubleFaultIsr | InvalidTSSIsr | SegNotPresIsr | StackSegIsr
  | GeneralProtFaultIsr | PageFaultIsr | FpeIsr | AlignCheckIsr | MachineCheckIsr | SimdFpeIsr
  | VirtIsr | PITIRQ_fn | PITIRQHandler_fn | KeyboardIsr | IdeIRQISR

fun add_isrs :: "(isr \<Rightarrow> u32) \<Rightarrow> idt \<Rightarrow> (u8 \<times> isr \<times> u32) list \<Rightarrow> idt option" where
  "add_isrs symbol_addr st [] = Some st"
| "add_isrs symbol_addr st ((num, f, gate) # gs) =
     Option.bind (addIsrToIdt st num (symbol_addr f) 0 gate) (\<lambda>st'. add_isrs symbol_addr st' gs)"

definition exception_gates :: "(u8 \<times> isr \<times> u32) list" where
  "exception_gates =
     [(0, DivByZeroIsr, TRAP_GATE_32), (1, DebugIsr, TRAP_GATE_32), (3, BreakpointIsr, TRAP_GATE_32),
      (4, OverflowIsr, TRAP_GATE_32), (5, BoundRangeIsr, TRAP_GATE_32),
      (6, InvalidOpcodeIsr, TRAP_GATE_32), (7, DeviceNAIsr, TRAP_GATE_32),
      (8, DoubleFaultIsr, TRAP_GATE_32), (10, InvalidTSSIsr, TRAP_GATE_32),
      (11, SegNotPresIsr, TRAP_GATE_32), (12, StackSegIsr, TRAP_GATE_32),
      (13, GeneralProtFaultIsr, TRAP_GATE_32), (14, PageFaultIsr, TRAP_GATE_32),
      (16, FpeIsr, TRAP_GATE_32), (17, AlignCheckIsr, TRAP_GATE_32),
      (18, MachineCheckIsr, TRAP_GATE_32), (19, SimdFpeIsr, TRAP_GATE_32), (20, VirtIsr, TRAP_GATE_32)]"

definition addExceptionsHandlersToIdt :: "(isr \<Rightarrow> u32) \<Rightarrow> idt \<Rightarrow> idt option" where
  "addExceptionsHandlersToIdt symbol_addr st = add_isrs symbol_addr st exception_gates"

definition irq_gates :: "(u8 \<times> isr \<times> u32) list" where
  "irq_gates = [(0x20, PITIRQ_fn, INTERRUPT_GATE_32), (0x21, KeyboardIsr, INTERRUPT_GATE_32),
     (0x20 + 14, IdeIRQISR, INTERRUPT_GATE_32), (0x20 + 15, IdeIRQISR, INTERRUPT_GATE_32)]"

text \<open>
  What a handler does: a message and a loop for ever, a message and a return, or the page
  fault handler of the paging code.
\<close>

datatype outcome = Halts string | Resumes string | Handles_page_fault

text \<open>The table a selector error code refers to, and the index in it.\<close>

definition fault_table :: "u32 \<Rightarrow> string" where
  "fault_table err = [''GDT'', ''IDT'', ''LDT'', ''IDT''] ! unat (drop_bit 1 (err AND 0x6))"

definition fault_index :: "u32 \<Rightarrow> u32" where
  "fault_index err = drop_bit 3 (err AND NOT 7)"

fun exception_handler :: "isr \<Rightarrow> u32 \<Rightarrow> outcome option" where
  "exception_handler DivByZeroIsr err = map_option Halts (kprintf ''Divide By Zero Fault\<newline>'' [])"
| "exception_handler DebugIsr err = map_option Halts (kprintf ''Debug Fault/Trap\<newline>'' [])"
| "exception_handler BreakpointIsr err = map_option Halts (kprintf ''Breakpoint Trap\<newline>'' [])"
| "exception_handler OverflowIsr err = map_option Resumes (kprintf ''Overflow occured\<newline>'' [])"
| "exception_handler BoundRangeIsr err = map_option Halts (kprintf ''Out of bounds fault\<newline>'' [])"
| "exception_handler InvalidOpcodeIsr err = map_option Halts (kprintf ''Invalid Opcode!\<newline>'' [])"
| "exception_handler DeviceNAIsr err =
     map_option Halts (kprintf ''Device Not Available Fault\<newline>'' [])"
| "exception_handler DoubleFaultIsr err = map_option Halts (kprintf ''Double fault\<newline>'' [])"
| "exception_handler InvalidTSSIsr err =
     map_option Halts (kprintf ''Invalid TSS Fault, error code: %d\<newline>'' [Va_int err])"
| "exception_handler SegNotPresIsr err =
     map_option Halts (kprintf ''Segment Not Present Fault, error code: %d\<newline>'' [Va_int err])"
| "exception_handler StackSegIsr err =
     map_option Halts (kprintf ''Stack Segmentation Fault, error code: %d\<newline>'' [Va_int err])"
| "exception_handler GeneralProtFaultIsr err =
     Option.bind (kprintf ''General Protection Fault, error code: 0b%b\<newline>'' [Va_int err])
       (\<lambda>l1. map_option (\<lambda>l2. Halts (l1 @ l2))
          (kprintf ''Table: %s, Selector Index: %d\<newline>''
             [Va_str (fault_table err), Va_int (fault_index err)]))"
| "exception_handler PageFaultIsr err = Some Handles_page_fault"
| "exception_handler FpeIsr err =
     map_option Halts (kprintf ''x87 Floating Point Exception (Fault)\<newline>'' [])"
| "exception_handler AlignCheckIsr err =
     map_option Halts (kprintf ''Alignment Check Fault, error code: %d\<newline>'' [Va_int err])"
| "exception_handler MachineCheckIsr err = map_option Halts (kprintf ''Machine Check (Abort)'' [])"
| "exception_handler SimdFpeIsr err =
     map_option Halts (kprintf ''SIMD Floating point Exception (Fault)'' [])"
| "exception_handler VirtIsr err =
     map_option Halts (kprintf ''Virtualization Exception (Fault)\<newline>'' [])"
| "exception_handler _ err = None"

section \<open>Initialisation\<close>

text \<open>
  The check of the loaded register at the end compares a local that is never filled
  (\<open>get_idt_register_value\<close> is commented out), so it reads size 0 and base 0.
\<close>

definition idt_check :: "u32 \<Rightarrow> string option" where
  "idt_check addr =
     (let stored_size = 0 :: u16; stored_addr = 0 :: u32
      in if stored_size = 0 \<or> stored_addr \<noteq> addr then
           Option.bind (kprintf ''Error: IDT Location does not match\<newline>'' []) (\<lambda>l1.
           Option.bind (kprintf ''IDT Base: 0x%x\<newline>'' [Va_int addr]) (\<lambda>l2.
           map_option (\<lambda>l3. l1 @ l2 @ l3) (kprintf ''Stored IDT Register: 0x%x\<newline>'' [Va_int stored_addr])))
         else Some [])"

definition idtInit :: "(isr \<Rightarrow> u32) \<Rightarrow> u32 \<Rightarrow> idt \<Rightarrow> idt option" where
  "idtInit symbol_addr table_addr st =
     (let st1 = st\<lparr>cpu := remapPIC (cpu st) 0x20 0x28,
                   idt_entries := map (\<lambda>_. zero_entry) (idt_entries st),
                   idt_size := 8 * 256 - 1, idt_addr := table_addr\<rparr>
      in Option.bind (addExceptionsHandlersToIdt symbol_addr st1) (\<lambda>st2.
         Option.bind (add_isrs symbol_addr st2 irq_gates) (\<lambda>st3.
           let st4 = idtLoad st3;
               st5 = st4\<lparr>cpu := outb (outb (cpu st4) PIC1_DATA 0x3C) PIC2_DATA 0xFF\<rparr>
           in map_option (\<lambda>lines. st5\<lparr>idt_console := idt_console st5 @ lines\<rparr>) (idt_check table_addr))))"

end
