(* ===== verification/Idt_Props.thy ===== *)
theory Idt_Props
  imports Idt
begin

text \<open>
  Properties of the interrupt set-up: gates decode to what they were made of, the table
  after \<open>idtInit\<close>, the lines left unmasked without a handler, and the masking of one line.
\<close>

section \<open>Reading a gate back\<close>

definition gate_handler :: "idt_entry \<Rightarrow> u32" where
  "gate_handler e = push_bit 16 (ucast (offset_high e)) OR ucast (offset_low e)"

definition gate_type_of :: "idt_entry \<Rightarrow> u8" where "gate_type_of e = type_attr e AND 0xf"
definition gate_dpl :: "idt_entry \<Rightarrow> u8" where "gate_dpl e = drop_bit 5 (type_attr e) AND 3"
definition gate_present :: "idt_entry \<Rightarrow> bool" where "gate_present e \<longleftrightarrow> bit (type_attr e) 7"
definition gate_storage :: "idt_entry \<Rightarrow> bool" where "gate_storage e \<longleftrightarrow> bit (type_attr e) 4"

lemma bit_low_masks:
  "bit (0xffff :: u32) n \<longleftrightarrow> n < 16" "bit (0xffff :: u16) n \<longleftrightarrow> n < 16"
  "bit (0xffff0000 :: u32) n \<longleftrightarrow> 16 \<le> n \<and> n < 32"
  "bit (0xf :: u32) n \<longleftrightarrow> n < 4" "bit (0xf :: u8) n \<longleftrightarrow> n < 4"
  "bit (3 :: u32) n \<longleftrightarrow> n < 2" "bit (3 :: u8) n \<longleftrightarrow> n < 2"
proof -
  have m: "(0xffff :: u32) = mask 16" "(0xffff :: u16) = mask 16"
    "(0xffff0000 :: u32) = push_bit 16 (mask 16)"
    "(0xf :: u32) = mask 4" "(0xf :: u8) = mask 4" "(3 :: u32) = mask 2" "(3 :: u8) = mask 2"
    by (simp_all add: mask_eq_exp_minus_1)
  show "bit (0xffff :: u32) n \<longleftrightarrow> n < 16" "bit (0xffff :: u16) n \<longleftrightarrow> n < 16"
    "bit (0xf :: u32) n \<longleftrightarrow> n < 4" "bit (0xf :: u8) n \<longleftrightarrow> n < 4"
    "bit (3 :: u32) n \<longleftrightarrow> n < 2" "bit (3 :: u8) n \<longleftrightarrow> n < 2"
    unfolding m bit_mask_iff by auto
  show "bit (0xffff0000 :: u32) n \<longleftrightarrow> 16 \<le> n \<and> n < 32"
    unfolding m(3) bit_push_bit_iff bit_mask_iff by auto
qed

lemma make_gate_decodes:
  shows "gate_handler (make_gate f dl gt) = f" "gate_type_of (make_gate f dl gt) = ucast (gt AND 0xf)"
    "gate_dpl (make_gate f dl gt) = ucast (dl AND 3)" "gate_present (make_gate f dl gt)"
    "gate_storage (make_gate f dl gt) \<longleftrightarrow> gt \<notin> {INTERRUPT_GATE_16, INTERRUPT_GATE_32, TRAP_GATE_16, TRAP_GATE_32}"
    "selector (make_gate f dl gt) = 8"
proof -
  define t2 :: u8 where "t2 = ucast (push_bit 5 (dl AND 0x3) OR lsh1 7) OR ucast (gt AND 0xf)"
  let ?sys = "gt = INTERRUPT_GATE_16 \<or> gt = INTERRUPT_GATE_32 \<or> gt = TRAP_GATE_16 \<or> gt = TRAP_GATE_32"
  have t: "type_attr (make_gate f dl gt) = (if ?sys then t2 AND NOT (lsh1 4) else t2 OR lsh1 4)"
    by (simp add: make_gate_def Let_def lsh1_def t2_def)
  have b: "bit t2 n \<longleftrightarrow> n < 4 \<and> bit gt n \<or> 5 \<le> n \<and> n < 7 \<and> bit dl (n - 5) \<or> n = 7" for n
    unfolding t2_def bit_or_iff bit_unsigned_iff bit_push_bit_iff bit_and_iff bit_lsh1 bit_low_masks
    by auto
  have ta: "bit (type_attr (make_gate f dl gt)) n \<longleftrightarrow> n < 4 \<and> bit gt n
      \<or> 5 \<le> n \<and> n < 7 \<and> bit dl (n - 5) \<or> n = 7 \<or> n = 4 \<and> \<not> ?sys" for n
  proof (cases ?sys)
    case True
    then have "type_attr (make_gate f dl gt) = t2 AND NOT (lsh1 4)" by (simp only: t if_True)
    then show ?thesis by (simp only: bit_and_iff bit_not_iff bit_lsh1 b True) auto
  next
    case False
    then have "type_attr (make_gate f dl gt) = t2 OR lsh1 4" by (simp only: t if_False)
    then show ?thesis by (simp only: bit_or_iff bit_lsh1 b False) auto
  qed
  have "bit (offset_low (make_gate f dl gt)) n \<longleftrightarrow> n < 16 \<and> bit f n"
    "bit (offset_high (make_gate f dl gt)) n \<longleftrightarrow> n < 16 \<and> bit f (16 + n)" for n
    using bit_imp_le_length [of f n] bit_imp_le_length [of f "16 + n"]
    unfolding make_gate_def Let_def idt_entry.select_convs bit_unsigned_iff bit_drop_bit_eq comp_apply
      bit_and_iff bit_low_masks
    by auto
  note off = this
  show "gate_handler (make_gate f dl gt) = f"
  proof (rule bit_word_eqI)
    fix n assume "n < LENGTH(32)"
    then show "bit (gate_handler (make_gate f dl gt)) n = bit f n"
      by (cases "n < 16") (auto simp: gate_handler_def bit_simps off)
  qed
  show "gate_type_of (make_gate f dl gt) = ucast (gt AND 0xf)"
    unfolding gate_type_of_def
    by (rule bit_word_eqI) (simp only: bit_and_iff bit_unsigned_iff bit_low_masks ta; auto)
  show "gate_dpl (make_gate f dl gt) = ucast (dl AND 3)"
    unfolding gate_dpl_def
    by (rule bit_word_eqI)
      (simp only: bit_and_iff bit_unsigned_iff bit_drop_bit_eq comp_apply bit_low_masks ta; auto)
  show "gate_present (make_gate f dl gt)"
    by (simp add: gate_present_def ta)
  show "gate_storage (make_gate f dl gt) \<longleftrightarrow>
      gt \<notin> {INTERRUPT_GATE_16, INTERRUPT_GATE_32, TRAP_GATE_16, TRAP_GATE_32}"
    by (auto simp: gate_storage_def ta)
  show "selector (make_gate f dl gt) = 8" by (simp add: make_gate_def Let_def)
qed

text \<open>
  C20: Installing a handler in a table of 256 gates succeeds for every vector; the gate then
  names the kernel code segment, the handler's whole address, the requested gate type and
  privilege level, and is present; every other gate is as before. The storage-segment bit
  is cleared for interrupt and trap gates and set for every other type, task gates included.
\<close>

theorem addIsrToIdt_decodes:
  assumes "length (idt_entries st) = 256"
  shows "\<exists>st'. addIsrToIdt st num f dl gt = Some st' \<and>
    (let e = idt_entries st' ! unat num
     in gate_handler e = f \<and> selector e = 8 \<and> gate_present e
        \<and> gate_type_of e = ucast (gt AND 0xf) \<and> gate_dpl e = ucast (dl AND 3)
        \<and> (gate_storage e \<longleftrightarrow> gt \<notin> {INTERRUPT_GATE_16, INTERRUPT_GATE_32, TRAP_GATE_16, TRAP_GATE_32}))
    \<and> (\<forall>i < 256. i \<noteq> unat num \<longrightarrow> idt_entries st' ! i = idt_entries st ! i)
    \<and> length (idt_entries st') = 256"
  using assms unat_lt_8 [of num] make_gate_decodes
  by (auto simp: addIsrToIdt_def Let_def)

definition blank_idt :: idt where
  "blank_idt = \<lparr>idt_entries = replicate 256 zero_entry, idt_size = 0, idt_addr = 0,
     cpu = idle_machine, idt_console = []\<rparr>"

theorem addIsrToIdt_decodes_witness:
  "\<exists>st'. addIsrToIdt blank_idt 0x21 0x12345678 0 INTERRUPT_GATE_32 = Some st'
     \<and> gate_handler (idt_entries st' ! 0x21) = 0x12345678 \<and> idt_entries st' ! 0 = zero_entry"
proof -
  have "length (idt_entries blank_idt) = 256" by (simp add: blank_idt_def)
  from addIsrToIdt_decodes [OF this, of "0x21" "0x12345678" 0 INTERRUPT_GATE_32] show ?thesis
    by (auto simp: Let_def blank_idt_def)
qed

section \<open>The table after initialisation\<close>

fun gate_for :: "(u8 \<times> isr \<times> u32) list \<Rightarrow> nat \<Rightarrow> (isr \<times> u32) option" where
  "gate_for [] v = None"
| "gate_for ((n, f, g) # gs) v = (case gate_for gs v of None \<Rightarrow> if unat n = v then Some (f, g) else None
     | Some r \<Rightarrow> Some r)"

lemma add_isrs_table:
  "length (idt_entries st) = 256 \<Longrightarrow>
   \<exists>st'. add_isrs sa st gs = Some st' \<and> length (idt_entries st') = 256 \<and> cpu st' = cpu st
     \<and> idt_size st' = idt_size st \<and> idt_addr st' = idt_addr st \<and> idt_console st' = idt_console st
     \<and> (\<forall>v < 256. idt_entries st' ! v = (case gate_for gs v of
           None \<Rightarrow> idt_entries st ! v | Some (f, g) \<Rightarrow> make_gate (sa f) 0 g))"
proof (induction gs arbitrary: st)
  case (Cons g gs)
  obtain n f gt where g: "g = (n, f, gt)" by (cases g)
  let ?st1 = "st\<lparr>idt_entries := (idt_entries st)[unat n := make_gate (sa f) 0 gt]\<rparr>"
  have a: "addIsrToIdt st n (sa f) 0 gt = Some ?st1"
    using Cons.prems unat_lt_8 [of n] by (simp add: addIsrToIdt_def)
  have len: "length (idt_entries ?st1) = 256" using Cons.prems by simp
  from Cons.IH [OF len] obtain st' where st': "add_isrs sa ?st1 gs = Some st'"
    "length (idt_entries st') = 256" "cpu st' = cpu ?st1" "idt_size st' = idt_size ?st1"
    "idt_addr st' = idt_addr ?st1" "idt_console st' = idt_console ?st1"
    and tab: "\<forall>v < 256. idt_entries st' ! v = (case gate_for gs v of
           None \<Rightarrow> idt_entries ?st1 ! v | Some (f, g) \<Rightarrow> make_gate (sa f) 0 g)"
    by blast
  have "idt_entries ?st1 ! v = (if unat n = v then make_gate (sa f) 0 gt else idt_entries st ! v)"
    if "v < 256" for v using that Cons.prems by (simp add: nth_list_update)
  with tab have "\<forall>v < 256. idt_entries st' ! v = (case gate_for (g # gs) v of
           None \<Rightarrow> idt_entries st ! v | Some (f, g) \<Rightarrow> make_gate (sa f) 0 g)"
    by (auto simp: g split: option.splits)
  then show ?case using st' a by (intro exI [of _ st']) (simp add: g)
qed simp

lemma idt_check_Some: "\<exists>lines. idt_check a = Some lines"
proof -
  have "\<exists>t. kvsprintf ''IDT Base: 0x%x\<newline>'' [Va_int a] = Some (t, True)"
    by (simp add: kvsprintf_def)
  then obtain l2 where "kprintf ''IDT Base: 0x%x\<newline>'' [Va_int a] = Some l2"
    using kprintf_terminated [of "''IDT Base: 0x%x\<newline>''" "[Va_int a]"] by auto
  moreover have "\<exists>t. kvsprintf ''Stored IDT Register: 0x%x\<newline>'' [Va_int 0] = Some (t, True)"
    by (simp add: kvsprintf_def)
  then obtain l3 where "kprintf ''Stored IDT Register: 0x%x\<newline>'' [Va_int 0] = Some l3"
    using kprintf_terminated [of "''Stored IDT Register: 0x%x\<newline>''" "[Va_int 0]"] by auto
  moreover have "\<exists>t. kvsprintf ''Error: IDT Location does not match\<newline>'' [] = Some (t, True)"
    by (simp add: kvsprintf_def)
  then obtain l1 where "kprintf ''Error: IDT Location does not match\<newline>'' [] = Some l1"
    using kprintf_terminated [of "''Error: IDT Location does not match\<newline>''" "[]"] by auto
  ultimately show ?thesis by (auto simp: idt_check_def Let_def)
qed

text \<open>The gates \<open>idtInit\<close> installs.\<close>

definition boot_gate :: "nat \<Rightarrow> (isr \<times> u32) option" where
  "boot_gate v = (case gate_for irq_gates v of None \<Rightarrow> gate_for exception_gates v | Some r \<Rightarrow> Some r)"

lemma idtInit_table:
  assumes "length (idt_entries st) = 256"
  shows "\<exists>st'. idtInit sa ta st = Some st' \<and> length (idt_entries st') = 256
    \<and> (\<forall>v < 256. idt_entries st' ! v = (case boot_gate v of
          None \<Rightarrow> zero_entry | Some (f, g) \<Rightarrow> make_gate (sa f) 0 g))
    \<and> io_log (cpu st') = io_log (remapPIC (cpu st) 0x20 0x28)
         @ [Lidt 2047 ta, Outb PIC1_DATA 0x3C, Outb PIC2_DATA 0xFF]
    \<and> idt_size st' = 2047 \<and> idt_addr st' = ta"
proof -
  let ?st1 = "st\<lparr>cpu := remapPIC (cpu st) 0x20 0x28, idt_entries := map (\<lambda>_. zero_entry) (idt_entries st),
     idt_size := 8 * 256 - 1, idt_addr := ta\<rparr>"
  have len: "length (idt_entries ?st1) = 256" using assms by simp
  have z: "idt_entries ?st1 ! v = zero_entry" if "v < 256" for v using that assms by simp
  from add_isrs_table [OF len, of sa exception_gates] obtain st2 where
    st2: "add_isrs sa ?st1 exception_gates = Some st2" "length (idt_entries st2) = 256"
    "cpu st2 = cpu ?st1" "idt_size st2 = idt_size ?st1" "idt_addr st2 = idt_addr ?st1"
    and tab: "\<forall>v < 256. idt_entries st2 ! v = (case gate_for exception_gates v of
           None \<Rightarrow> idt_entries ?st1 ! v | Some (f, g) \<Rightarrow> make_gate (sa f) 0 g)"
    by blast
  have tab2: "\<forall>v < 256. idt_entries st2 ! v = (case gate_for exception_gates v of
           None \<Rightarrow> zero_entry | Some (f, g) \<Rightarrow> make_gate (sa f) 0 g)"
    using tab z by (auto split: option.splits)
  obtain st3 where st3: "add_isrs sa st2 irq_gates = Some st3" "length (idt_entries st3) = 256"
    "cpu st3 = cpu st2" "idt_size st3 = idt_size st2" "idt_addr st3 = idt_addr st2"
    "\<forall>v < 256. idt_entries st3 ! v = (case gate_for irq_gates v of
           None \<Rightarrow> idt_entries st2 ! v | Some (f, g) \<Rightarrow> make_gate (sa f) 0 g)"
    using add_isrs_table [OF st2(2), of sa irq_gates] by blast
  obtain lines where l: "idt_check ta = Some lines" using idt_check_Some by blast
  have "\<forall>v < 256. idt_entries st3 ! v = (case boot_gate v of
      None \<Rightarrow> zero_entry | Some (f, g) \<Rightarrow> make_gate (sa f) 0 g)"
    using st3(6) tab2 by (auto simp: boot_gate_def split: option.splits)
  then show ?thesis
    using st2 st3 l
    by (simp add: idtInit_def Let_def addExceptionsHandlersToIdt_def idtLoad_def io_simps)
qed

lemma zero_entry_absent: "\<not> gate_present zero_entry"
  by (simp add: gate_present_def zero_entry_def)

lemma gate_for_mem: "gate_for gs v = Some (f, g) \<Longrightarrow> \<exists>n. (n, f, g) \<in> set gs \<and> unat n = v"
  by (induction gs v rule: gate_for.induct) (auto split: option.splits if_splits)

lemma boot_gate_types:
  "(n, f, g) \<in> set exception_gates \<Longrightarrow> g = TRAP_GATE_32 \<and> unat n < 32"
  "(n, f, g) \<in> set irq_gates \<Longrightarrow> g = INTERRUPT_GATE_32 \<and> 32 \<le> unat n"
  by (auto simp: exception_gates_def irq_gates_def)

text \<open>
  \<open>idtInit\<close> succeeds and leaves a table in which exactly the vectors of
  \<open>addExceptionsHandlersToIdt\<close> and the four IRQ vectors are present, each with the address
  of its handler, trap gates for exceptions and interrupt gates for IRQs, all for ring 0;
  and it loads that table.
\<close>

theorem idtInit_installs:
  assumes "length (idt_entries st) = 256" and "v < 256"
  shows "\<exists>st'. idtInit symbol_addr table_addr st = Some st'
    \<and> Lidt 2047 table_addr \<in> set (io_log (cpu st'))
    \<and> (case boot_gate v of
         None \<Rightarrow> \<not> gate_present (idt_entries st' ! v)
       | Some (f, g) \<Rightarrow> gate_present (idt_entries st' ! v)
           \<and> gate_handler (idt_entries st' ! v) = symbol_addr f
           \<and> gate_type_of (idt_entries st' ! v) = (if v < 32 then 0xF else 0xE)
           \<and> gate_dpl (idt_entries st' ! v) = 0 \<and> \<not> gate_storage (idt_entries st' ! v))"
proof -
  obtain st' where st': "idtInit symbol_addr table_addr st = Some st'"
    "idt_entries st' ! v = (case boot_gate v of
       None \<Rightarrow> zero_entry | Some (f, g) \<Rightarrow> make_gate (symbol_addr f) 0 g)"
    "Lidt 2047 table_addr \<in> set (io_log (cpu st'))"
    using idtInit_table [OF assms(1), of symbol_addr table_addr] assms(2) by auto
  have g: "g = (if v < 32 then TRAP_GATE_32 else INTERRUPT_GATE_32)" if "boot_gate v = Some (f, g)" for f g
    using that gate_for_mem [of exception_gates v f g] gate_for_mem [of irq_gates v f g] boot_gate_types
    by (fastforce simp: boot_gate_def split: option.splits)
  note zero_entry_absent
  then show ?thesis
    using st' g make_gate_decodes
    by (auto simp: TRAP_GATE_32_def INTERRUPT_GATE_32_def split: option.splits)
qed


lemma blank_idt_len: "length (idt_entries blank_idt) = 256"
  by (simp add: blank_idt_def)

theorem idtInit_installs_witness:
  "\<exists>st'. idtInit (\<lambda>f. if f = KeyboardIsr then 0xc0de else 0) 0x8000 blank_idt = Some st'
     \<and> gate_handler (idt_entries st' ! 0x21) = 0xc0de"
proof -
  have b: "boot_gate 0x21 = Some (KeyboardIsr, INTERRUPT_GATE_32)"
    by (simp add: boot_gate_def irq_gates_def)
  from idtInit_installs [OF blank_idt_len, of "0x21" "\<lambda>f. if f = KeyboardIsr then 0xc0de else 0" "0x8000"] b
  show ?thesis by auto
qed

section \<open>Interrupt masks\<close>

text \<open>A line is unmasked when its bit of the last mask written to its controller is clear.\<close>

definition line_unmasked :: "io_event list \<Rightarrow> nat \<Rightarrow> bool" where
  "line_unmasked log line =
     (case last_outb log (if line < 8 then PIC1_DATA else PIC2_DATA) of
        None \<Rightarrow> False | Some v \<Rightarrow> \<not> bit v (line mod 8))"

text \<open>The last masks of the two controllers; only a write to a mask port changes them.\<close>

definition masks :: "machine \<Rightarrow> u8 option \<times> u8 option" where
  "masks m = (last_outb (io_log m) PIC1_DATA, last_outb (io_log m) PIC2_DATA)"

lemma masks_simps [io_simps]:
  "p \<notin> {PIC1_DATA, PIC2_DATA} \<Longrightarrow> masks (outb m p v) = masks m"
  "masks (outb m PIC1_DATA v) = (Some v, snd (masks m))" "masks (outb m PIC2_DATA v) = (fst (masks m), Some v)"
  "masks (cli m) = masks m" "masks (sti m) = masks m" "masks (snd (inb dev m p)) = masks m"
  "masks (snd (inw dev m p)) = masks m"
  "masks (record_event m (Lidt l a)) = masks m" "masks (record_event m (Lgdt l a)) = masks m"
  "masks (record_event m (Ltr q)) = masks m" "masks (record_event m (Inb p v)) = masks m"
  "masks (m\<lparr>int_flag := b\<rparr>) = masks m"
  by (auto simp: masks_def io_simps last_outb_snoc cli_def sti_def record_event_def PIC1_DATA_def PIC2_DATA_def)

definition boot_masks :: "machine \<Rightarrow> bool" where
  "boot_masks m \<longleftrightarrow> masks m = (Some 0x3C, Some 0xFF)"

lemma mask_bits:
  "bit (0x3C :: u8) n \<longleftrightarrow> 2 \<le> n \<and> n < 6" "bit (0xFF :: u8) n \<longleftrightarrow> n < 8"
proof -
  have m: "(0x3C :: u8) = push_bit 2 (mask 4)" "(0xFF :: u8) = mask 8"
    by (simp_all add: mask_eq_exp_minus_1)
  show "bit (0x3C :: u8) n \<longleftrightarrow> 2 \<le> n \<and> n < 6"
    unfolding m bit_push_bit_iff bit_mask_iff by auto
  show "bit (0xFF :: u8) n \<longleftrightarrow> n < 8"
    unfolding m bit_mask_iff by auto
qed

lemma boot_masks_log:
  "io_log m = log @ [e, Outb PIC1_DATA 0x3C, Outb PIC2_DATA 0xFF] \<Longrightarrow> boot_masks m"
  using last_outb_snoc [of "log @ [e, Outb PIC1_DATA 0x3C]" "Outb PIC2_DATA 0xFF"]
    last_outb_snoc [of "log @ [e]" "Outb PIC1_DATA 0x3C"]
  by (simp add: boot_masks_def masks_def PIC1_DATA_def PIC2_DATA_def)

lemma boot_masks_lines:
  assumes "boot_masks m" and "line < 16"
  shows "line_unmasked (io_log m) line \<longleftrightarrow> line \<in> {0, 1, 6, 7}"
proof -
  have "line_unmasked (io_log m) line \<longleftrightarrow>
      (if line < 8 then \<not> bit (0x3C :: u8) (line mod 8) else \<not> bit (0xFF :: u8) (line mod 8))"
    using assms(1) by (simp add: line_unmasked_def boot_masks_def masks_def)
  also have "\<dots> \<longleftrightarrow> line \<in> {0, 1, 6, 7}"
    unfolding mask_bits using assms(2) mod_less_divisor [of 8 line] by auto
  finally show ?thesis .
qed

text \<open>
  After \<open>idtInit\<close> the unmasked interrupt lines are exactly 0, 1, 6 and 7. Lines 0 and 1
  have gates (vectors 0x20 and 0x21); lines 6 and 7 have none, so an interrupt on them faults;
  and the disk lines 14 and 15, whose gates are installed, stay masked.
\<close>

theorem idtInit_masks:
  assumes "length (idt_entries st) = 256" and "line < 16"
  shows "\<exists>st'. idtInit symbol_addr table_addr st = Some st'
    \<and> (line_unmasked (io_log (cpu st')) line \<longleftrightarrow> line \<in> {0, 1, 6, 7})
    \<and> (gate_present (idt_entries st' ! (0x20 + line)) \<longleftrightarrow> line \<in> {0, 1, 14, 15})"
proof -
  obtain st' where st': "idtInit symbol_addr table_addr st = Some st'"
    "idt_entries st' ! (0x20 + line) = (case boot_gate (0x20 + line) of
       None \<Rightarrow> zero_entry | Some (f, g) \<Rightarrow> make_gate (symbol_addr f) 0 g)"
    and log: "io_log (cpu st') = io_log (remapPIC (cpu st) 0x20 0x28)
         @ [Lidt 2047 table_addr, Outb PIC1_DATA 0x3C, Outb PIC2_DATA 0xFF]"
    using idtInit_table [OF assms(1), of symbol_addr table_addr] assms(2) by auto
  have um: "line_unmasked (io_log (cpu st')) line \<longleftrightarrow> line \<in> {0, 1, 6, 7}"
    by (rule boot_masks_lines [OF boot_masks_log [OF log] assms(2)])
  have ex: "gate_for exception_gates (0x20 + line) = None"
    using gate_for_mem [of exception_gates "0x20 + line"] boot_gate_types(1)
    by (cases "gate_for exception_gates (0x20 + line)") fastforce+
  have "boot_gate (0x20 + line) \<noteq> None \<longleftrightarrow> line \<in> {0, 1, 14, 15}"
    by (auto simp: boot_gate_def ex irq_gates_def split: option.splits if_splits)
  then have "gate_present (idt_entries st' ! (0x20 + line)) \<longleftrightarrow> line \<in> {0, 1, 14, 15}"
    using st'(2) by (cases "boot_gate (0x20 + line)") (auto simp: make_gate_decodes(4) zero_entry_absent)
  with um st'(1) show ?thesis by (intro exI [of _ st'] conjI)
qed

theorem idtInit_masks_witness:
  "\<exists>st'. idtInit (\<lambda>_. 0) 0x8000 blank_idt = Some st' \<and> line_unmasked (io_log (cpu st')) 7
     \<and> \<not> gate_present (idt_entries st' ! 0x27)"
  using idtInit_masks [OF blank_idt_len, of 7 "\<lambda>_. 0" "0x8000"] by auto

text \<open>
  Masking a line reads the mask of the controller the line belongs to and writes it back
  with that line's bit set and all others as read; unmasking clears that bit and keeps the
  others. Nothing else reaches the ports.
\<close>

theorem irq_mask_one_line:
  assumes "unat irq_line < 16"
  shows "let port = (if irq_line < 8 then PIC1_DATA else PIC2_DATA);
      v = read8 dev (io_log m) port
    in (\<exists>w. io_log (irqSetMask dev m irq_line) = io_log m @ [Inb port v, Outb port w]
          \<and> (\<forall>k < 8. bit w k \<longleftrightarrow> bit v k \<or> k = unat irq_line mod 8))
      \<and> (\<exists>w. io_log (irqClearMask dev m irq_line) = io_log m @ [Inb port v, Outb port w]
          \<and> (\<forall>k < 8. bit w k \<longleftrightarrow> bit v k \<and> k \<noteq> unat irq_line mod 8))"
proof -
  define line where "line = (if irq_line < 8 then irq_line else irq_line - 8)"
  have ul: "unat line = unat irq_line mod 8"
  proof (cases "irq_line < 8")
    case False
    then have "unat line = unat irq_line - 8"
      by (simp add: line_def unat_sub word_le_nat_alt word_less_nat_alt)
    with False assms show ?thesis by (simp add: word_less_nat_alt mod_if)
  qed (simp add: line_def word_less_nat_alt)
  have b: "bit (ucast (push_bit (unat line) 1 :: u32) :: u8) k \<longleftrightarrow> k = unat line"
    "bit (ucast (NOT (push_bit (unat line) 1 :: u32)) :: u8) k \<longleftrightarrow> k \<noteq> unat line" if "k < 8" for k
    using that by (auto simp: bit_simps ul)
  let ?port = "if irq_line < 8 then PIC1_DATA else PIC2_DATA"
  let ?v = "read8 dev (io_log m) ?port"
  have "io_log (irqSetMask dev m irq_line) = io_log m @
      [Inb ?port ?v, Outb ?port (?v OR ucast (push_bit (unat line) 1 :: u32))]"
    by (simp add: irqSetMask_def line_def inb_def Let_def io_simps)
  moreover have "io_log (irqClearMask dev m irq_line) = io_log m @
      [Inb ?port ?v, Outb ?port (?v AND ucast (NOT (push_bit (unat line) 1 :: u32)))]"
    by (simp add: irqClearMask_def line_def inb_def Let_def io_simps)
  ultimately show ?thesis
    unfolding Let_def using b ul by (auto simp: bit_or_iff bit_and_iff)
qed

theorem irq_mask_one_line_witness:
  "\<exists>w. io_log (irqSetMask (constant_device 0x3C) idle_machine 14) = [Inb 0xA1 0x3C, Outb 0xA1 w]
     \<and> bit w 6"
proof -
  have "unat (14 :: u8) < 16" by simp
  from irq_mask_one_line [OF this, of "constant_device 0x3C" idle_machine] show ?thesis
    by (auto simp: Let_def constant_device_def idle_machine_def PIC2_DATA_def)
qed

end
