(* ===== verification/Syscall.thy ===== *)
theory Syscall
  imports Idt_Props "HOL-Library.Monad_Syntax"
begin

text \<open>
  The system call gate (\<open>src/syscall.c\<close>), added to the table that \<open>idtInit\<close> built. The address of
  the assembly entry point \<open>syscall_isr\<close> is a parameter.
\<close>

section \<open>Model\<close>

definition syscalls_init :: "u32 \<Rightarrow> idt \<Rightarrow> idt option" where
  "syscalls_init syscall_isr st =
     do {
       line \<leftarrow> kprintf ''INIT SYSCALLS\<newline>'' [];
       idt_add_isr (st\<lparr>idt_console := idt_console st @ line\<rparr>) 0x80 syscall_isr 3 (ucast INTERRUPT_GATE_32)
     }"

section \<open>Privilege\<close>

text \<open>The gates software in ring 3 can call.\<close>

definition user_gates :: "idt \<Rightarrow> nat set" where
  "user_gates st = {v. v < 256 \<and> gate_present (idt_entries st ! v) \<and> gate_dpl (idt_entries st ! v) = 3}"

lemma syscalls_init_gate:
  assumes "length (idt_entries st) = 256"
  shows "\<exists>st'. syscalls_init isr st = Some st'
    \<and> idt_entries st' = (idt_entries st)[128 := make_gate isr 3 INTERRUPT_GATE_32]
    \<and> io_log (cpu st') = io_log (cpu st) @ [Cli, Lidt (idt_size st) (idt_addr st), Sti] \<and> int_flag (cpu st')"
proof -
  have "kprintf ''INIT SYSCALLS\<newline>'' [] \<noteq> None"
    using kprintf_terminated [of "''INIT SYSCALLS\<newline>''" "[]"] by (auto simp: kvsprintf_def)
  then obtain line where "kprintf ''INIT SYSCALLS\<newline>'' [] = Some line" by blast
  then show ?thesis using assms
    by (simp add: syscalls_init_def idt_add_isr_def addIsrToIdt_def Let_def idtLoad_def INTERRUPT_GATE_32_def
        cli_def sti_def record_event_def)
qed

text \<open>
  Once \<open>idtInit\<close> and then \<open>syscalls_init\<close> have run, ring 3 can enter the kernel through one
  gate only, vector \<open>0x80\<close>: an interrupt gate to \<open>syscall_isr\<close>. Every other vector is as
  \<open>idtInit\<close> left it, and the table is loaded again with interrupts off around the change.
\<close>

theorem syscall_gate_only:
  assumes "length (idt_entries st) = 256"
  shows "\<exists>st1 st2. idtInit symbol_addr table_addr st = Some st1 \<and> syscalls_init isr st1 = Some st2
    \<and> user_gates st1 = {} \<and> user_gates st2 = {0x80}
    \<and> gate_handler (idt_entries st2 ! 0x80) = isr \<and> gate_type_of (idt_entries st2 ! 0x80) = 0xE
    \<and> (\<forall>v < 256. v \<noteq> 0x80 \<longrightarrow> idt_entries st2 ! v = idt_entries st1 ! v)
    \<and> io_log (cpu st2) = io_log (cpu st1) @ [Cli, Lidt 2047 table_addr, Sti]"
proof -
  obtain st1 where st1: "idtInit symbol_addr table_addr st = Some st1" "length (idt_entries st1) = 256"
    "\<forall>v < 256. idt_entries st1 ! v = (case boot_gate v of
       None \<Rightarrow> zero_entry | Some (f, g) \<Rightarrow> make_gate (symbol_addr f) 0 g)"
    "idt_size st1 = 2047" "idt_addr st1 = table_addr"
    using idtInit_table [OF assms] by blast
  obtain st2 where st2: "syscalls_init isr st1 = Some st2"
    "idt_entries st2 = (idt_entries st1)[128 := make_gate isr 3 INTERRUPT_GATE_32]"
    "io_log (cpu st2) = io_log (cpu st1) @ [Cli, Lidt (idt_size st1) (idt_addr st1), Sti]"
    using syscalls_init_gate [OF st1(2)] by blast
  have none: "\<not> (gate_present (idt_entries st1 ! v) \<and> gate_dpl (idt_entries st1 ! v) = 3)" if "v < 256" for v
    using st1(3) that make_gate_decodes(3) zero_entry_absent by (auto split: option.splits)
  have u1: "user_gates st1 = {}" using none by (auto simp: user_gates_def)
  have u2: "user_gates st2 = {0x80}"
    using none st1(2) make_gate_decodes(3,4) by (auto simp: user_gates_def st2(2) nth_list_update)
  show ?thesis
    using st1 st2 u1 u2 make_gate_decodes(1,2) by (auto simp: INTERRUPT_GATE_32_def)
qed

theorem syscall_gate_only_witness:
  "\<exists>st1 st2. idtInit (\<lambda>_. 0) 0x8000 blank_idt = Some st1 \<and> syscalls_init 0xbeef st1 = Some st2
     \<and> user_gates st2 = {0x80} \<and> gate_handler (idt_entries st2 ! 0x80) = 0xbeef"
  using syscall_gate_only [OF blank_idt_len, of "\<lambda>_. 0" "0x8000" "0xbeef"] by auto

end
