(* ===== verification/Gdt.thy ===== *)
theory Gdt
  imports Port_IO Kstdio
begin

text \<open>
  The global descriptor table and the task state segment (\<open>src/gdt.c\<close>,
  \<open>include/scheduler.h\<close>). A descriptor is the packed structure of bit-fields of the
  source; \<open>encode_gdt\<close> gives its eight bytes, least significant field first, as the
  compiler lays it out. The addresses of the tables and of the kernel stack are
  parameters, and so is the value \<open>sgdt\<close> stores.
\<close>

section \<open>Descriptors\<close>

record GDTEntry =
  g_limit_low :: u32
  g_base_low :: u32
  g_accessed :: u32
  g_read_write :: u32
  g_direction_conforming :: u32
  g_executable :: u32
  g_type :: u32
  g_privilege :: u32
  g_present :: u32
  g_limit_high :: u32
  g_available :: u32
  g_long_mode :: u32
  g_sz :: u32
  g_granularity :: u32
  g_base_high :: u32

definition null_gdt :: GDTEntry where
  "null_gdt = \<lparr>g_limit_low = 0, g_base_low = 0, g_accessed = 0, g_read_write = 0,
     g_direction_conforming = 0, g_executable = 0, g_type = 0, g_privilege = 0, g_present = 0,
     g_limit_high = 0, g_available = 0, g_long_mode = 0, g_sz = 0, g_granularity = 0,
     g_base_high = 0\<rparr>"

text \<open>Storing a value in a bit-field of \<open>w\<close> bits keeps its low \<open>w\<close> bits.\<close>

definition encode_gdt :: "GDTEntry \<Rightarrow> 64 word" where
  "encode_gdt e =
     ucast (take_bit 16 (g_limit_low e))
     OR push_bit 16 (ucast (take_bit 24 (g_base_low e)))
     OR push_bit 40 (ucast (take_bit 1 (g_accessed e)))
     OR push_bit 41 (ucast (take_bit 1 (g_read_write e)))
     OR push_bit 42 (ucast (take_bit 1 (g_direction_conforming e)))
     OR push_bit 43 (ucast (take_bit 1 (g_executable e)))
     OR push_bit 44 (ucast (take_bit 1 (g_type e)))
     OR push_bit 45 (ucast (take_bit 2 (g_privilege e)))
     OR push_bit 47 (ucast (take_bit 1 (g_present e)))
     OR push_bit 48 (ucast (take_bit 4 (g_limit_high e)))
     OR push_bit 52 (ucast (take_bit 1 (g_available e)))
     OR push_bit 53 (ucast (take_bit 1 (g_long_mode e)))
     OR push_bit 54 (ucast (take_bit 1 (g_sz e)))
     OR push_bit 55 (ucast (take_bit 1 (g_granularity e)))
     OR push_bit 56 (ucast (take_bit 8 (g_base_high e)))"

definition generateRing0CodeSegment :: GDTEntry where
  "generateRing0CodeSegment = null_gdt\<lparr>g_present := 1, g_privilege := 0, g_limit_low := 0xFFFF,
     g_limit_high := 0xF, g_base_low := 0x0, g_base_high := 0x0, g_granularity := 1,
     g_executable := 1, g_type := 1, g_read_write := 1, g_sz := 1\<rparr>"

definition generateRing3CodeSegment :: GDTEntry where
  "generateRing3CodeSegment = null_gdt\<lparr>g_present := 1, g_privilege := 3, g_limit_low := 0xFFFF,
     g_limit_high := 0xF, g_base_low := 0x0, g_base_high := 0x0, g_granularity := 1,
     g_executable := 1, g_type := 1, g_read_write := 1, g_sz := 1\<rparr>"

section \<open>The task state segment\<close>

record TSSEntry =
  prev_tss :: u32
  esp0 :: u32
  ss0 :: u32
  esp1 :: u32
  ss1 :: u32
  esp2 :: u32
  ss2 :: u32
  cr3 :: u32
  tss_eip :: u32
  tss_eflags :: u32
  tss_eax :: u32
  tss_ecx :: u32
  tss_edx :: u32
  tss_ebx :: u32
  tss_esp :: u32
  tss_ebp :: u32
  tss_esi :: u32
  tss_edi :: u32
  tss_es :: u32
  tss_cs :: u32
  tss_ss :: u32
  tss_ds :: u32
  tss_fs :: u32
  tss_gs :: u32
  tss_ldtr :: u32
  tss_trap :: u16
  iomap_base :: u16

text \<open>Twenty-five double words and two words.\<close>

definition sizeof_TSSEntry :: u32 where "sizeof_TSSEntry = 25 * 4 + 2 * 2"

definition zero_tss :: TSSEntry where
  "zero_tss = \<lparr>prev_tss = 0, esp0 = 0, ss0 = 0, esp1 = 0, ss1 = 0, esp2 = 0, ss2 = 0, cr3 = 0,
     tss_eip = 0, tss_eflags = 0, tss_eax = 0, tss_ecx = 0, tss_edx = 0, tss_ebx = 0,
     tss_esp = 0, tss_ebp = 0, tss_esi = 0, tss_edi = 0, tss_es = 0, tss_cs = 0,
     tss_ss = 0, tss_ds = 0, tss_fs = 0, tss_gs = 0, tss_ldtr = 0, tss_trap = 0,
     iomap_base = 0\<rparr>"

definition generateTSS :: "u32 \<Rightarrow> GDTEntry" where
  "generateTSS tss_addr =
     (let base = tss_addr; limit = sizeof_TSSEntry
      in null_gdt\<lparr>g_limit_low := limit, g_base_low := base, g_accessed := 1, g_read_write := 0,
           g_direction_conforming := 0, g_executable := 1, g_type := 0, g_privilege := 3,
           g_present := 1, g_limit_high := drop_bit 16 (limit AND push_bit 16 0xf),
           g_available := 0, g_granularity := 0,
           g_base_high := drop_bit 24 (base AND push_bit 24 0xff)\<rparr>)"

definition writeTSSEntry :: "u16 \<Rightarrow> u32 \<Rightarrow> TSSEntry" where
  "writeTSSEntry stack_segment kernel_stack_ptr =
     zero_tss\<lparr>ss0 := ucast stack_segment, esp0 := kernel_stack_ptr, tss_cs := 0x0b, tss_ds := 0x10,
       tss_ss := 0x10, tss_gs := 0x10, tss_fs := 0x10, tss_es := 0x10\<rparr>"

definition tssSetKernelStack :: "TSSEntry \<Rightarrow> u32 \<Rightarrow> TSSEntry" where
  "tssSetKernelStack tss stack = tss\<lparr>esp0 := stack\<rparr>"

section \<open>Initialisation\<close>

record gdt_state =
  GDT :: "GDTEntry list"
  tss_entry :: TSSEntry
  gp_limit :: u16
  gp_base :: u32
  gdt_cpu :: machine
  gdt_console :: string

definition gdtSetGate :: "gdt_state \<Rightarrow> nat \<Rightarrow> GDTEntry \<Rightarrow> gdt_state option" where
  "gdtSetGate st num entry = map_option (\<lambda>g. st\<lparr>GDT := g\<rparr>) (update_opt (GDT st) num entry)"

fun gdt_set_gates :: "gdt_state \<Rightarrow> (nat \<times> GDTEntry) list \<Rightarrow> gdt_state option" where
  "gdt_set_gates st [] = Some st"
| "gdt_set_gates st ((num, entry) # es) =
     Option.bind (gdtSetGate st num entry) (\<lambda>st'. gdt_set_gates st' es)"

definition gdt_print :: "gdt_state \<Rightarrow> string \<Rightarrow> u32 \<Rightarrow> gdt_state option" where
  "gdt_print st fmt v =
     map_option (\<lambda>line. st\<lparr>gdt_console := gdt_console st @ line\<rparr>) (kprintf fmt [Va_int v])"

definition gdt_gates :: "u32 \<Rightarrow> (nat \<times> GDTEntry) list" where
  "gdt_gates tss_addr =
     [(0, null_gdt), (1, generateRing0CodeSegment), (2, generateRing0CodeSegment\<lparr>g_executable := 0\<rparr>),
      (3, generateRing3CodeSegment), (4, generateRing3CodeSegment\<lparr>g_executable := 0\<rparr>),
      (5, generateTSS tss_addr)]"

text \<open>
  The result is \<open>Inl\<close> when the register does not hold what was loaded and the code loops
  for ever. \<open>sgdt\<close> is what the processor stores: limit and base.
\<close>

definition gdtInit ::
    "(gdt_state \<Rightarrow> u16 \<times> u32) \<Rightarrow> u32 \<Rightarrow> u32 \<Rightarrow> u32 \<Rightarrow> gdt_state \<Rightarrow> (gdt_state + gdt_state) option" where
  "gdtInit sgdt gdt_addr tss_addr kernel_stack_top st =
     Option.bind (gdt_set_gates st (take 5 (gdt_gates tss_addr))) (\<lambda>st1.
     Option.bind (gdt_print st1 ''kernel_stack_top: 0x%x\<newline>'' kernel_stack_top) (\<lambda>st2.
     Option.bind (gdt_set_gates st2 (drop 5 (gdt_gates tss_addr))) (\<lambda>st3.
     Option.bind (gdt_print (st3\<lparr>tss_entry := writeTSSEntry 0x10 kernel_stack_top\<rparr>)
        ''GDT loc: 0x%x\<newline>'' gdt_addr) (\<lambda>st4.
       let st5 = st4\<lparr>gp_limit := 8 * 6 - 1, gp_base := gdt_addr\<rparr>;
           m1 = record_event (gdt_cpu st5) (Lgdt (gp_limit st5) (gp_base st5));
           st6 = st5\<lparr>gdt_cpu := record_event m1 (Ltr 0x2B)\<rparr>;
           (stored_limit, stored_base) = sgdt st6
       in Some (if stored_limit = 0 \<or> stored_base \<noteq> gp_base st6 then Inl st6 else Inr st6)))))"

section \<open>What a descriptor means to the processor\<close>

definition desc_base :: "64 word \<Rightarrow> u32" where
  "desc_base d = ucast (take_bit 24 (drop_bit 16 d)) OR push_bit 24 (ucast (take_bit 8 (drop_bit 56 d)))"

definition desc_limit :: "64 word \<Rightarrow> u32" where
  "desc_limit d = ucast (take_bit 16 d) OR push_bit 16 (ucast (take_bit 4 (drop_bit 48 d)))"

definition desc_dpl :: "64 word \<Rightarrow> u32" where
  "desc_dpl d = ucast (take_bit 2 (drop_bit 45 d))"

text \<open>The number of bytes the segment spans: limit + 1, times 4096 with the granularity bit.\<close>

definition desc_span :: "64 word \<Rightarrow> nat" where
  "desc_span d = (unat (desc_limit d) + 1) * (if bit d 55 then 4096 else 1)"

lemma bit_encode:
  "bit (encode_gdt e) n \<longleftrightarrow>
     n < 16 \<and> bit (g_limit_low e) n
   \<or> 16 \<le> n \<and> n < 40 \<and> bit (g_base_low e) (n - 16)
   \<or> n = 40 \<and> bit (g_accessed e) 0 \<or> n = 41 \<and> bit (g_read_write e) 0
   \<or> n = 42 \<and> bit (g_direction_conforming e) 0 \<or> n = 43 \<and> bit (g_executable e) 0
   \<or> n = 44 \<and> bit (g_type e) 0 \<or> 45 \<le> n \<and> n < 47 \<and> bit (g_privilege e) (n - 45)
   \<or> n = 47 \<and> bit (g_present e) 0 \<or> 48 \<le> n \<and> n < 52 \<and> bit (g_limit_high e) (n - 48)
   \<or> n = 52 \<and> bit (g_available e) 0 \<or> n = 53 \<and> bit (g_long_mode e) 0
   \<or> n = 54 \<and> bit (g_sz e) 0 \<or> n = 55 \<and> bit (g_granularity e) 0
   \<or> 56 \<le> n \<and> n < 64 \<and> bit (g_base_high e) (n - 56)"
proof -
  have f: "bit (push_bit k (ucast (take_bit w (x :: u32)) :: 64 word)) n \<longleftrightarrow>
      k \<le> n \<and> n < k + w \<and> bit x (n - k)" if "k + w \<le> 64" for k w x
    using that bit_imp_le_length [of x "n - k"] by (auto simp: bit_simps)
  have g: "bit (ucast (take_bit 16 (x :: u32)) :: 64 word) n \<longleftrightarrow> n < 16 \<and> bit x n" for x
    by (auto simp: bit_simps)
  have f1: "bit (push_bit k (ucast (take_bit 1 (x :: u32)) :: 64 word)) n \<longleftrightarrow> n = k \<and> bit x 0"
    if "k < 64" for k x
  proof -
    have "k \<le> n \<and> n < k + 1 \<longleftrightarrow> n = k" by auto
    with f [of k 1 x] that show ?thesis by auto
  qed
  have lt: "(40 :: nat) < 64" "(41 :: nat) < 64" "(42 :: nat) < 64" "(43 :: nat) < 64" "(44 :: nat) < 64"
    "(47 :: nat) < 64" "(52 :: nat) < 64" "(53 :: nat) < 64" "(54 :: nat) < 64" "(55 :: nat) < 64"
    by simp_all
  show ?thesis
    unfolding encode_gdt_def bit_or_iff
    by (simp only: g f [of 16 24, simplified] f [of 45 2, simplified] f [of 48 4, simplified]
        f [of 56 8, simplified] f1 lt)
qed

end
