(* ===== verification/Gdt_Props.thy ===== *)
theory Gdt_Props
  imports Gdt
begin

text \<open>
  What the descriptors of \<open>gdtInit\<close> mean to the processor: flat segments for the kernel and
  for user programs, and the task state segment.
\<close>

lemma desc_base_encode:
  "desc_base (encode_gdt e) = take_bit 24 (g_base_low e) OR push_bit 24 (take_bit 8 (g_base_high e))"
proof (rule bit_word_eqI)
  fix n assume n: "n < LENGTH(32)"
  have "bit (desc_base (encode_gdt e)) n \<longleftrightarrow>
      n < 24 \<and> bit (encode_gdt e) (16 + n) \<or> 24 \<le> n \<and> bit (encode_gdt e) (32 + n)"
    using n by (auto simp: desc_base_def bit_simps)
  also have "n < 24 \<Longrightarrow> bit (encode_gdt e) (16 + n) = bit (g_base_low e) n"
    unfolding bit_encode by auto
  then have "n < 24 \<and> bit (encode_gdt e) (16 + n) \<longleftrightarrow> n < 24 \<and> bit (g_base_low e) n" by blast
  also have "24 \<le> n \<and> bit (encode_gdt e) (32 + n) \<longleftrightarrow> 24 \<le> n \<and> bit (g_base_high e) (n - 24)"
    unfolding bit_encode using n by auto
  finally show "bit (desc_base (encode_gdt e)) n =
      bit (take_bit 24 (g_base_low e) OR push_bit 24 (take_bit 8 (g_base_high e))) n"
    using n by (auto simp: bit_simps)
qed

lemma desc_limit_encode:
  "desc_limit (encode_gdt e) = take_bit 16 (g_limit_low e) OR push_bit 16 (take_bit 4 (g_limit_high e))"
proof (rule bit_word_eqI)
  fix n assume n: "n < LENGTH(32)"
  have "bit (desc_limit (encode_gdt e)) n \<longleftrightarrow>
      n < 16 \<and> bit (encode_gdt e) n \<or> 16 \<le> n \<and> n < 20 \<and> bit (encode_gdt e) (32 + n)"
    using n by (auto simp: desc_limit_def bit_simps)
  also have "n < 16 \<and> bit (encode_gdt e) n \<longleftrightarrow> n < 16 \<and> bit (g_limit_low e) n"
    unfolding bit_encode by auto
  also have "16 \<le> n \<and> n < 20 \<and> bit (encode_gdt e) (32 + n) \<longleftrightarrow>
      16 \<le> n \<and> n < 20 \<and> bit (g_limit_high e) (n - 16)"
    unfolding bit_encode by auto
  finally show "bit (desc_limit (encode_gdt e)) n =
      bit (take_bit 16 (g_limit_low e) OR push_bit 16 (take_bit 4 (g_limit_high e))) n"
    using n by (auto simp: bit_simps)
qed

lemma desc_dpl_encode: "desc_dpl (encode_gdt e) = take_bit 2 (g_privilege e)"
proof (rule bit_word_eqI)
  fix n assume n: "n < LENGTH(32)"
  have "bit (desc_dpl (encode_gdt e)) n \<longleftrightarrow> n < 2 \<and> bit (encode_gdt e) (45 + n)"
    using n by (auto simp: desc_dpl_def bit_simps)
  also have "\<dots> \<longleftrightarrow> n < 2 \<and> bit (g_privilege e) n"
    unfolding bit_encode by auto
  finally show "bit (desc_dpl (encode_gdt e)) n = bit (take_bit 2 (g_privilege e)) n"
    by (simp add: bit_simps)
qed

lemma desc_flags_encode:
  "bit (encode_gdt e) 43 = bit (g_executable e) 0" "bit (encode_gdt e) 44 = bit (g_type e) 0"
  "bit (encode_gdt e) 47 = bit (g_present e) 0" "bit (encode_gdt e) 54 = bit (g_sz e) 0"
  "bit (encode_gdt e) 55 = bit (g_granularity e) 0"
  by (simp_all add: bit_encode)

text \<open>A flat segment: all of the 4 GiB from address 0, 32-bit, present, code or data.\<close>

definition flat_segment :: "64 word \<Rightarrow> bool \<Rightarrow> u32 \<Rightarrow> bool" where
  "flat_segment d code ring \<longleftrightarrow> desc_base d = 0 \<and> desc_span d = 4294967296 \<and> desc_dpl d = ring
     \<and> bit d 47 \<and> bit d 44 \<and> bit d 54 \<and> (bit d 43 \<longleftrightarrow> code)"

lemma flat_segments:
  "flat_segment (encode_gdt generateRing0CodeSegment) True 0"
  "flat_segment (encode_gdt (generateRing0CodeSegment\<lparr>g_executable := 0\<rparr>)) False 0"
  "flat_segment (encode_gdt generateRing3CodeSegment) True 3"
  "flat_segment (encode_gdt (generateRing3CodeSegment\<lparr>g_executable := 0\<rparr>)) False 3"
  by (simp_all add: flat_segment_def desc_span_def desc_base_encode desc_limit_encode desc_dpl_encode
      desc_flags_encode generateRing0CodeSegment_def generateRing3CodeSegment_def null_gdt_def
      take_bit_eq_mask mask_eq_exp_minus_1)

lemma tss_base: "desc_base (encode_gdt (generateTSS a)) = a"
proof (rule bit_word_eqI)
  fix n assume n: "n < LENGTH(32)"
  have m: "(0xff000000 :: u32) = push_bit 24 (mask 8)" by (simp add: mask_eq_exp_minus_1)
  have "desc_base (encode_gdt (generateTSS a))
      = take_bit 24 a OR push_bit 24 (take_bit 8 (drop_bit 24 (a AND push_bit 24 (mask 8))))"
    by (simp add: desc_base_encode generateTSS_def m [symmetric])
  then show "bit (desc_base (encode_gdt (generateTSS a))) n = bit a n"
    using n by (auto simp: bit_simps)
qed

lemma gdt_print_Some:
  assumes "\<exists>t. kvsprintf fmt [Va_int v] = Some (t, True)" and "length fmt < 900"
  shows "\<exists>line. gdt_print st fmt v = Some (st\<lparr>gdt_console := gdt_console st @ line\<rparr>)"
proof -
  obtain t where "kvsprintf fmt [Va_int v] = Some (t, True)" using assms(1) by blast
  from kprintf_terminated [OF this] assms(2) show ?thesis by (auto simp: gdt_print_def)
qed

lemma gdtInit_loads:
  assumes "length (GDT st) = 6"
  shows "\<exists>st' r. gdtInit sgdt gdt_addr tss_addr stack_top st = Some r
    \<and> r = (if fst (sgdt st') = 0 \<or> snd (sgdt st') \<noteq> gdt_addr then Inl st' else Inr st')
    \<and> encode_gdt (GDT st' ! 0) = 0
    \<and> flat_segment (encode_gdt (GDT st' ! 1)) True 0 \<and> flat_segment (encode_gdt (GDT st' ! 2)) False 0
    \<and> flat_segment (encode_gdt (GDT st' ! 3)) True 3 \<and> flat_segment (encode_gdt (GDT st' ! 4)) False 3
    \<and> desc_base (encode_gdt (GDT st' ! 5)) = tss_addr
    \<and> unat (desc_limit (encode_gdt (GDT st' ! 5))) = unat sizeof_TSSEntry
    \<and> esp0 (tss_entry st') = stack_top \<and> ss0 (tss_entry st') = 0x10
    \<and> io_log (gdt_cpu st') = io_log (gdt_cpu st) @ [Lgdt 47 gdt_addr, Ltr 0x2B]
    \<and> int_flag (gdt_cpu st') = int_flag (gdt_cpu st) \<and> gp_limit st' = 47 \<and> gp_base st' = gdt_addr"
proof -
  obtain a b c d e f where g: "GDT st = [a, b, c, d, e, f]"
    using assms by (auto simp: length_Suc_conv eval_nat_numeral)
  define st1 where "st1 = st\<lparr>GDT := [null_gdt, generateRing0CodeSegment,
     generateRing0CodeSegment\<lparr>g_executable := 0\<rparr>, generateRing3CodeSegment,
     generateRing3CodeSegment\<lparr>g_executable := 0\<rparr>, f]\<rparr>"
  have g1: "gdt_set_gates st (take 5 (gdt_gates tss_addr)) = Some st1"
    by (simp add: gdt_gates_def gdtSetGate_def g st1_def)
  obtain l1 where p1: "gdt_print st1 ''kernel_stack_top: 0x%x\<newline>'' stack_top
      = Some (st1\<lparr>gdt_console := gdt_console st1 @ l1\<rparr>)"
    using gdt_print_Some [of "''kernel_stack_top: 0x%x\<newline>''" stack_top st1]
    by (auto simp: kvsprintf_def)
  define st3 where "st3 = st1\<lparr>gdt_console := gdt_console st1 @ l1, GDT := [null_gdt, generateRing0CodeSegment,
     generateRing0CodeSegment\<lparr>g_executable := 0\<rparr>, generateRing3CodeSegment,
     generateRing3CodeSegment\<lparr>g_executable := 0\<rparr>, generateTSS tss_addr],
     tss_entry := writeTSSEntry 0x10 stack_top\<rparr>"
  obtain l2 where p2: "gdt_print st3 ''GDT loc: 0x%x\<newline>'' gdt_addr
      = Some (st3\<lparr>gdt_console := gdt_console st3 @ l2\<rparr>)"
    using gdt_print_Some [of "''GDT loc: 0x%x\<newline>''" gdt_addr st3] by (auto simp: kvsprintf_def)
  let ?st6 = "st3\<lparr>gdt_console := gdt_console st3 @ l2, gp_limit := 47, gp_base := gdt_addr,
     gdt_cpu := record_event (record_event (gdt_cpu st3) (Lgdt 47 gdt_addr)) (Ltr 0x2B)\<rparr>"
  have g3: "gdt_set_gates (st1\<lparr>gdt_console := gdt_console st1 @ l1\<rparr>) (drop 5 (gdt_gates tss_addr))
      = Some (st1\<lparr>gdt_console := gdt_console st1 @ l1, GDT := GDT st3\<rparr>)"
    by (simp add: gdt_gates_def gdtSetGate_def st1_def st3_def)
  have s3: "st1\<lparr>gdt_console := gdt_console st1 @ l1, GDT := GDT st3, tss_entry := writeTSSEntry 0x10 stack_top\<rparr>
      = st3" by (simp add: st3_def)
  have run: "gdtInit sgdt gdt_addr tss_addr stack_top st = Some
      (if fst (sgdt ?st6) = 0 \<or> snd (sgdt ?st6) \<noteq> gdt_addr then Inl ?st6 else Inr ?st6)"
    by (simp add: gdtInit_def g1 p1 g3 s3 p2 Let_def split_beta)
  have "encode_gdt null_gdt = 0" by (simp add: encode_gdt_def null_gdt_def)
  moreover have "unat (desc_limit (encode_gdt (generateTSS tss_addr))) = unat sizeof_TSSEntry"
    by (simp add: desc_limit_encode generateTSS_def sizeof_TSSEntry_def null_gdt_def take_bit_eq_mask mask_eq_exp_minus_1)
  moreover have "io_log (gdt_cpu ?st6) = io_log (gdt_cpu st) @ [Lgdt 47 gdt_addr, Ltr 0x2B]"
    "int_flag (gdt_cpu ?st6) = int_flag (gdt_cpu st)"
    by (simp_all add: io_simps st3_def st1_def)
  ultimately show ?thesis
    using run flat_segments tss_base [of tss_addr]
    by (intro exI [of _ ?st6] exI) (auto simp: st3_def writeTSSEntry_def)
qed

text \<open>
  \<open>gdtInit\<close> loads a table of six descriptors at the address of \<open>GDT\<close>: the null one, flat
  code and data segments for ring 0 and ring 3, and a descriptor whose base is the address of
  the task state segment; the task state segment names the kernel stack and its selector for
  the switch to ring 0. It returns exactly when the register then reads back a limit other
  than 0 and the same base. The limit of the task state descriptor is its size, one more than
  the last byte.
\<close>

theorem gdtInit_segments:
  assumes "length (GDT st) = 6"
  shows "\<exists>st' r. gdtInit sgdt gdt_addr tss_addr stack_top st = Some r
    \<and> r = (if fst (sgdt st') = 0 \<or> snd (sgdt st') \<noteq> gdt_addr then Inl st' else Inr st')
    \<and> encode_gdt (GDT st' ! 0) = 0
    \<and> flat_segment (encode_gdt (GDT st' ! 1)) True 0 \<and> flat_segment (encode_gdt (GDT st' ! 2)) False 0
    \<and> flat_segment (encode_gdt (GDT st' ! 3)) True 3 \<and> flat_segment (encode_gdt (GDT st' ! 4)) False 3
    \<and> desc_base (encode_gdt (GDT st' ! 5)) = tss_addr
    \<and> unat (desc_limit (encode_gdt (GDT st' ! 5))) = unat sizeof_TSSEntry
    \<and> esp0 (tss_entry st') = stack_top \<and> ss0 (tss_entry st') = 0x10
    \<and> io_log (gdt_cpu st') = io_log (gdt_cpu st) @ [Lgdt 47 gdt_addr, Ltr 0x2B]"
  using gdtInit_loads [OF assms, of sgdt gdt_addr tss_addr stack_top] by blast

definition blank_gdt :: gdt_state where
  "blank_gdt = \<lparr>GDT = replicate 6 null_gdt, tss_entry = zero_tss, gp_limit = 0, gp_base = 0,
     gdt_cpu = idle_machine, gdt_console = []\<rparr>"

theorem gdtInit_segments_witness:
  "\<exists>st'. gdtInit (\<lambda>st. (gp_limit st, 0x9000)) 0x9000 0x9100 0x10000 blank_gdt = Some st'"
proof -
  have "length (GDT blank_gdt) = 6" by (simp add: blank_gdt_def)
  from gdtInit_segments [OF this, of "\<lambda>st. (gp_limit st, 0x9000)" "0x9000" "0x9100" "0x10000"]
  show ?thesis by blast
qed

end
