(* ===== verification/Timer.thy ===== *)
theory Timer
  imports Idt
begin

text \<open>
  The programmable interval timer (\<open>src/timer/timer.c\<close>): 50 software counters that the
  timer interrupt advances, sleeping, and the initialisation, which every counter operation
  triggers on first use. Interrupts that arrive while \<open>pitSleep\<close> waits are a parameter:
  the number of timer interrupts in each window in which it leaves them enabled.
\<close>

section \<open>State\<close>

definition PIT_CHANNEL_0_DATA :: u16 where "PIT_CHANNEL_0_DATA = 0x40"
definition PIT_COMMAND_REG :: u16 where "PIT_COMMAND_REG = 0x43"
definition PIT_NUM_COUNTERS :: nat where "PIT_NUM_COUNTERS = 50"

record PITCounter =
  active :: bool
  count :: u32

record pit =
  pit_initialized :: bool
  frequency :: u32
  pit_counters :: "PITCounter list"
  sleep_counter :: u32 \<comment> \<open>an \<open>int32_t\<close>\<close>
  pit_idt :: idt

datatype PITError = PITCountersFull | PITOutOfRange
datatype PITResult = Counter_id u8 | Count u32 | Done | PIT_Error PITError

definition pit_machine :: "pit \<Rightarrow> (machine \<Rightarrow> machine) \<Rightarrow> pit" where
  "pit_machine st f = st\<lparr>pit_idt := (pit_idt st)\<lparr>cpu := f (cpu (pit_idt st))\<rparr>\<rparr>"

section \<open>The interrupt\<close>

definition tick :: "PITCounter \<Rightarrow> PITCounter" where
  "tick c = (if active c then c\<lparr>count := count c + 1\<rparr> else c)"

definition PITIRQ :: "pit \<Rightarrow> pit" where
  "PITIRQ st =
     (let st1 = st\<lparr>pit_counters := map tick (pit_counters st)\<rparr>;
          st2 = (if 0 <s sleep_counter st1 then st1\<lparr>sleep_counter := sleep_counter st1 - 1\<rparr> else st1)
      in pit_machine st2 (\<lambda>m. outb (outb m 0x20 0x20) 0xa0 0x20))"

definition readPITCount :: "device \<Rightarrow> pit \<Rightarrow> u16 \<times> pit" where
  "readPITCount dev st =
     (let m1 = outb (cli (cpu (pit_idt st))) PIT_COMMAND_REG 0;
          (lo, m2) = inb dev m1 PIT_CHANNEL_0_DATA;
          (hi, m3) = inb dev m2 PIT_CHANNEL_0_DATA
      in (ucast lo OR push_bit 8 (ucast hi), pit_machine st (\<lambda>_. sti m3)))"

definition setPITCount :: "pit \<Rightarrow> u16 \<Rightarrow> pit" where
  "setPITCount st c = pit_machine st (\<lambda>m.
     sti (outb (outb (cli m) PIT_CHANNEL_0_DATA (ucast (c AND 0xff)))
       PIT_CHANNEL_0_DATA (ucast (drop_bit 8 (c AND 0xff00)))))"

section \<open>Sleeping\<close>

text \<open>
  One element of the list per turn of the loop: the number of timer interrupts taken
  between \<open>sti\<close> and the next \<open>cli\<close>. The result is \<open>None\<close> when the call is still waiting
  at the end of the list.
\<close>

fun pitSleep_loop :: "pit \<Rightarrow> nat list \<Rightarrow> pit option" where
  "pitSleep_loop st ticks =
     (let st1 = pit_machine st cli
      in if sleep_counter st1 = 0 then Some st1
         else (case ticks of
                 [] \<Rightarrow> None
               | n # ns \<Rightarrow> pitSleep_loop ((PITIRQ ^^ n) (pit_machine st1 sti)) ns))"

declare pitSleep_loop.simps [simp del]

definition pitSleep :: "pit \<Rightarrow> u32 \<Rightarrow> nat list \<Rightarrow> pit option" where
  "pitSleep st num_millis ticks = pitSleep_loop (st\<lparr>sleep_counter := num_millis\<rparr>) ticks"

section \<open>Initialisation\<close>

definition initPITTimer :: "(isr \<Rightarrow> u32) \<Rightarrow> pit \<Rightarrow> pit option" where
  "initPITTimer symbol_addr st =
     (let st0 = pit_machine st cli
      in if pit_initialized st0 then Some st0
         else
           let st1 = st0\<lparr>pit_counters := map (\<lambda>_. \<lparr>active = False, count = 0\<rparr>) (pit_counters st0)\<rparr>;
               st2 = pit_machine st1 (\<lambda>m. outb (outb (outb (outb m PIT_COMMAND_REG 0x34)
                       PIT_CHANNEL_0_DATA 0xa9) PIT_CHANNEL_0_DATA 0x04) PIT_COMMAND_REG 0xe2);
               st3 = st2\<lparr>frequency := 1000\<rparr>
           in map_option (\<lambda>i. pit_machine (st3\<lparr>pit_idt := i, pit_initialized := True\<rparr>) sti)
                (idt_add_isr (pit_idt st3) 0x20 (symbol_addr PITIRQHandler_fn) 0 (ucast INTERRUPT_GATE_32)))"

definition with_pit :: "(isr \<Rightarrow> u32) \<Rightarrow> pit \<Rightarrow> (pit \<Rightarrow> 'a option) \<Rightarrow> 'a option" where
  "with_pit symbol_addr st k =
     Option.bind (if pit_initialized st then Some st else initPITTimer symbol_addr st) k"

definition pitGetFrequency :: "(isr \<Rightarrow> u32) \<Rightarrow> pit \<Rightarrow> (u32 \<times> pit) option" where
  "pitGetFrequency symbol_addr st = with_pit symbol_addr st (\<lambda>st'. Some (frequency st', st'))"

definition isPITInitialized :: "pit \<Rightarrow> bool" where
  "isPITInitialized st = pit_initialized st"

section \<open>Counters\<close>

fun first_inactive :: "PITCounter list \<Rightarrow> nat \<Rightarrow> nat option" where
  "first_inactive [] i = None"
| "first_inactive (c # cs) i = (if \<not> active c then Some i else first_inactive cs (i + 1))"

definition pitAddCounter :: "(isr \<Rightarrow> u32) \<Rightarrow> pit \<Rightarrow> (PITResult \<times> pit) option" where
  "pitAddCounter symbol_addr st = with_pit symbol_addr st (\<lambda>st'.
     case first_inactive (take PIT_NUM_COUNTERS (pit_counters st')) 0 of
       None \<Rightarrow> Some (PIT_Error PITCountersFull, st')
     | Some i \<Rightarrow> Some (Counter_id (of_nat i),
         st'\<lparr>pit_counters := (pit_counters st')[i := (pit_counters st' ! i)\<lparr>active := True\<rparr>]\<rparr>))"

definition pitDeactivateCounter :: "(isr \<Rightarrow> u32) \<Rightarrow> pit \<Rightarrow> u8 \<Rightarrow> (PITResult \<times> pit) option" where
  "pitDeactivateCounter symbol_addr st counter_id = with_pit symbol_addr st (\<lambda>st'.
     if unat counter_id > PIT_NUM_COUNTERS then Some (PIT_Error PITOutOfRange, st')
     else map_option (\<lambda>cs. (Done, st'\<lparr>pit_counters := cs\<rparr>))
            (update_opt (pit_counters st') (unat counter_id) \<lparr>active = False, count = 0\<rparr>))"

definition pitGetCounterCount :: "(isr \<Rightarrow> u32) \<Rightarrow> pit \<Rightarrow> u8 \<Rightarrow> (PITResult \<times> pit) option" where
  "pitGetCounterCount symbol_addr st counter_id = with_pit symbol_addr st (\<lambda>st'.
     if unat counter_id > PIT_NUM_COUNTERS then Some (PIT_Error PITOutOfRange, st')
     else map_option (\<lambda>c. (Count (count c), st')) (nth_opt (pit_counters st') (unat counter_id)))"

definition pitResetCounter :: "(isr \<Rightarrow> u32) \<Rightarrow> pit \<Rightarrow> u8 \<Rightarrow> (PITResult \<times> pit) option" where
  "pitResetCounter symbol_addr st counter_id = with_pit symbol_addr st (\<lambda>st'.
     if unat counter_id > PIT_NUM_COUNTERS then Some (PIT_Error PITOutOfRange, st')
     else Option.bind (nth_opt (pit_counters st') (unat counter_id)) (\<lambda>c.
       map_option (\<lambda>cs. (Done, st'\<lparr>pit_counters := cs\<rparr>))
         (update_opt (pit_counters st') (unat counter_id) (c\<lparr>count := 0\<rparr>))))"

end
