(* ===== verification/Timer_Props.thy ===== *)
theory Timer_Props
  imports Timer Idt_Props
begin

text \<open>
  Properties of the timer: a counter counts the timer interrupts since it was handed out,
  the allocation of counters and its error case, the index check that is off by one, and
  when \<open>pitSleep\<close> returns.
\<close>

section \<open>The counters\<close>

definition pit_ok :: "pit \<Rightarrow> bool" where
  "pit_ok st \<longleftrightarrow> pit_initialized st \<and> length (pit_counters st) = 50
     \<and> (\<forall>c \<in> set (pit_counters st). \<not> active c \<longrightarrow> count c = 0)"

lemma with_pit_ok [simp]: "pit_initialized st \<Longrightarrow> with_pit sa st k = k st"
  by (simp add: with_pit_def)

lemma pit_machine_simps [simp]:
  "pit_counters (pit_machine st f) = pit_counters st" "sleep_counter (pit_machine st f) = sleep_counter st"
  "pit_initialized (pit_machine st f) = pit_initialized st" "frequency (pit_machine st f) = frequency st"
  "cpu (pit_idt (pit_machine st f)) = f (cpu (pit_idt st))"
  by (simp_all add: pit_machine_def)

lemma PITIRQ_counters [simp]:
  "pit_counters (PITIRQ st) = map tick (pit_counters st)" "pit_initialized (PITIRQ st) = pit_initialized st"
  by (simp_all add: PITIRQ_def Let_def)

lemma pit_ok_PITIRQ: "pit_ok st \<Longrightarrow> pit_ok (PITIRQ st)"
  by (auto simp: pit_ok_def tick_def)

lemma pit_ok_update:
  "pit_ok st \<Longrightarrow> i < 50 \<Longrightarrow> (\<not> active c \<longrightarrow> count c = 0) \<Longrightarrow>
     pit_ok (st\<lparr>pit_counters := (pit_counters st)[i := c]\<rparr>)"
  by (auto simp: pit_ok_def set_update_subset_insert [THEN subsetD, THEN insertE]
      dest!: set_update_subset_insert [THEN subsetD])

lemma first_inactive_spec:
  "first_inactive cs k = (case find (\<lambda>i. \<not> active (cs ! i)) [0..<length cs] of
     None \<Rightarrow> None | Some i \<Rightarrow> Some (k + i))"
proof (induction cs arbitrary: k)
  case (Cons c cs)
  have "find P (map Suc xs) = map_option Suc (find (\<lambda>i. P (Suc i)) xs)" for P xs
    by (induction xs) auto
  then have "find (\<lambda>i. \<not> active ((c # cs) ! i)) [0..<length (c # cs)] =
      (if \<not> active c then Some 0 else map_option Suc (find (\<lambda>i. \<not> active (cs ! i)) [0..<length cs]))"
    by (simp add: upt_conv_Cons map_Suc_upt [symmetric] del: upt_Suc)
  then show ?case using Cons.IH by (auto split: option.splits)
qed simp

lemma pitAddCounter_cases:
  assumes "pit_ok st"
  shows "(\<exists>i < 50. \<not> active (pit_counters st ! i) \<and> (\<forall>j < i. active (pit_counters st ! j))
      \<and> pitAddCounter sa st = Some (Counter_id (of_nat i),
          st\<lparr>pit_counters := (pit_counters st)[i := \<lparr>active = True, count = 0\<rparr>]\<rparr>))
    \<or> ((\<forall>j < 50. active (pit_counters st ! j))
      \<and> pitAddCounter sa st = Some (PIT_Error PITCountersFull, st))"
proof -
  have len: "length (pit_counters st) = 50" and init: "pit_initialized st"
    using assms by (simp_all add: pit_ok_def)
  have fi: "first_inactive (take PIT_NUM_COUNTERS (pit_counters st)) 0 =
      find (\<lambda>i. \<not> active (pit_counters st ! i)) [0..<50]"
    using first_inactive_spec [of "pit_counters st" 0] len
    by (simp add: PIT_NUM_COUNTERS_def split: option.splits)
  show ?thesis
  proof (cases "find (\<lambda>i. \<not> active (pit_counters st ! i)) [0..<50]")
    case None
    then have "pitAddCounter sa st = Some (PIT_Error PITCountersFull, st)"
      using init fi by (simp add: pitAddCounter_def)
    moreover have "\<forall>j < 50. active (pit_counters st ! j)" using None by (auto simp: find_None_iff)
    ultimately show ?thesis by blast
  next
    case (Some i)
    then have i: "i < 50" "\<not> active (pit_counters st ! i)" "\<forall>j < i. active (pit_counters st ! j)"
      by (auto simp: find_Some_iff)
    have "count (pit_counters st ! i) = 0" using assms i len by (simp add: pit_ok_def)
    with i(2) have "(pit_counters st ! i)\<lparr>active := True\<rparr> = \<lparr>active = True, count = 0\<rparr>" by simp
    then show ?thesis using i init fi Some by (auto simp: pitAddCounter_def)
  qed
qed

section \<open>Sequences of operations\<close>

datatype pit_op = Tick | Add | Deactivate u8 | Reset u8 | Get u8

fun pit_step :: "(isr \<Rightarrow> u32) \<Rightarrow> pit_op \<Rightarrow> pit \<Rightarrow> pit option" where
  "pit_step sa Tick st = Some (PITIRQ st)"
| "pit_step sa Add st = map_option snd (pitAddCounter sa st)"
| "pit_step sa (Deactivate i) st = map_option snd (pitDeactivateCounter sa st i)"
| "pit_step sa (Reset i) st = map_option snd (pitResetCounter sa st i)"
| "pit_step sa (Get i) st = map_option snd (pitGetCounterCount sa st i)"

fun pit_run :: "(isr \<Rightarrow> u32) \<Rightarrow> pit_op list \<Rightarrow> pit \<Rightarrow> pit option" where
  "pit_run sa [] st = Some st"
| "pit_run sa (op # ops) st = Option.bind (pit_step sa op st) (pit_run sa ops)"

text \<open>Operations on counters below 50 that leave counter \<open>i\<close> to the interrupt.\<close>

fun spares :: "u8 \<Rightarrow> pit_op \<Rightarrow> bool" where
  "spares i (Deactivate j) \<longleftrightarrow> j \<noteq> i \<and> j < 50"
| "spares i (Reset j) \<longleftrightarrow> j \<noteq> i \<and> j < 50"
| "spares i (Get j) \<longleftrightarrow> j < 50"
| "spares i _ \<longleftrightarrow> True"

lemma u8_index: "(j :: u8) < 50 \<Longrightarrow> unat j < 50" "j \<noteq> i \<Longrightarrow> unat j \<noteq> unat (i :: u8)"
  by (simp_all add: word_less_nat_alt word_unat_eq_iff)

lemma pit_step_spares:
  assumes ok: "pit_ok st" and i: "unat i < 50" and act: "active (pit_counters st ! unat i)"
    and sp: "spares i op"
  shows "\<exists>st'. pit_step sa op st = Some st' \<and> pit_ok st' \<and> active (pit_counters st' ! unat i)
    \<and> count (pit_counters st' ! unat i) = count (pit_counters st ! unat i) + (if op = Tick then 1 else 0)"
proof -
  have len: "length (pit_counters st) = 50" and init: "pit_initialized st"
    using ok by (simp_all add: pit_ok_def)
  show ?thesis
  proof (cases op)
    case Tick
    then show ?thesis using ok i act len pit_ok_PITIRQ by (auto simp: tick_def)
  next
    case Add
    show ?thesis
      using pitAddCounter_cases [OF ok, of sa]
    proof (elim disjE exE conjE)
      fix k assume k: "k < 50" "\<not> active (pit_counters st ! k)"
        and r: "pitAddCounter sa st = Some (Counter_id (of_nat k),
          st\<lparr>pit_counters := (pit_counters st)[k := \<lparr>active = True, count = 0\<rparr>]\<rparr>)"
      have "k \<noteq> unat i" using k(2) act by auto
      then show ?thesis using Add r act ok k(1) pit_ok_update by simp
    qed (use Add act ok in simp)
  next
    case (Deactivate j)
    then have j: "unat j < 50" "unat j \<noteq> unat i" using sp u8_index by auto
    then show ?thesis
      using Deactivate init len act ok pit_ok_update
      by (simp add: pitDeactivateCounter_def PIT_NUM_COUNTERS_def)
  next
    case (Reset j)
    then have j: "unat j < 50" "unat j \<noteq> unat i" using sp u8_index by auto
    then show ?thesis
      using Reset init len act ok pit_ok_update
      by (simp add: pitResetCounter_def PIT_NUM_COUNTERS_def)
  next
    case (Get j)
    then have "unat j < 50" using sp u8_index by auto
    then show ?thesis
      using Get init len act ok by (simp add: pitGetCounterCount_def PIT_NUM_COUNTERS_def)
  qed
qed

lemma pit_run_spares:
  "pit_ok st \<Longrightarrow> unat i < 50 \<Longrightarrow> active (pit_counters st ! unat i) \<Longrightarrow> \<forall>op \<in> set ops. spares i op \<Longrightarrow>
   \<exists>st'. pit_run sa ops st = Some st' \<and> pit_ok st' \<and> active (pit_counters st' ! unat i)
     \<and> count (pit_counters st' ! unat i)
         = count (pit_counters st ! unat i) + of_nat (length (filter ((=) Tick) ops))"
proof (induction ops arbitrary: st)
  case (Cons op ops)
  from pit_step_spares [OF Cons.prems(1-3), of op sa] Cons.prems(4) obtain st1 where
    st1: "pit_step sa op st = Some st1" "pit_ok st1" "active (pit_counters st1 ! unat i)"
    "count (pit_counters st1 ! unat i) = count (pit_counters st ! unat i) + (if op = Tick then 1 else 0)"
    by auto
  from Cons.IH [OF st1(2) Cons.prems(2) st1(3)] Cons.prems(4) obtain st' where
    "pit_run sa ops st1 = Some st'" "pit_ok st'" "active (pit_counters st' ! unat i)"
    "count (pit_counters st' ! unat i) = count (pit_counters st1 ! unat i)
       + of_nat (length (filter ((=) Tick) ops))" by auto
  with st1 show ?case by auto
qed simp


section \<open>Properties of counters\<close>

text \<open>
  C21: A counter handed out by \<open>pitAddCounter\<close> reads, after any sequence of timer interrupts
  and of operations that deactivate or reset only other counters, the number of timer
  interrupts since, modulo \<open>2 ^ 32\<close>; none of these operations fails.
\<close>

theorem counter_counts_ticks:
  assumes "pit_ok st" and "pitAddCounter symbol_addr st = Some (Counter_id i, st1)"
    and "\<forall>op \<in> set ops. spares i op"
  shows "\<exists>st2. pit_run symbol_addr ops st1 = Some st2
    \<and> pitGetCounterCount symbol_addr st2 i
        = Some (Count (of_nat (length (filter ((=) Tick) ops))), st2)"
proof -
  obtain k where k: "k < 50" "i = of_nat k"
    "st1 = st\<lparr>pit_counters := (pit_counters st)[k := \<lparr>active = True, count = 0\<rparr>]\<rparr>"
    using pitAddCounter_cases [OF assms(1), of symbol_addr] assms(2) by auto
  then have ui: "unat i = k" by (simp add: unat_of_nat)
  have len: "length (pit_counters st) = 50" using assms(1) by (simp add: pit_ok_def)
  have "pit_ok st1" using pit_ok_update [OF assms(1) k(1)] by (simp add: k(3))
  moreover have "active (pit_counters st1 ! unat i)" "count (pit_counters st1 ! unat i) = 0"
    using k len ui by simp_all
  ultimately obtain st2 where st2: "pit_run symbol_addr ops st1 = Some st2" "pit_ok st2"
    "count (pit_counters st2 ! unat i) = of_nat (length (filter ((=) Tick) ops))"
    using pit_run_spares [of st1 i ops symbol_addr] k(1) ui assms(3) by auto
  then have "pitGetCounterCount symbol_addr st2 i
      = Some (Count (of_nat (length (filter ((=) Tick) ops))), st2)"
    using k(1) ui by (simp add: pitGetCounterCount_def pit_ok_def PIT_NUM_COUNTERS_def)
  with st2(1) show ?thesis by blast
qed

definition fresh_pit :: pit where
  "fresh_pit = \<lparr>pit_initialized = True, frequency = 1000,
     pit_counters = replicate 50 \<lparr>active = False, count = 0\<rparr>, sleep_counter = 0, pit_idt = blank_idt\<rparr>"

lemma fresh_pit_ok: "pit_ok fresh_pit"
  by (simp add: pit_ok_def fresh_pit_def)

lemma fresh_pit_add:
  "\<exists>st1. pitAddCounter sa fresh_pit = Some (Counter_id 0, st1)"
proof -
  have "\<not> active (pit_counters fresh_pit ! 0)" by (simp add: fresh_pit_def)
  with pitAddCounter_cases [OF fresh_pit_ok, of sa] show ?thesis by force
qed

theorem counter_counts_ticks_witness:
  "\<exists>st1 st2 st3. pitAddCounter (\<lambda>_. 0) fresh_pit = Some (Counter_id 0, st1)
     \<and> pit_run (\<lambda>_. 0) [Tick, Add, Tick, Reset 1, Tick] st1 = Some st2
     \<and> pitGetCounterCount (\<lambda>_. 0) st2 0 = Some (Count 3, st3)"
proof -
  obtain st1 where st1: "pitAddCounter (\<lambda>_. 0) fresh_pit = Some (Counter_id 0, st1)"
    using fresh_pit_add by blast
  from counter_counts_ticks [OF fresh_pit_ok st1, of "[Tick, Add, Tick, Reset 1, Tick]"] st1
  show ?thesis by auto
qed

text \<open>
  \<open>pitAddCounter\<close> hands out the lowest inactive counter, starting at 0, and leaves the
  others alone; it reports \<open>PITCountersFull\<close> exactly when all 50 are active.
\<close>

theorem pitAddCounter_allocates:
  assumes "pit_ok st"
  shows "(\<exists>i < 50. \<not> active (pit_counters st ! i) \<and> (\<forall>j < i. active (pit_counters st ! j))
      \<and> pitAddCounter symbol_addr st = Some (Counter_id (of_nat i),
          st\<lparr>pit_counters := (pit_counters st)[i := \<lparr>active = True, count = 0\<rparr>]\<rparr>))
    \<or> ((\<forall>j < 50. active (pit_counters st ! j))
      \<and> pitAddCounter symbol_addr st = Some (PIT_Error PITCountersFull, st))"
  by (rule pitAddCounter_cases [OF assms])

theorem pitAddCounter_allocates_witness:
  "\<exists>i st'. pitAddCounter (\<lambda>_. 0) fresh_pit = Some (Counter_id i, st')"
proof -
  have "\<not> active (pit_counters fresh_pit ! 0)" by (simp add: fresh_pit_def)
  with pitAddCounter_allocates [OF fresh_pit_ok, of "\<lambda>_. 0"] show ?thesis by force
qed

text \<open>
  Reading, resetting or deactivating a counter works for the ids below 50 and reports
  \<open>PITOutOfRange\<close> for ids above 50; the id 50 passes the check and indexes past the table.
\<close>

theorem counter_id_check:
  assumes "pit_ok st"
  shows "if unat i < 50 then
      pitGetCounterCount symbol_addr st i = Some (Count (count (pit_counters st ! unat i)), st)
      \<and> (\<exists>st'. pitResetCounter symbol_addr st i = Some (Done, st')
          \<and> count (pit_counters st' ! unat i) = 0
          \<and> active (pit_counters st' ! unat i) = active (pit_counters st ! unat i))
      \<and> (\<exists>st'. pitDeactivateCounter symbol_addr st i = Some (Done, st')
          \<and> pit_counters st' ! unat i = \<lparr>active = False, count = 0\<rparr>)
    else if unat i = 50 then
      pitGetCounterCount symbol_addr st i = None \<and> pitResetCounter symbol_addr st i = None
      \<and> pitDeactivateCounter symbol_addr st i = None
    else
      pitGetCounterCount symbol_addr st i = Some (PIT_Error PITOutOfRange, st)
      \<and> pitResetCounter symbol_addr st i = Some (PIT_Error PITOutOfRange, st)
      \<and> pitDeactivateCounter symbol_addr st i = Some (PIT_Error PITOutOfRange, st)"
  using assms
  by (simp add: pit_ok_def pitGetCounterCount_def pitResetCounter_def pitDeactivateCounter_def
      PIT_NUM_COUNTERS_def)

theorem counter_id_check_witness:
  "pitResetCounter (\<lambda>_. 0) fresh_pit 50 = None
   \<and> pitResetCounter (\<lambda>_. 0) fresh_pit 51 = Some (PIT_Error PITOutOfRange, fresh_pit)"
  using counter_id_check [OF fresh_pit_ok, of 50 "\<lambda>_. 0"]
    counter_id_check [OF fresh_pit_ok, of 51 "\<lambda>_. 0"] by simp

section \<open>Sleeping\<close>

lemma PITIRQ_sleep:
  "sleep_counter (PITIRQ st) = (if 0 <s sleep_counter st then sleep_counter st - 1 else sleep_counter st)"
  by (simp add: PITIRQ_def Let_def)

lemma PITIRQ_pow_sleep:
  "unat (sleep_counter st) < 2147483648 \<Longrightarrow>
     unat (sleep_counter ((PITIRQ ^^ n) st)) = unat (sleep_counter st) - n"
proof (induction n)
  case (Suc n)
  let ?s = "sleep_counter ((PITIRQ ^^ n) st)"
  have IH: "unat ?s = unat (sleep_counter st) - n" using Suc by simp
  show ?case
  proof (cases "0 < unat ?s")
    case True
    then have "0 <s ?s" using IH Suc.prems by (simp add: signed_pos_iff)
    moreover have "unat (?s - 1) = unat ?s - 1" using True by (simp add: unat_sub_nowrap)
    ultimately show ?thesis using IH by (simp add: PITIRQ_sleep)
  next
    case False
    then have "\<not> 0 <s ?s" by (simp add: signed_pos_iff)
    with False IH show ?thesis by (simp add: PITIRQ_sleep)
  qed
qed simp

lemma PITIRQ_pow_negative:
  "2147483648 \<le> unat (sleep_counter st) \<Longrightarrow> sleep_counter ((PITIRQ ^^ n) st) = sleep_counter st"
proof (induction n)
  case (Suc n)
  then have "\<not> 0 <s sleep_counter ((PITIRQ ^^ n) st)" by (simp add: signed_pos_iff)
  with Suc show ?case by (simp add: PITIRQ_sleep)
qed simp

lemma pitSleep_loop_returns:
  "unat (sleep_counter st) < 2147483648 \<Longrightarrow>
   (if unat (sleep_counter st) \<le> sum_list ticks
    then \<exists>st'. pitSleep_loop st ticks = Some st' \<and> sleep_counter st' = 0
       \<and> \<not> int_flag (cpu (pit_idt st'))
    else pitSleep_loop st ticks = None)"
proof (induction ticks arbitrary: st)
  case Nil
  then show ?case by (subst pitSleep_loop.simps)+ (simp add: Let_def io_simps unat_eq_0)
next
  case (Cons n ns)
  show ?case
  proof (cases "sleep_counter st = 0")
    case True
    then show ?thesis by (subst pitSleep_loop.simps)+ (simp add: Let_def io_simps)
  next
    case False
    let ?st = "(PITIRQ ^^ n) (pit_machine (pit_machine st cli) sti)"
    have s: "unat (sleep_counter ?st) = unat (sleep_counter st) - n"
      using PITIRQ_pow_sleep [of "pit_machine (pit_machine st cli) sti" n] Cons.prems by simp
    have "pitSleep_loop st (n # ns) = pitSleep_loop ?st ns"
      using False by (subst pitSleep_loop.simps) (simp add: Let_def)
    moreover have "unat (sleep_counter ?st) < 2147483648" using s Cons.prems by simp
    note Cons.IH [OF this]
    ultimately show ?thesis using s by (simp add: le_diff_conv add.commute split: if_splits)
  qed
qed

lemma pitSleep_loop_negative:
  "2147483648 \<le> unat (sleep_counter st) \<Longrightarrow> pitSleep_loop st ticks = None"
proof (induction ticks arbitrary: st)
  case (Cons n ns)
  let ?st = "(PITIRQ ^^ n) (pit_machine (pit_machine st cli) sti)"
  have "sleep_counter ?st = sleep_counter st"
    using PITIRQ_pow_negative [of "pit_machine (pit_machine st cli) sti" n] Cons.prems by simp
  moreover have "sleep_counter st \<noteq> 0" using Cons.prems by auto
  ultimately show ?case
    using Cons by (subst pitSleep_loop.simps) (simp add: Let_def)
qed (subst pitSleep_loop.simps, auto simp: Let_def)

text \<open>
  C22: \<open>pitSleep n\<close> with \<open>n < 2 ^ 31\<close> returns exactly when at least \<open>n\<close> timer interrupts have
  been taken in the windows in which it waits, and then leaves interrupts disabled; with a
  larger \<open>n\<close> the counter is negative and no number of interrupts makes it return.
\<close>

theorem pitSleep_returns:
  "if unat n < 2147483648 then
     (if unat n \<le> sum_list ticks
      then \<exists>st'. pitSleep st n ticks = Some st' \<and> sleep_counter st' = 0
         \<and> \<not> int_flag (cpu (pit_idt st'))
      else pitSleep st n ticks = None)
   else pitSleep st n ticks = None"
proof (cases "unat n < 2147483648")
  case True
  then show ?thesis
    using pitSleep_loop_returns [of "st\<lparr>sleep_counter := n\<rparr>" ticks] by (simp add: pitSleep_def)
next
  case False
  then show ?thesis
    using pitSleep_loop_negative [of "st\<lparr>sleep_counter := n\<rparr>" ticks] by (simp add: pitSleep_def)
qed

end
