(* ===== verification/Tio.thy ===== *)
theory Tio
  imports Port_IO "HOL-Library.Monad_Syntax"
begin

text \<open>
  The terminal (\<open>src/stdlib/tio.c\<close>): a buffer of ten pages of 24 lines of 80 characters,
  a view of 24 lines of it that is copied to the video memory, and a cursor relative to the
  view. Positions are C \<open>int\<close>s, far from overflow, and modelled as \<open>int\<close>; an access
  outside a buffer, negative indices included, is undefined behaviour and \<open>None\<close>.
\<close>

definition TERM_WIDTH :: int where "TERM_WIDTH = 80"
definition TERM_HEIGHT :: int where "TERM_HEIGHT = 24"
definition VB_SIZE :: nat where "VB_SIZE = 80 * 24"
definition FVB_PAGES :: int where "FVB_PAGES = 10"

datatype Shift_Direction = SHIFT_DIRECTION_UP | SHIFT_DIRECTION_DOWN

definition VGA_COLOR_BLACK :: u8 where "VGA_COLOR_BLACK = 0"
definition VGA_COLOR_WHITE :: u8 where "VGA_COLOR_WHITE = 15"

text \<open>\<open>pages\<close> is the ten pages one after the other; the code indexes them that way too.\<close>

record tio =
  platform_vb :: "u16 list"
  pages :: "u16 list"
  num_pages :: int
  blank_page :: "u16 list"
  view_row :: int
  view_height :: int
  view_width :: int
  cursor_x :: int
  cursor_y :: int
  on_screen :: bool
  tio_cpu :: machine

definition create_vga_entry :: "u8 \<Rightarrow> u8 \<Rightarrow> u16" where
  "create_vga_entry uc color = ucast uc OR push_bit 8 (ucast color)"

section \<open>Buffer access\<close>

definition nth_int :: "'a list \<Rightarrow> int \<Rightarrow> 'a option" where
  "nth_int xs i = (if i < 0 then None else nth_opt xs (nat i))"

definition update_int :: "'a list \<Rightarrow> int \<Rightarrow> 'a \<Rightarrow> 'a list option" where
  "update_int xs i v = (if i < 0 then None else update_opt xs (nat i) v)"

definition vb_set_value :: "tio \<Rightarrow> int \<Rightarrow> u16 \<Rightarrow> tio option" where
  "vb_set_value t index value = map_option (\<lambda>ps. t\<lparr>pages := ps\<rparr>) (update_int (pages t) index value)"

definition vb_get_value :: "tio \<Rightarrow> int \<Rightarrow> u16 option" where
  "vb_get_value t index = nth_int (pages t) index"

definition cursor_get_index_in_buffer :: "tio \<Rightarrow> int" where
  "cursor_get_index_in_buffer t = (view_row t + cursor_y t) * TERM_WIDTH + cursor_x t"

definition cursor_get_index :: "tio \<Rightarrow> int" where
  "cursor_get_index t = cursor_y t * TERM_WIDTH + cursor_x t"

definition view_get_buffer_end_index :: "tio \<Rightarrow> int" where
  "view_get_buffer_end_index t = (view_row t + view_height t) * TERM_WIDTH"

definition view_get_buffer_start_index :: "tio \<Rightarrow> int" where
  "view_get_buffer_start_index t = view_row t * TERM_WIDTH"

text \<open>Page \<open>i\<close>, and the copy of a page over another.\<close>

definition get_page :: "u16 list \<Rightarrow> nat \<Rightarrow> u16 list" where
  "get_page ps i = take VB_SIZE (drop (VB_SIZE * i) ps)"

definition vb_page_replace :: "u16 list \<Rightarrow> u16 list \<Rightarrow> nat \<Rightarrow> u16 list" where
  "vb_page_replace source ps i = take (VB_SIZE * i) ps @ source @ drop (VB_SIZE * (i + 1)) ps"

definition vb_shift_pages :: "tio \<Rightarrow> tio" where
  "vb_shift_pages t =
     (if num_pages t = 0 then t
      else let ps = fold (\<lambda>i ps. vb_page_replace (get_page ps i) ps (i - 1)) [1..<nat (num_pages t)] (pages t)
           in t\<lparr>pages := vb_page_replace (blank_page t) ps (nat (num_pages t) - 1)\<rparr>)"

section \<open>Rendering\<close>

text \<open>The loop of \<open>__render_screen\<close>: \<open>n\<close> entries from \<open>i\<close> on.\<close>

fun render_loop :: "tio \<Rightarrow> int \<Rightarrow> nat \<Rightarrow> nat \<Rightarrow> tio option" where
  "render_loop t view_index i 0 = Some t"
| "render_loop t view_index i (Suc n) =
     do {
       v \<leftarrow> vb_get_value t (view_index + int i);
       vb \<leftarrow> update_opt (platform_vb t) i v;
       render_loop (t\<lparr>platform_vb := vb\<rparr>) view_index (i + 1) n
     }"

definition render_screen :: "tio \<Rightarrow> tio option" where
  "render_screen t = render_loop t (view_get_buffer_start_index t) 0 VB_SIZE"

text \<open>\<open>int16_t pos\<close>; the two halves go to the cursor registers.\<close>

definition render_cursor :: "tio \<Rightarrow> tio" where
  "render_cursor t =
     (let pos = word_of_int (cursor_y t * TERM_WIDTH + cursor_x t) :: u16
      in if sint pos \<ge> int VB_SIZE then t
         else t\<lparr>tio_cpu := outb (outb (outb (outb (tio_cpu t) 0x3D4 0x0F)
                 0x3D5 (ucast (pos AND 0xFF))) 0x3D4 0x0E)
                 0x3D5 (ucast (signed_drop_bit 8 pos AND 0xFF))\<rparr>)"

definition platform_enable_cursor :: "device \<Rightarrow> tio \<Rightarrow> tio" where
  "platform_enable_cursor dev t =
     (let m1 = outb (tio_cpu t) 0x3D4 0x0A;
          (a, m2) = inb dev m1 0x3D5;
          m3 = outb m2 0x3D5 ((a AND 0xC0) OR 0);
          m4 = outb m3 0x3D4 0x0B;
          (b, m5) = inb dev m4 0x3D5
      in t\<lparr>tio_cpu := outb m5 0x3D5 ((b AND 0xE0) OR 15)\<rparr>)"

definition tio_enable_cursor :: "device \<Rightarrow> tio \<Rightarrow> tio" where
  "tio_enable_cursor dev t = platform_enable_cursor dev t"

section \<open>Scrolling\<close>

text \<open>
  One turn of the loop of \<open>__view_shift\<close>; \<open>Inl\<close> is its early \<open>return\<close>. The new row after
  the pages have moved is written as the code has it: \<open>num_pages-2 * TERM_HEIGHT + 1\<close>.
\<close>

definition view_shift_once :: "Shift_Direction \<Rightarrow> tio \<Rightarrow> tio + tio" where
  "view_shift_once dir t =
     (if dir = SHIFT_DIRECTION_UP then
        (let t1 = t\<lparr>cursor_y := cursor_y t - 1\<rparr> in
         if cursor_y t1 < 0 then Inl (t1\<lparr>cursor_y := 0, on_screen := True\<rparr>)
         else
           let t2 = t1\<lparr>view_row := view_row t1 + 1\<rparr>;
               num_rows = num_pages t2 * TERM_HEIGHT
           in if view_row t2 + view_height t2 \<ge> num_rows
              then Inr ((vb_shift_pages t2)\<lparr>view_row := num_pages t2 - 2 * TERM_HEIGHT + 1\<rparr>)
              else Inr t2)
      else
        (let t1 = t\<lparr>view_row := view_row t - 1\<rparr> in
         if view_row t1 < 0 then Inr (t1\<lparr>view_row := 0\<rparr>)
         else Inr (t1\<lparr>cursor_y := cursor_y t1 + 1\<rparr>)))"

fun view_shift_loop :: "Shift_Direction \<Rightarrow> nat \<Rightarrow> tio \<Rightarrow> tio + tio" where
  "view_shift_loop dir 0 t = Inr t"
| "view_shift_loop dir (Suc n) t =
     (case view_shift_once dir t of Inl t' \<Rightarrow> Inl t' | Inr t' \<Rightarrow> view_shift_loop dir n t')"

definition view_shift :: "tio \<Rightarrow> Shift_Direction \<Rightarrow> u32 \<Rightarrow> tio option" where
  "view_shift t dir amt =
     (case view_shift_loop dir (unat amt) t of
        Inl t' \<Rightarrow> Some t'
      | Inr t1 \<Rightarrow>
          map_option render_cursor
            (render_screen (t1\<lparr>on_screen := (cursor_y t1 > 0 \<and> cursor_y t1 < TERM_HEIGHT)\<rparr>)))"

definition tio_shift_view :: "tio \<Rightarrow> Shift_Direction \<Rightarrow> u32 \<Rightarrow> tio option" where
  "tio_shift_view t dir amt = view_shift t dir amt"

section \<open>The cursor\<close>

definition tio_cursor_inc :: "tio \<Rightarrow> tio option" where
  "tio_cursor_inc t =
     (let t1 = t\<lparr>cursor_x := cursor_x t + 1\<rparr>;
          t2 = (if cursor_x t1 \<ge> TERM_WIDTH then t1\<lparr>cursor_y := cursor_y t1 + 1, cursor_x := 0\<rparr> else t1)
      in map_option render_cursor
           (if cursor_y t2 \<ge> TERM_HEIGHT - 1 then view_shift t2 SHIFT_DIRECTION_UP 1 else Some t2))"

definition tio_try_cursor_inc :: "tio \<Rightarrow> int \<Rightarrow> int \<Rightarrow> (bool \<times> tio) option" where
  "tio_try_cursor_inc t chars_typed padding_front =
     (if cursor_x t < padding_front + chars_typed - 1
      then map_option (\<lambda>t'. (True, t')) (tio_cursor_inc t) else Some (False, t))"

definition tio_cursor_dec :: "tio \<Rightarrow> tio" where
  "tio_cursor_dec t =
     (let t1 = t\<lparr>cursor_x := cursor_x t - 1\<rparr>;
          t2 = (if cursor_x t1 < 0 then t1\<lparr>cursor_y := cursor_y t1 - 1, cursor_x := TERM_WIDTH - 1\<rparr> else t1);
          t3 = (if cursor_y t2 < 0 then t2\<lparr>cursor_y := 0\<rparr> else t2)
      in render_cursor t3)"

definition tio_try_cursor_dec :: "tio \<Rightarrow> int \<Rightarrow> bool \<times> tio" where
  "tio_try_cursor_dec t padding_size =
     (if cursor_x t \<le> padding_size then (False, t) else (True, tio_cursor_dec t))"

definition tio_backspace :: "tio \<Rightarrow> tio option" where
  "tio_backspace t =
     (let t1 = tio_cursor_dec t
      in do {
           v \<leftarrow> nth_int (platform_vb t1) (cursor_get_index t1);
           vb_set_value t1 (cursor_get_index_in_buffer t1) v
         })"

section \<open>Shifting the rest of the screen\<close>

text \<open>\<open>n\<close> turns of \<open>buff[j] = buff[j-1]\<close>, \<open>j\<close> going down.\<close>

fun shift_right_loop :: "tio \<Rightarrow> int \<Rightarrow> nat \<Rightarrow> tio option" where
  "shift_right_loop t j 0 = Some t"
| "shift_right_loop t j (Suc n) =
     do { v \<leftarrow> vb_get_value t (j - 1); t1 \<leftarrow> vb_set_value t j v; shift_right_loop t1 (j - 1) n }"

definition tio_shift_right :: "tio \<Rightarrow> tio option" where
  "tio_shift_right t =
     (let term_view_end_index = view_get_buffer_end_index t;
          cursor_buffer_index = cursor_get_index_in_buffer t
      in do {
           t1 \<leftarrow> shift_right_loop t term_view_end_index (nat (term_view_end_index - cursor_buffer_index));
           v \<leftarrow> nth_int (platform_vb t1) (cursor_get_index t1);
           t2 \<leftarrow> vb_set_value t1 cursor_buffer_index v;
           render_screen t2
         })"

fun shift_left_loop :: "tio \<Rightarrow> int \<Rightarrow> nat \<Rightarrow> tio option" where
  "shift_left_loop t j 0 = Some t"
| "shift_left_loop t j (Suc n) =
     do { v \<leftarrow> vb_get_value t (j + 1); t1 \<leftarrow> vb_set_value t j v; shift_left_loop t1 (j + 1) n }"

definition tio_shift_left :: "tio \<Rightarrow> tio option" where
  "tio_shift_left t =
     (let term_view_end_index = view_get_buffer_end_index t;
          cursor_buffer_index = cursor_get_index_in_buffer t;
          fvb_index = (if cursor_x t = 0 then cursor_buffer_index + 1 else cursor_buffer_index)
      in Option.bind (shift_left_loop t fvb_index (nat (term_view_end_index - fvb_index))) render_screen)"

section \<open>Writing\<close>

definition tio_write_char_color :: "tio \<Rightarrow> char \<Rightarrow> u8 \<Rightarrow> tio option" where
  "tio_write_char_color t c vc =
     (if c = CHR 0x0A then
        (let t1 = t\<lparr>cursor_y := cursor_y t + 1, cursor_x := 0\<rparr>
         in if cursor_y t1 \<ge> TERM_HEIGHT - 1 then view_shift t1 SHIFT_DIRECTION_UP 1 else Some t1)
      else if c = CHR 0x0D then Some (t\<lparr>cursor_x := 0\<rparr>)
      else
        (let vga_entry = create_vga_entry (of_char c) vc
         in do {
              vb \<leftarrow> update_int (platform_vb t) (cursor_get_index t) vga_entry;
              let t1 = t\<lparr>platform_vb := vb\<rparr>;
              t2 \<leftarrow> (if \<not> on_screen t1
                     then view_shift t1 SHIFT_DIRECTION_UP (word_of_int (cursor_y t1 - TERM_HEIGHT + 1))
                     else Some t1);
              t3 \<leftarrow> vb_set_value t2 (cursor_get_index_in_buffer t2) vga_entry;
              t4 \<leftarrow> tio_cursor_inc t3;
              Some (render_cursor t4)
            }))"

definition tio_write_char :: "tio \<Rightarrow> char \<Rightarrow> tio option" where
  "tio_write_char t c = tio_write_char_color t c VGA_COLOR_WHITE"

fun tio_write_color :: "tio \<Rightarrow> string \<Rightarrow> u8 \<Rightarrow> tio option" where
  "tio_write_color t [] vc = Some t"
| "tio_write_color t (c # cs) vc = Option.bind (tio_write_char_color t c vc) (\<lambda>t'. tio_write_color t' cs vc)"

definition tio_write :: "tio \<Rightarrow> string \<Rightarrow> tio option" where
  "tio_write t s = tio_write_color t s VGA_COLOR_WHITE"

section \<open>Initialisation\<close>

definition tio_init :: "tio \<Rightarrow> tio" where
  "tio_init t =
     (let blank = create_vga_entry (of_char (CHR '' '')) VGA_COLOR_BLACK;
          t1 = t\<lparr>blank_page := replicate VB_SIZE blank, num_pages := FVB_PAGES\<rparr>;
          t2 = t1\<lparr>pages := fold (\<lambda>i ps. vb_page_replace (blank_page t1) ps i) [0..<nat FVB_PAGES] (pages t1)\<rparr>
      in t2\<lparr>view_row := 0, view_height := TERM_HEIGHT, view_width := TERM_WIDTH,
            cursor_x := 0, cursor_y := 0, on_screen := True\<rparr>)"

end
