(* ===== verification/Tio_Props.thy ===== *)
theory Tio_Props
  imports Tio
begin

text \<open>
  The terminal against its specification: a text of positions counted from the start of the
  buffer, into which characters are typed. \<open>type_char\<close> is that specification; the view,
  the scrolling and the copy on the screen are details it does not mention.
\<close>

section \<open>The specification\<close>

definition type_char :: "u8 \<Rightarrow> nat \<times> u16 list \<Rightarrow> char \<Rightarrow> nat \<times> u16 list" where
  "type_char vc s c = (let (pos, buf) = s in
     if c = CHR 0x0A then ((pos div 80 + 1) * 80, buf)
     else if c = CHR 0x0D then (pos div 80 * 80, buf)
     else (pos + 1, buf[pos := create_vga_entry (of_char c) vc]))"

text \<open>The first position of the line after the last one the terminal can reach.\<close>

definition last_position :: nat where "last_position = 19040"

fun type_text :: "u8 \<Rightarrow> nat \<times> u16 list \<Rightarrow> string \<Rightarrow> nat \<times> u16 list" where
  "type_text vc s [] = s"
| "type_text vc s (c # cs) = type_text vc (type_char vc s c) cs"

section \<open>Terminals in working order\<close>

definition tio_ok :: "tio \<Rightarrow> bool" where
  "tio_ok t \<longleftrightarrow> length (pages t) = 19200 \<and> 1920 \<le> length (platform_vb t) \<and> num_pages t = 10
     \<and> view_height t = 24 \<and> 0 \<le> view_row t \<and> view_row t \<le> 215
     \<and> 0 \<le> cursor_x t \<and> cursor_x t < 80 \<and> 0 \<le> cursor_y t \<and> cursor_y t \<le> 22
     \<and> on_screen t"

definition tio_pos :: "tio \<Rightarrow> nat" where
  "tio_pos t = nat ((view_row t + cursor_y t) * 80 + cursor_x t)"

text \<open>The screen shows the part of the buffer the view stands for.\<close>

definition mirrors :: "tio \<Rightarrow> bool" where
  "mirrors t \<longleftrightarrow> (\<forall>i < 1920. platform_vb t ! i = pages t ! (nat (view_row t) * 80 + i))"

lemma render_cursor_simps [simp]:
  "pages (render_cursor t) = pages t" "platform_vb (render_cursor t) = platform_vb t"
  "num_pages (render_cursor t) = num_pages t" "view_row (render_cursor t) = view_row t"
  "view_height (render_cursor t) = view_height t" "cursor_x (render_cursor t) = cursor_x t"
  "cursor_y (render_cursor t) = cursor_y t" "on_screen (render_cursor t) = on_screen t"
  by (simp_all add: render_cursor_def Let_def)

lemma render_cursor_ok [simp]:
  "tio_ok (render_cursor t) = tio_ok t" "tio_pos (render_cursor t) = tio_pos t"
  "mirrors (render_cursor t) = mirrors t"
  by (simp_all add: tio_ok_def tio_pos_def mirrors_def)

lemma render_loop_copies:
  "0 \<le> v \<Longrightarrow> nat v + i + n \<le> length (pages t) \<Longrightarrow> i + n \<le> length (platform_vb t) \<Longrightarrow>
   \<exists>vb. render_loop t v i n = Some (t\<lparr>platform_vb := vb\<rparr>) \<and> length vb = length (platform_vb t)
     \<and> (\<forall>j. vb ! j = (if i \<le> j \<and> j < i + n then pages t ! (nat v + j) else platform_vb t ! j))"
proof (induction n arbitrary: i t)
  case (Suc n)
  let ?t = "t\<lparr>platform_vb := (platform_vb t)[i := pages t ! (nat v + i)]\<rparr>"
  have g: "vb_get_value t (v + int i) = Some (pages t ! (nat v + i))"
    using Suc.prems by (simp add: vb_get_value_def nth_int_def nat_add_distrib)
  from Suc.IH [of "i + 1" ?t] Suc.prems obtain vb where
    vb: "render_loop ?t v (i + 1) n = Some (t\<lparr>platform_vb := vb\<rparr>)" "length vb = length (platform_vb t)"
    "\<forall>j. vb ! j = (if i + 1 \<le> j \<and> j < i + 1 + n then pages t ! (nat v + j)
        else (platform_vb t)[i := pages t ! (nat v + i)] ! j)"
    by auto
  then show ?case
    using g Suc.prems by (intro exI [of _ vb]) (auto simp: nth_list_update)
next
  case 0
  show ?case by (rule exI [of _ "platform_vb t"]) auto
qed

lemma render_screen_copies:
  assumes "0 \<le> view_row t" and "view_row t \<le> 216" and "length (pages t) = 19200"
    and "1920 \<le> length (platform_vb t)"
  shows "\<exists>vb. render_screen t = Some (t\<lparr>platform_vb := vb\<rparr>) \<and> length vb = length (platform_vb t)
     \<and> (\<forall>i < 1920. vb ! i = pages t ! (nat (view_row t) * 80 + i))"
proof -
  have n: "nat (view_row t * 80) = nat (view_row t) * 80" using assms(1) by (simp add: nat_mult_distrib)
  have "nat (view_row t) \<le> 216" using assms(2) by simp
  then have "nat (view_row t * 80) + 0 + 1920 \<le> length (pages t)" using n assms(3) by simp
  with assms(1,4) obtain vb where
    "render_loop t (view_row t * 80) 0 1920 = Some (t\<lparr>platform_vb := vb\<rparr>)"
    "length vb = length (platform_vb t)"
    "\<forall>j. vb ! j = (if 0 \<le> j \<and> j < 0 + 1920 then pages t ! (nat (view_row t * 80) + j)
       else platform_vb t ! j)"
    using render_loop_copies [of "view_row t * 80" 0 1920 t] by (metis add_0 mult_nonneg_nonneg zero_le_numeral)
  then show ?thesis
    by (intro exI [of _ vb])
      (simp add: n render_screen_def view_get_buffer_start_index_def TERM_WIDTH_def VB_SIZE_def)
qed

lemma render_screen_negative:
  assumes "view_row t < 0"
  shows "render_screen t = None"
proof -
  have v: "VB_SIZE = Suc 1919" by (simp add: VB_SIZE_def)
  have "vb_get_value t (view_get_buffer_start_index t + int 0) = None"
    using assms by (simp add: vb_get_value_def nth_int_def view_get_buffer_start_index_def TERM_WIDTH_def)
  then show ?thesis unfolding render_screen_def v render_loop.simps(2) by simp
qed

text \<open>Scrolling by a line from the line below the last but one.\<close>

lemma scroll_one:
  assumes "length (pages t) = 19200" and "1920 \<le> length (platform_vb t)" and "num_pages t = 10"
    and "view_height t = 24" and "0 \<le> view_row t" and "0 \<le> cursor_x t" and "cursor_x t < 80"
    and "cursor_y t = 23"
  shows "if view_row t \<le> 214
    then \<exists>t'. view_shift t SHIFT_DIRECTION_UP 1 = Some t' \<and> tio_ok t' \<and> tio_pos t' = tio_pos t
      \<and> pages t' = pages t \<and> mirrors t' \<and> cursor_y t' = 22
    else view_row t = 215 \<longrightarrow> view_shift t SHIFT_DIRECTION_UP 1 = None"
proof -
  let ?t = "t\<lparr>cursor_y := 22, view_row := view_row t + 1, on_screen := True\<rparr>"
  show ?thesis
  proof (cases "view_row t \<le> 214")
    case True
    have "view_shift t SHIFT_DIRECTION_UP 1 = map_option render_cursor (render_screen ?t)"
      using True assms by (simp add: view_shift_def view_shift_once_def TERM_HEIGHT_def Let_def)
    moreover obtain vb where vb: "render_screen ?t = Some (?t\<lparr>platform_vb := vb\<rparr>)"
      "length vb = length (platform_vb t)"
      "\<forall>i < 1920. vb ! i = pages t ! (nat (view_row t + 1) * 80 + i)"
      using render_screen_copies [of ?t] True assms by auto
    ultimately have r: "view_shift t SHIFT_DIRECTION_UP 1 = Some (render_cursor (?t\<lparr>platform_vb := vb\<rparr>))"
      by simp
    have "tio_ok (?t\<lparr>platform_vb := vb\<rparr>)" using True assms vb(2) by (simp add: tio_ok_def)
    moreover have "tio_pos (?t\<lparr>platform_vb := vb\<rparr>) = tio_pos t"
      using assms by (simp add: tio_pos_def)
    moreover have "mirrors (?t\<lparr>platform_vb := vb\<rparr>)" using vb(3) by (simp add: mirrors_def)
    ultimately show ?thesis using r True by simp
  next
    case False
    have "view_shift t SHIFT_DIRECTION_UP 1 = None" if r: "view_row t = 215"
    proof -
      let ?s = "(vb_shift_pages (t\<lparr>cursor_y := 22, view_row := 216\<rparr>))\<lparr>view_row := - 37, on_screen := True\<rparr>"
      have f: "cursor_y (vb_shift_pages u) = cursor_y u" "num_pages (vb_shift_pages u) = num_pages u" for u
        by (simp_all add: vb_shift_pages_def Let_def)
      have "render_screen ?s = None" by (rule render_screen_negative) simp
      then show ?thesis
        using r assms
        by (simp add: view_shift_def view_shift_once_def TERM_HEIGHT_def Let_def f)
    qed
    with False show ?thesis by simp
  qed
qed


section \<open>Writing refines typing\<close>

text \<open>Moving the cursor on by one from a position in working order.\<close>

lemma cursor_inc_ok:
  assumes ok: "tio_ok t"
  shows "if tio_pos t + 1 < last_position
    then \<exists>t'. tio_cursor_inc t = Some t' \<and> tio_ok t' \<and> tio_pos t' = tio_pos t + 1
      \<and> pages t' = pages t \<and> (mirrors t \<longrightarrow> mirrors t')
    else tio_cursor_inc t = None"
proof -
  have b: "0 \<le> view_row t" "view_row t \<le> 215" "0 \<le> cursor_x t" "cursor_x t < 80" "0 \<le> cursor_y t"
    "cursor_y t \<le> 22" using ok by (simp_all add: tio_ok_def)
  have pos: "int (tio_pos t) = (view_row t + cursor_y t) * 80 + cursor_x t" using b by (simp add: tio_pos_def)
  consider (same) "cursor_x t + 1 < 80" | (line) "cursor_x t = 79" "cursor_y t < 22"
    | (scroll) "cursor_x t = 79" "cursor_y t = 22" using b by linarith
  then show ?thesis
  proof cases
    case same
    let ?t = "t\<lparr>cursor_x := cursor_x t + 1\<rparr>"
    have i: "tio_cursor_inc t = Some (render_cursor ?t)"
      using same b by (simp add: tio_cursor_inc_def Let_def TERM_WIDTH_def TERM_HEIGHT_def)
    have "tio_pos ?t = tio_pos t + 1" using b by (simp add: tio_pos_def)
    moreover have "tio_pos t + 1 < last_position" using pos b same by (simp add: last_position_def)
    moreover have "tio_ok ?t" "mirrors ?t = mirrors t" using ok same b by (simp_all add: tio_ok_def mirrors_def)
    ultimately show ?thesis using i by simp
  next
    case line
    let ?t = "t\<lparr>cursor_y := cursor_y t + 1, cursor_x := 0\<rparr>"
    have i: "tio_cursor_inc t = Some (render_cursor (?t))"
      using line b by (simp add: tio_cursor_inc_def Let_def TERM_WIDTH_def TERM_HEIGHT_def)
    have "tio_pos ?t = tio_pos t + 1" using b line by (simp add: tio_pos_def)
    moreover have "tio_pos t + 1 < last_position" using pos b line by (simp add: last_position_def)
    moreover have "mirrors ?t = mirrors t" by (simp add: mirrors_def)
    moreover have "tio_ok ?t" using ok line b by (simp add: tio_ok_def)
    ultimately show ?thesis using i by simp
  next
    case scroll
    let ?t = "t\<lparr>cursor_y := 23, cursor_x := 0\<rparr>"
    have i: "tio_cursor_inc t = map_option render_cursor (view_shift ?t SHIFT_DIRECTION_UP 1)"
      using scroll by (simp add: tio_cursor_inc_def Let_def TERM_WIDTH_def TERM_HEIGHT_def)
    have "tio_pos ?t = tio_pos t + 1" using b scroll by (simp add: tio_pos_def)
    then show ?thesis using scroll_one [of ?t] ok pos b scroll i
      by (auto simp: tio_ok_def last_position_def split: if_splits)
  qed
qed


lemma tio_pos_int:
  "tio_ok t \<Longrightarrow> int (tio_pos t) = (view_row t + cursor_y t) * 80 + cursor_x t"
  by (simp add: tio_ok_def tio_pos_def)

lemma tio_pos_line:
  assumes "tio_ok t"
  shows "tio_pos t div 80 = nat (view_row t + cursor_y t)" and "tio_pos t < last_position"
proof -
  define l where "l = nat (view_row t + cursor_y t)"
  define x where "x = nat (cursor_x t)"
  have "view_row t + cursor_y t = int l" "cursor_x t = int x"
    using assms by (simp_all add: tio_ok_def l_def x_def)
  moreover from this have "tio_pos t = l * 80 + x" by (simp add: tio_pos_def nat_eq_iff)
  ultimately have "tio_pos t = l * 80 + x" "x < 80" "l \<le> 237"
    using assms by (simp_all add: tio_ok_def)
  then show "tio_pos t div 80 = nat (view_row t + cursor_y t)" "tio_pos t < last_position"
    by (simp_all add: l_def last_position_def)
qed

lemma write_char_newline:
  assumes ok: "tio_ok t"
  shows "if (tio_pos t div 80 + 1) * 80 < last_position
    then \<exists>t'. tio_write_char_color t (CHR 0x0A) vc = Some t' \<and> tio_ok t'
      \<and> tio_pos t' = (tio_pos t div 80 + 1) * 80 \<and> pages t' = pages t \<and> (mirrors t \<longrightarrow> mirrors t')
    else tio_write_char_color t (CHR 0x0A) vc = None"
proof -
  have b: "0 \<le> view_row t" "view_row t \<le> 215" "0 \<le> cursor_y t" "cursor_y t \<le> 22"
    using ok by (simp_all add: tio_ok_def)
  let ?t = "t\<lparr>cursor_y := cursor_y t + 1, cursor_x := 0\<rparr>"
  have w: "tio_write_char_color t (CHR 0x0A) vc =
      (if cursor_y t < 22 then Some ?t else view_shift ?t SHIFT_DIRECTION_UP 1)"
    using b by (simp add: tio_write_char_color_def Let_def TERM_HEIGHT_def)
  have l: "(tio_pos t div 80 + 1) * 80 < last_position \<longleftrightarrow> view_row t + cursor_y t + 1 < 238"
    using b by (simp add: tio_pos_line(1) [OF ok] last_position_def nat_less_iff)
  have p: "tio_pos ?t = (tio_pos t div 80 + 1) * 80"
    using b unfolding tio_pos_line(1) [OF ok] by (simp add: tio_pos_def nat_eq_iff)
  show ?thesis
  proof (cases "cursor_y t < 22")
    case True
    have "mirrors ?t = mirrors t" by (simp add: mirrors_def)
    moreover have "tio_ok ?t" using ok True b by (simp add: tio_ok_def)
    ultimately show ?thesis using w p l True b by auto
  next
    case False
    then show ?thesis using scroll_one [of ?t] ok b w p l
      by (auto simp: tio_ok_def split: if_splits)
  qed
qed


lemma write_char_printable:
  assumes ok: "tio_ok t" and c: "c \<noteq> CHR 0x0A" "c \<noteq> CHR 0x0D"
  shows "if tio_pos t + 1 < last_position
    then \<exists>t'. tio_write_char_color t c vc = Some t' \<and> tio_ok t' \<and> tio_pos t' = tio_pos t + 1
      \<and> pages t' = (pages t)[tio_pos t := create_vga_entry (of_char c) vc] \<and> (mirrors t \<longrightarrow> mirrors t')
    else tio_write_char_color t c vc = None"
proof -
  have b: "0 \<le> view_row t" "view_row t \<le> 215" "0 \<le> cursor_x t" "cursor_x t < 80" "0 \<le> cursor_y t"
    "cursor_y t \<le> 22" "on_screen t" "1920 \<le> length (platform_vb t)" "length (pages t) = 19200"
    using ok by (simp_all add: tio_ok_def)
  let ?e = "create_vga_entry (of_char c) vc"
  define k where "k = nat (cursor_y t * 80 + cursor_x t)"
  have k: "int k = cursor_y t * 80 + cursor_x t" "k < 1920" using b by (simp_all add: k_def)
  have pos: "tio_pos t = nat (view_row t) * 80 + k" using b k by (simp add: tio_pos_def nat_eq_iff)
  have p2: "tio_pos t < 19200" using tio_pos_line(2) [OF ok] by (simp add: last_position_def)
  let ?t = "t\<lparr>platform_vb := (platform_vb t)[k := ?e], pages := (pages t)[tio_pos t := ?e]\<rparr>"
  have "update_int (platform_vb t) (cursor_get_index t) ?e = Some ((platform_vb t)[k := ?e])"
    using k b by (simp add: update_int_def cursor_get_index_def TERM_WIDTH_def k_def)
  moreover have "vb_set_value (t\<lparr>platform_vb := (platform_vb t)[k := ?e]\<rparr>)
      (cursor_get_index_in_buffer (t\<lparr>platform_vb := (platform_vb t)[k := ?e]\<rparr>)) ?e = Some ?t"
    using p2 b by (simp add: vb_set_value_def update_int_def cursor_get_index_in_buffer_def
        TERM_WIDTH_def tio_pos_def)
  ultimately have w: "tio_write_char_color t c vc = map_option render_cursor (tio_cursor_inc ?t)"
    using c b by (simp add: tio_write_char_color_def map_option_case split: option.splits)
  have ok': "tio_ok ?t" using ok by (simp add: tio_ok_def)
  have mir: "mirrors t \<longrightarrow> mirrors ?t"
    unfolding mirrors_def using k(2) p2 b by (auto simp: pos nth_list_update)
  have p: "tio_pos ?t = tio_pos t" by (simp add: tio_pos_def)
  show ?thesis
    using cursor_inc_ok [OF ok'] w mir by (auto simp: p split: if_splits)
qed

lemma write_char_refines:
  assumes "tio_ok t"
  shows "if fst (type_char vc (tio_pos t, pages t) c) < last_position
    then \<exists>t'. tio_write_char_color t c vc = Some t' \<and> tio_ok t'
      \<and> (tio_pos t', pages t') = type_char vc (tio_pos t, pages t) c \<and> (mirrors t \<longrightarrow> mirrors t')
    else tio_write_char_color t c vc = None"
proof -
  consider "c = CHR 0x0A" | "c = CHR 0x0D" | "c \<noteq> CHR 0x0A" "c \<noteq> CHR 0x0D" by blast
  then show ?thesis
  proof cases
    case 1
    then show ?thesis using write_char_newline [OF assms, of vc] by (simp add: type_char_def split: if_splits)
  next
    case 2
    let ?t = "t\<lparr>cursor_x := 0\<rparr>"
    have "tio_write_char_color t c vc = Some ?t" using 2 by (simp add: tio_write_char_color_def)
    moreover have "tio_ok ?t" "mirrors ?t = mirrors t" using assms by (simp_all add: tio_ok_def mirrors_def)
    moreover have "tio_pos ?t = tio_pos t div 80 * 80"
      using assms unfolding tio_pos_line(1) [OF assms] by (simp add: tio_ok_def tio_pos_def nat_eq_iff)
    moreover have "tio_pos t div 80 * 80 < last_position"
      using tio_pos_line(2) [OF assms] div_times_less_eq_dividend [of "tio_pos t" 80] by linarith
    ultimately show ?thesis using 2 by (simp add: type_char_def)
  next
    case 3
    then show ?thesis
      using write_char_printable [OF assms, of c vc] by (simp add: type_char_def split: if_splits)
  qed
qed

text \<open>Whether a text fits: every position it reaches lies before the last one.\<close>

fun text_fits :: "u8 \<Rightarrow> nat \<times> u16 list \<Rightarrow> string \<Rightarrow> bool" where
  "text_fits vc s [] \<longleftrightarrow> True"
| "text_fits vc s (c # cs) \<longleftrightarrow> fst (type_char vc s c) < last_position \<and> text_fits vc (type_char vc s c) cs"

lemma write_refines:
  "tio_ok t \<Longrightarrow>
   if text_fits vc (tio_pos t, pages t) cs
   then \<exists>t'. tio_write_color t cs vc = Some t' \<and> tio_ok t'
     \<and> (tio_pos t', pages t') = type_text vc (tio_pos t, pages t) cs \<and> (mirrors t \<longrightarrow> mirrors t')
   else tio_write_color t cs vc = None"
proof (induction cs arbitrary: t)
  case (Cons c cs)
  show ?case
  proof (cases "fst (type_char vc (tio_pos t, pages t) c) < last_position")
    case True
    then obtain t1 where t1: "tio_write_char_color t c vc = Some t1" "tio_ok t1"
      "(tio_pos t1, pages t1) = type_char vc (tio_pos t, pages t) c" "mirrors t \<longrightarrow> mirrors t1"
      using write_char_refines [OF Cons.prems, of vc c] by auto
    then show ?thesis using Cons.IH [OF t1(2)] True by (auto split: if_splits)
  next
    case False
    then show ?thesis using write_char_refines [OF Cons.prems, of vc c] by simp
  qed
qed simp


section \<open>Initialisation\<close>

lemma blank_pages:
  "n \<le> 10 \<Longrightarrow> length ps = 19200 \<Longrightarrow>
   fold (\<lambda>i ps. vb_page_replace (replicate 1920 b) ps i) [0..<n] ps
     = replicate (1920 * n) b @ drop (1920 * n) ps"
proof (induction n)
  case (Suc n)
  have "replicate (1920 * n) b @ replicate 1920 b = replicate (1920 * Suc n) b"
    by (simp add: replicate_add [symmetric] add.commute)
  then show ?case
    using Suc by (simp add: vb_page_replace_def VB_SIZE_def add.commute)
qed simp

lemma tio_init_ok:
  assumes "length (pages t) = 19200" and "1920 \<le> length (platform_vb t)"
  shows "tio_ok (tio_init t)" and "tio_pos (tio_init t) = 0"
    and "pages (tio_init t) = replicate 19200 (create_vga_entry 32 VGA_COLOR_BLACK)"
proof -
  have b: "(of_char (CHR '' '') :: u8) = 32" by simp
  show p: "pages (tio_init t) = replicate 19200 (create_vga_entry 32 VGA_COLOR_BLACK)"
    using blank_pages [of 10 "pages t" "create_vga_entry 32 VGA_COLOR_BLACK"] assms(1)
    by (simp add: tio_init_def Let_def FVB_PAGES_def VB_SIZE_def b)
  show "tio_ok (tio_init t)" "tio_pos (tio_init t) = 0"
    using assms(2) p
    by (simp_all add: tio_ok_def tio_pos_def, simp_all add: tio_init_def Let_def FVB_PAGES_def
        TERM_HEIGHT_def)
qed

section \<open>Properties\<close>

text \<open>
  C23: From any terminal in working order, writing a text returns exactly when every position
  it reaches lies on the first 238 lines of the buffer; it then leaves a terminal in working
  order whose buffer and cursor position are those of typing the text character by
  character, with scrolling invisible, and whose screen still shows the buffer if it did.
  Past line 238 the pages are to be shifted, \<open>num_pages-2 * TERM_HEIGHT + 1\<close> makes the row
  -37, and the screen is rendered from outside the buffer.
\<close>

theorem tio_write_types:
  assumes "tio_ok t"
  shows "if text_fits VGA_COLOR_WHITE (tio_pos t, pages t) s
    then \<exists>t'. tio_write t s = Some t' \<and> tio_ok t'
      \<and> (tio_pos t', pages t') = type_text VGA_COLOR_WHITE (tio_pos t, pages t) s
      \<and> (mirrors t \<longrightarrow> mirrors t')
    else tio_write t s = None"
  using write_refines [OF assms, of VGA_COLOR_WHITE s] by (simp add: tio_write_def)

definition boot_tio :: tio where
  "boot_tio = tio_init \<lparr>platform_vb = replicate 2000 0, pages = replicate 19200 0, num_pages = 0,
     blank_page = [], view_row = 0, view_height = 0, view_width = 0, cursor_x = 0, cursor_y = 0,
     on_screen = False, tio_cpu = idle_machine\<rparr>"

lemma boot_tio_ok: "tio_ok boot_tio" "tio_pos boot_tio = 0"
  "pages boot_tio = replicate 19200 (create_vga_entry 32 VGA_COLOR_BLACK)"
  unfolding boot_tio_def by (rule tio_init_ok; simp)+

theorem tio_write_types_witness:
  "(\<exists>t'. tio_write boot_tio ''ok'' = Some t' \<and> tio_pos t' = 2)
   \<and> tio_write boot_tio (replicate 238 (CHR 0x0A)) = None"
proof
  have "text_fits VGA_COLOR_WHITE (tio_pos boot_tio, pages boot_tio) ''ok''"
    by (simp add: boot_tio_ok type_char_def last_position_def)
  moreover have "fst (type_text VGA_COLOR_WHITE (tio_pos boot_tio, pages boot_tio) ''ok'') = 2"
    by (simp add: boot_tio_ok type_char_def)
  ultimately show "\<exists>t'. tio_write boot_tio ''ok'' = Some t' \<and> tio_pos t' = 2"
    using tio_write_types [OF boot_tio_ok(1), of "''ok''"] by (metis fst_conv)
  have nl: "text_fits vc (80 * k, buf) (replicate n (CHR 0x0A)) \<longleftrightarrow> n = 0 \<or> k + n < 238" for vc k n buf
  proof (induction n arbitrary: k)
    case (Suc n)
    have "type_char vc (80 * k, buf) (CHR 0x0A) = (80 * Suc k, buf)" by (simp add: type_char_def)
    then show ?case using Suc [of "Suc k"] by (auto simp: last_position_def)
  qed simp
  have "\<not> text_fits VGA_COLOR_WHITE (tio_pos boot_tio, pages boot_tio) (replicate 238 (CHR 0x0A))"
    using nl [of VGA_COLOR_WHITE 0 "pages boot_tio" 238] by (simp add: boot_tio_ok(2))
  then show "tio_write boot_tio (replicate 238 (CHR 0x0A)) = None"
    using tio_write_types [OF boot_tio_ok(1), of "replicate 238 (CHR 0x0A)"] by simp
qed

end
