(* ===== verification/Polling.thy ===== *)
theory Polling
  imports Port_IO
begin

text \<open>
  Loops that read a status register until it is as wanted, shared by the disk and the serial
  port: the loop, devices that do answer, and what the loop leaves in the log.
\<close>

text \<open>Reads of a port until the value read satisfies \<open>ready\<close>.\<close>

partial_function (option) poll_until ::
    "device \<Rightarrow> (u8 \<Rightarrow> bool) \<Rightarrow> u16 \<Rightarrow> machine \<Rightarrow> (u8 \<times> machine) option" where
  "poll_until dev ready port m =
     (let (s, m1) = inb dev m port in if ready s then Some (s, m1) else poll_until dev ready port m1)"

text \<open>The log after \<open>k\<close> reads of a port, and a device that is ready after some number of them.\<close>

fun poll_log :: "device \<Rightarrow> u16 \<Rightarrow> io_event list \<Rightarrow> nat \<Rightarrow> io_event list" where
  "poll_log dev port log 0 = log"
| "poll_log dev port log (Suc k) = poll_log dev port (log @ [Inb port (read8 dev log port)]) k"

definition answers :: "device \<Rightarrow> u16 \<Rightarrow> (u8 \<Rightarrow> bool) \<Rightarrow> bool" where
  "answers dev port ready \<longleftrightarrow> (\<forall>log. \<exists>k. ready (read8 dev (poll_log dev port log k) port))"

text \<open>Events that only read the port.\<close>

definition reads_of :: "u16 \<Rightarrow> io_event \<Rightarrow> bool" where
  "reads_of port e \<longleftrightarrow> (\<exists>v. e = Inb port v)"

lemma reads_of_simps [simp]: "reads_of p (Inb q v) \<longleftrightarrow> q = p"
  by (auto simp: reads_of_def)

lemma poll_until_returns:
  "ready (read8 dev (poll_log dev port (io_log m) k) port) \<Longrightarrow>
   \<exists>s m' es. poll_until dev ready port m = Some (s, m') \<and> ready s \<and> io_log m' = io_log m @ es
     \<and> list_all (reads_of port) es \<and> es \<noteq> [] \<and> last es = Inb port s"
proof (induction k arbitrary: m)
  case 0
  then show ?case
    by (subst poll_until.simps) (auto simp: inb_def Let_def record_event_def)
next
  case (Suc k)
  let ?s = "read8 dev (io_log m) port"
  show ?case
  proof (cases "ready ?s")
    case True
    then show ?thesis
      by (subst poll_until.simps) (auto simp: inb_def Let_def record_event_def)
  next
    case False
    have "poll_until dev ready port m = poll_until dev ready port (record_event m (Inb port ?s))"
      using False by (subst poll_until.simps) (simp add: inb_def Let_def)
    moreover obtain s m' es where "poll_until dev ready port (record_event m (Inb port ?s)) = Some (s, m')"
      "ready s" "io_log m' = (io_log m @ [Inb port ?s]) @ es" "list_all (reads_of port) es" "es \<noteq> []" "last es = Inb port s"
      using Suc.IH [of "record_event m (Inb port ?s)"] Suc.prems by (auto simp: record_event_def)
    ultimately show ?thesis by (auto intro!: exI [of _ "Inb port ?s # es"])
  qed
qed

end
