(* ===== verification/Ata.thy ===== *)
theory Ata
  imports Timer Cmem Kstdio Polling "HOL-Library.Monad_Syntax"
begin

text \<open>
  The ATA disk driver (\<open>src/ata.c\<close>): identification of the drives and the transfer of
  sectors by programmed input and output. The drive answers through the \<open>device\<close>
  parameter; the timer interrupts that end its two sleeps are parameters too. A loop that
  polls a status register is a partial function: \<open>None\<close> when the drive never gives the
  status waited for.
\<close>

section \<open>Registers\<close>

definition PBUS :: u16 where "PBUS = 0x1F0"
definition PBUSC :: u16 where "PBUSC = 0x3f6"
definition SBUS :: u16 where "SBUS = 0x170"

definition ATA_REG_DATA :: u16 where "ATA_REG_DATA = 0x00"
definition ATA_REG_SECCOUNT0 :: u16 where "ATA_REG_SECCOUNT0 = 0x02"
definition ATA_REG_LBALOW :: u16 where "ATA_REG_LBALOW = 0x03"
definition ATA_REG_LBAMID :: u16 where "ATA_REG_LBAMID = 0x04"
definition ATA_REG_LBAHIGH :: u16 where "ATA_REG_LBAHIGH = 0x05"
definition ATA_REG_DRIVESELECT :: u16 where "ATA_REG_DRIVESELECT = 0x06"
definition ATA_REG_COMMAND :: u16 where "ATA_REG_COMMAND = 0x07"
definition ATA_REG_STATUS :: u16 where "ATA_REG_STATUS = 0x07"
definition ATA_REG_SECCOUNT :: u16 where "ATA_REG_SECCOUNT = 0x08"

definition ATA_CMD_READ_PIO :: u8 where "ATA_CMD_READ_PIO = 0x20"
definition ATA_CMD_WRITE_PIO :: u8 where "ATA_CMD_WRITE_PIO = 0x30"
definition ATA_CMD_CACHE_FLUSH :: u8 where "ATA_CMD_CACHE_FLUSH = 0xE7"
definition ATA_CMD_IDENTIFY :: u8 where "ATA_CMD_IDENTIFY = 0xEC"
definition ATA_PRIMARY_SELECT :: u8 where "ATA_PRIMARY_SELECT = 0xE0"
definition ATA_SECONDARY_SELECT :: u8 where "ATA_SECONDARY_SELECT = 0xF0"
definition SECTOR_SIZE :: u32 where "SECTOR_SIZE = 512"

text \<open>The fields of \<open>ATA_Status_Register\<close> the driver reads.\<close>

definition st_error :: "u8 \<Rightarrow> bool" where "st_error s \<longleftrightarrow> bit s 0"
definition st_data_transfer_requested :: "u8 \<Rightarrow> bool" where "st_data_transfer_requested s \<longleftrightarrow> bit s 3"
definition st_busy :: "u8 \<Rightarrow> bool" where "st_busy s \<longleftrightarrow> bit s 7"

section \<open>State\<close>

datatype ATA_Type = ATA | ATAPI
datatype ATA_Drive_Type = PRIMARY | SECONDARY

record ATA_Drive =
  ata_type :: ATA_Type
  drive_type :: ATA_Drive_Type
  io_port :: u16
  command_port :: u16
  uses_packets :: bool
  num_sectors :: u32

record ata =
  ata_drives :: "ATA_Drive list"
  interrupt_recieved :: bool
  ata_pit :: pit
  ata_mem :: mem
  ata_console :: string

definition ata_cpu :: "ata \<Rightarrow> machine" where
  "ata_cpu st = cpu (pit_idt (ata_pit st))"

definition ata_io :: "(machine \<Rightarrow> machine) \<Rightarrow> ata \<Rightarrow> ata" where
  "ata_io f st = st\<lparr>ata_pit := pit_machine (ata_pit st) f\<rparr>"

definition ata_out :: "ata \<Rightarrow> u16 \<Rightarrow> u8 \<Rightarrow> ata" where
  "ata_out st port v = ata_io (\<lambda>m. outb m port v) st"

definition ata_print :: "ata \<Rightarrow> string \<Rightarrow> va_arg list \<Rightarrow> ata option" where
  "ata_print st fmt args = map_option (\<lambda>line. st\<lparr>ata_console := ata_console st @ line\<rparr>) (kprintf fmt args)"

definition ata_wait :: "device \<Rightarrow> (u8 \<Rightarrow> bool) \<Rightarrow> u16 \<Rightarrow> ata \<Rightarrow> (u8 \<times> ata) option" where
  "ata_wait dev ready port st =
     map_option (\<lambda>(s, m). (s, ata_io (\<lambda>_. m) st)) (poll_until dev ready port (ata_cpu st))"

section \<open>Buses\<close>

definition isFloatingBus :: "device \<Rightarrow> machine \<Rightarrow> bool \<times> machine" where
  "isFloatingBus dev m =
     (let (init_read_primary, m1) = inb dev m (PBUS + ATA_REG_STATUS);
          (init_read_secondary, m2) = inb dev m1 (SBUS + ATA_REG_STATUS)
      in (init_read_primary = 0xFF \<and> init_read_secondary = 0xFF, m2))"

definition resetBus :: "ata \<Rightarrow> ATA_Drive \<Rightarrow> ata" where
  "resetBus st drive = ata_out (ata_out st (command_port drive) (lsh1 2)) (command_port drive) (lsh1 1)"

definition ataSetNoInterrupts :: "ata \<Rightarrow> ATA_Drive \<Rightarrow> ata" where
  "ataSetNoInterrupts st drive = ata_out st (command_port drive) 0x02"

section \<open>Identification\<close>

text \<open>The rest of the function follows its first \<open>return\<close>.\<close>

definition atapiSetup :: "ata \<Rightarrow> (bool \<times> ata) option" where
  "atapiSetup st = map_option (\<lambda>st'. (False, st')) (ata_print st ''ATAPI SETUP not implemented\<newline>'' [])"

fun read_words :: "device \<Rightarrow> u16 \<Rightarrow> nat \<Rightarrow> machine \<Rightarrow> u16 list \<times> machine" where
  "read_words dev port 0 m = ([], m)"
| "read_words dev port (Suc n) m =
     (let (w, m1) = inw dev m port; (ws, m2) = read_words dev port n m1 in (w # ws, m2))"

text \<open>The message of a drive in error has a conversion and no argument: undefined behaviour.\<close>

definition ataIdentify :: "device \<Rightarrow> ata \<Rightarrow> ATA_Drive \<Rightarrow> (bool \<times> ATA_Drive \<times> ata) option" where
  "ataIdentify dev st drive =
     (let drive_str = (if drive_type drive = PRIMARY then ''Primary'' else ''Secondary'');
          bus = io_port drive;
          alt_status = command_port drive;
          st1 = ata_out st (bus + ATA_REG_DRIVESELECT) 0xA0;
          st2 = ataSetNoInterrupts st1 drive;
          st3 = ata_out st2 (bus + ATA_REG_SECCOUNT) 0x00;
          st4 = ata_out st3 (bus + ATA_REG_LBALOW) 0x00;
          st5 = ata_out st4 (bus + ATA_REG_LBAMID) 0x00;
          st6 = ata_out st5 (bus + ATA_REG_LBAHIGH) 0x00;
          st7 = ata_out st6 (bus + ATA_REG_STATUS) ATA_CMD_IDENTIFY;
          (status, m8) = inb dev (ata_cpu st7) (bus + ATA_REG_STATUS);
          st8 = ata_io (\<lambda>_. m8) st7
      in if status = 0x00 then
           map_option (\<lambda>s. (False, drive, s)) (ata_print st8 ''Error: %s drive does not exist\<newline>'' [Va_str drive_str])
         else do {
           (s9, st9) \<leftarrow> ata_wait dev (\<lambda>s. \<not> st_busy s) alt_status st8;
           let (lbamid, m10) = inb dev (ata_cpu st9) (bus + ATA_REG_LBAMID);
           let (lbahigh, m11) = inb dev m10 (bus + ATA_REG_LBAHIGH);
           let st11 = ata_io (\<lambda>_. m11) st9;
           (if lbamid = 0x14 \<and> lbahigh = 0xEB then do {
              st12 \<leftarrow> ata_print st11 ''%s bus is ATAPI\<newline>'' [Va_str drive_str];
              (b, st13) \<leftarrow> atapiSetup st12;
              Some (b, drive\<lparr>ata_type := ATAPI, uses_packets := True\<rparr>, st13)
            } else do {
              st12 \<leftarrow> ata_print st11 ''%s bus is ATA\<newline>'' [Va_str drive_str];
              (poll, st13) \<leftarrow> ata_wait dev (\<lambda>s. st_data_transfer_requested s \<or> st_error s) alt_status st12;
              (if st_error poll then
                 map_option (\<lambda>s. (False, drive, s))
                   (ata_print st13 ''Error: Bus %s is ATA, but gave status of error\<newline>'' [])
               else
                 let (identify_data, m14) = read_words dev bus 256 (ata_cpu st13);
                     st14 = ata_io (\<lambda>_. m14) st13;
                     supports_lba_48_word = identify_data ! 83
                 in do {
                   st15 \<leftarrow> (if push_bit 10 (ucast supports_lba_48_word :: u32) AND 1 \<noteq> 0
                            then ata_print st14 ''%s supports lba48 mode\<newline>'' [Va_str drive_str]
                            else Some st14);
                   let num_lba28_sectors = ucast (identify_data ! 60) OR push_bit 16 (ucast (identify_data ! 61));
                   st16 \<leftarrow> ata_print st15 ''num_lba28_sectors: 0x%x\<newline>'' [Va_int num_lba28_sectors];
                   Some (num_lba28_sectors \<noteq> 0, drive\<lparr>num_sectors := num_lba28_sectors\<rparr>, st16)
                 })
            })
         })"

text \<open>
  The two drives are copied to \<open>ata_drives\<close> before they are identified, so the fields that
  are not set here keep what their stack slots held: the parameter \<open>garbage\<close>.
\<close>

definition ideInit :: "device \<Rightarrow> (bool \<times> u32) \<times> (bool \<times> u32) \<Rightarrow> ata \<Rightarrow> (bool \<times> ata) option" where
  "ideInit dev garbage st =
     (let (floating, m1) = isFloatingBus dev (ata_cpu st); st1 = ata_io (\<lambda>_. m1) st
      in if floating then
           map_option (\<lambda>s. (False, s)) (ata_print st1 ''Error: Floating Buses, No Drives Connected\<newline>'' [])
         else
           let primary_drive = \<lparr>ata_type = ATA, drive_type = PRIMARY, io_port = PBUS, command_port = PBUSC,
                 uses_packets = fst (fst garbage), num_sectors = snd (fst garbage)\<rparr>;
               secondary_drive = \<lparr>ata_type = ATA, drive_type = SECONDARY, io_port = SBUS, command_port = PBUSC,
                 uses_packets = fst (snd garbage), num_sectors = snd (snd garbage)\<rparr>;
               st2 = st1\<lparr>ata_drives := [primary_drive, secondary_drive]\<rparr>
           in do {
             (b1, d1, st3) \<leftarrow> ataIdentify dev st2 primary_drive;
             st4 \<leftarrow> (if b1 then ata_print st3 ''Primary Bus is setup and read to read/write\<newline>'' [] else Some st3);
             (b2, d2, st5) \<leftarrow> ataIdentify dev st4 secondary_drive;
             st6 \<leftarrow> (if b2 then ata_print st5 ''Secondary Bus is setup and ready to read/write\<newline>'' []
                     else ata_print st5 ''Secondary Bus is NOT setup\<newline>'' []);
             Some (True, st6)
           })"

definition ideIRQHandler :: "ata \<Rightarrow> ata option" where
  "ideIRQHandler st = ata_print (st\<lparr>interrupt_recieved := True\<rparr>) ''written!!!!!!!!!!!!!!!!!!!!!\<newline>'' []"

section \<open>Transfers\<close>

text \<open>\<open>idePoll\<close> has no caller.\<close>

definition idePoll :: "device \<Rightarrow> ATA_Drive \<Rightarrow> ata \<Rightarrow> ata option" where
  "idePoll dev drive st = map_option snd (ata_wait dev (\<lambda>s. \<not> st_busy s) (command_port drive) st)"

text \<open>The checks both transfers start with: whether to go on, after the messages.\<close>

definition ata_check :: "ATA_Drive \<Rightarrow> u32 \<Rightarrow> u32 \<Rightarrow> ata \<Rightarrow> (bool \<times> ata) option" where
  "ata_check drive n sector_num st =
     (if ata_type drive = ATAPI then
        map_option (\<lambda>s. (False, s)) (ata_print st ''ATAPI Writing not implemented\<newline>'' [])
      else if sector_num > num_sectors drive then do {
        st1 \<leftarrow> ata_print st ''ERROR: sector num too high for ATA\<newline>'' [];
        st2 \<leftarrow> ata_print st1 ''    max: 0x%x\<newline>'' [Va_int (num_sectors drive)];
        Some (False, st2)
      }
      else if sector_num + n > num_sectors drive then do {
        st1 \<leftarrow> ata_print st ''ERROR: ATA write aborted, would write off end of disk\<newline>'' [];
        st2 \<leftarrow> ata_print st1 ''    max: 0x%x\<newline>'' [Va_int (num_sectors drive)];
        Some (False, st2)
      }
      else Some (True, st))"

definition ata_sleep :: "u32 \<Rightarrow> nat list \<Rightarrow> ata \<Rightarrow> ata option" where
  "ata_sleep millis ticks st = map_option (\<lambda>p. st\<lparr>ata_pit := p\<rparr>) (pitSleep (ata_pit st) millis ticks)"

definition ata_lba :: "u32 \<Rightarrow> u32" where
  "ata_lba sector_num = (sector_num * SECTOR_SIZE) AND 0x0FFFFFFF"

definition drive_select_and_high_bits :: "ATA_Drive \<Rightarrow> u32 \<Rightarrow> u8" where
  "drive_select_and_high_bits drive lba =
     (if drive_type drive = PRIMARY then ATA_PRIMARY_SELECT else ATA_SECONDARY_SELECT)
       OR ucast (drop_bit 24 lba AND 0x0F)"

text \<open>
  From the selection of the drive to its readiness for data. The transfers differ in what
  they do between the first sleep and the first wait, and in the command.
\<close>

definition ata_request ::
    "device \<Rightarrow> (ata \<Rightarrow> ATA_Drive \<Rightarrow> ata) \<Rightarrow> u8 \<Rightarrow> ATA_Drive \<Rightarrow> u32 \<Rightarrow> u32 \<Rightarrow> nat list \<times> nat list \<Rightarrow> ata \<Rightarrow> ata option" where
  "ata_request dev quiet command drive n sector_num ticks st =
     (let lba = ata_lba sector_num; bus = io_port drive;
          lba_low = ucast (lba AND 0xFF) :: u8;
          lba_mid = ucast (drop_bit 8 lba AND 0xFF) :: u8;
          lba_high = ucast (drop_bit 16 lba AND 0xFF) :: u8;
          st1 = ata_out st (bus + ATA_REG_DRIVESELECT) (drive_select_and_high_bits drive lba)
      in do {
           st2 \<leftarrow> ata_sleep 1 (fst ticks) st1;
           let st3 = quiet st2 drive;
           (s4, st4) \<leftarrow> ata_wait dev (\<lambda>s. \<not> st_busy s \<and> \<not> st_data_transfer_requested s) (command_port drive) st3;
           let st5 = ata_out st4 (bus + ATA_REG_SECCOUNT) (ucast n);
           let st6 = ata_out st5 (bus + ATA_REG_LBALOW) lba_low;
           let st7 = ata_out st6 (bus + ATA_REG_LBAMID) lba_mid;
           let st8 = ata_out st7 (bus + ATA_REG_LBAHIGH) lba_high;
           let st9 = ata_out st8 (bus + ATA_REG_COMMAND) command;
           st10 \<leftarrow> ata_sleep 1 (snd ticks) st9;
           (s11, st11) \<leftarrow> ata_wait dev (\<lambda>s. \<not> st_busy s \<and> st_data_transfer_requested s) (command_port drive) st10;
           Some st11
         })"

text \<open>The flush, the last wait and the check of the error bit.\<close>

definition ata_finish ::
    "device \<Rightarrow> (u8 \<Rightarrow> bool) \<Rightarrow> ATA_Drive \<Rightarrow> u32 \<Rightarrow> ata \<Rightarrow> (u32 \<times> ata) option" where
  "ata_finish dev ready drive n st =
     (let st1 = resetBus (ata_out st (io_port drive + ATA_REG_COMMAND) ATA_CMD_CACHE_FLUSH) drive
      in do {
           (poll, st2) \<leftarrow> ata_wait dev ready (command_port drive) st1;
           (if st_error poll then
              map_option (\<lambda>s. (0, s)) (ata_print st2 ''ERROR: Error writing to disk\<newline>'' [])
            else Some (n * SECTOR_SIZE, st2))
         })"

fun ataRead_loop :: "device \<Rightarrow> u16 \<Rightarrow> nat \<Rightarrow> addr \<Rightarrow> mem \<Rightarrow> machine \<Rightarrow> mem \<times> machine" where
  "ataRead_loop dev port 0 itr mem m = (mem, m)"
| "ataRead_loop dev port (Suc k) itr mem m =
     (let (tmp, m1) = inw dev m port in ataRead_loop dev port k (itr + 2) (wr16 mem itr tmp) m1)"

definition ataRead_drive ::
    "device \<Rightarrow> ATA_Drive \<Rightarrow> addr \<Rightarrow> u32 \<Rightarrow> u32 \<Rightarrow> nat list \<times> nat list \<Rightarrow> ata \<Rightarrow> (u32 \<times> ata) option" where
  "ataRead_drive dev drive data n sector_num ticks st =
     do {
       (go, st1) \<leftarrow> ata_check drive n sector_num st;
       (if \<not> go then Some (0, st1)
        else do {
          st2 \<leftarrow> ata_request dev resetBus ATA_CMD_READ_PIO drive n sector_num ticks st1;
          let (mem, m) = ataRead_loop dev (io_port drive + ATA_REG_DATA) (unat (n * (SECTOR_SIZE div 2))) data
                (ata_mem st2) (ata_cpu st2);
          ata_finish dev (\<lambda>s. \<not> st_busy s) drive n (ata_io (\<lambda>_. m) (st2\<lparr>ata_mem := mem\<rparr>))
        })
     }"

definition ataRead ::
    "device \<Rightarrow> addr \<Rightarrow> u32 \<Rightarrow> u32 \<Rightarrow> nat list \<times> nat list \<Rightarrow> ata \<Rightarrow> (u32 \<times> ata) option" where
  "ataRead dev data n sector_num ticks st =
     Option.bind (nth_opt (ata_drives st) 0) (\<lambda>drive. ataRead_drive dev drive data n sector_num ticks st)"

text \<open>
  The word sent for the two bytes at \<open>data\<close>: the first is a \<open>char\<close>, which is signed and
  converted with its sign; the second is the low byte of the 16 bits read there.
\<close>

definition ata_word :: "mem \<Rightarrow> addr \<Rightarrow> u16" where
  "ata_word mem data =
     (let to_write = scast (mem data) :: u16
      in to_write OR ucast (push_bit 8 (ucast (rd16 mem (data + 1)) :: u32)))"

fun ataWrite_loop :: "u16 \<Rightarrow> nat \<Rightarrow> addr \<Rightarrow> mem \<Rightarrow> machine \<Rightarrow> machine" where
  "ataWrite_loop port 0 data mem m = m"
| "ataWrite_loop port (Suc k) data mem m =
     ataWrite_loop port k (data + 2) mem (outw m port (ata_word mem data))"

definition ataWrite_drive ::
    "device \<Rightarrow> ATA_Drive \<Rightarrow> addr \<Rightarrow> u32 \<Rightarrow> u32 \<Rightarrow> nat list \<times> nat list \<Rightarrow> ata \<Rightarrow> (u32 \<times> ata) option" where
  "ataWrite_drive dev drive data n sector_num ticks st =
     do {
       (go, st1) \<leftarrow> ata_check drive n sector_num st;
       (if \<not> go then Some (0, st1)
        else do {
          st2 \<leftarrow> ata_request dev ataSetNoInterrupts ATA_CMD_WRITE_PIO drive n sector_num ticks st1;
          let m = ataWrite_loop (io_port drive + ATA_REG_DATA) (unat (n * (SECTOR_SIZE div 2))) data
                (ata_mem st2) (ata_cpu st2);
          ata_finish dev (\<lambda>s. \<not> st_data_transfer_requested s \<and> \<not> st_busy s) drive n (ata_io (\<lambda>_. m) st2)
        })
     }"

definition ataWrite ::
    "device \<Rightarrow> addr \<Rightarrow> u32 \<Rightarrow> u32 \<Rightarrow> nat list \<times> nat list \<Rightarrow> ata \<Rightarrow> (u32 \<times> ata) option" where
  "ataWrite dev data n sector_num ticks st =
     Option.bind (nth_opt (ata_drives st) 0) (\<lambda>drive. ataWrite_drive dev drive data n sector_num ticks st)"

end
