(* ===== verification/Ata_Props.thy ===== *)
theory Ata_Props
  imports Ata Timer_Props
begin

text \<open>
  The disk driver: which requests it refuses, what it programs for one it accepts and that it
  comes back when the drive answers, and what the bytes become on their way through the data
  port and back.
\<close>

section \<open>Waiting\<close>

text \<open>Events that only concern the timer.\<close>

definition sleep_event :: "io_event \<Rightarrow> bool" where
  "sleep_event e \<longleftrightarrow> e \<in> {Cli, Sti, Outb 0x20 0x20, Outb 0xa0 0x20}"

lemma sleep_event_simps [simp]:
  "sleep_event Cli" "sleep_event Sti"
  "sleep_event (Outb q v) \<longleftrightarrow> (q = 0x20 \<or> q = 0xa0) \<and> v = 0x20"
  by (auto simp: sleep_event_def)

lemma ata_io_simps [simp]:
  "ata_cpu (ata_io f st) = f (ata_cpu st)" "ata_mem (ata_io f st) = ata_mem st"
  "ata_drives (ata_io f st) = ata_drives st" "ata_console (ata_io f st) = ata_console st"
  "ata_cpu (st\<lparr>ata_mem := mem\<rparr>) = ata_cpu st"
  by (simp_all add: ata_io_def ata_cpu_def pit_machine_def)

lemma ata_out_simps [simp]:
  "io_log (ata_cpu (ata_out st p v)) = io_log (ata_cpu st) @ [Outb p v]" "ata_mem (ata_out st p v) = ata_mem st"
  "ata_drives (ata_out st p v) = ata_drives st"
  by (simp_all add: ata_out_def io_simps)

lemma ata_wait_returns:
  assumes "answers dev port ready"
  obtains s st' es where "ata_wait dev ready port st = Some (s, st')" and "ready s"
    and "io_log (ata_cpu st') = io_log (ata_cpu st) @ es" and "list_all (reads_of port) es"
    and "ata_mem st' = ata_mem st" and "ata_drives st' = ata_drives st"
proof -
  obtain k where "ready (read8 dev (poll_log dev port (io_log (ata_cpu st)) k) port)"
    using assms by (auto simp: answers_def)
  from poll_until_returns [of ready, OF this] show thesis by (auto simp: ata_wait_def intro!: that)
qed

lemma PITIRQ_log: "io_log (cpu (pit_idt (PITIRQ p))) = io_log (cpu (pit_idt p)) @ [Outb 0x20 0x20, Outb 0xa0 0x20]"
  by (simp add: PITIRQ_def Let_def pit_machine_def io_simps)

lemma PITIRQ_pow_log:
  "\<exists>es. io_log (cpu (pit_idt ((PITIRQ ^^ n) p))) = io_log (cpu (pit_idt p)) @ es \<and> list_all sleep_event es"
proof (induction n)
  case (Suc n)
  then obtain es where es: "io_log (cpu (pit_idt ((PITIRQ ^^ n) p))) = io_log (cpu (pit_idt p)) @ es"
    "list_all sleep_event es" by blast
  then show ?case
    by (intro exI [of _ "es @ [Outb 0x20 0x20, Outb 0xa0 0x20]"]) (simp add: PITIRQ_log)
qed simp

lemma pitSleep_loop_log:
  "pitSleep_loop p ticks = Some p' \<Longrightarrow>
   \<exists>es. io_log (cpu (pit_idt p')) = io_log (cpu (pit_idt p)) @ es \<and> list_all sleep_event es"
proof (induction ticks arbitrary: p)
  case Nil
  then show ?case
    by (subst (asm) pitSleep_loop.simps)
      (auto simp: Let_def pit_machine_def io_simps split: if_splits)
next
  case (Cons n ns)
  show ?case
  proof (cases "sleep_counter p = 0")
    case True
    then show ?thesis
      using Cons.prems by (subst (asm) pitSleep_loop.simps)
        (auto simp: Let_def pit_machine_def io_simps split: if_splits)
  next
    case False
    let ?q = "pit_machine (pit_machine p cli) sti"
    have "pitSleep_loop ((PITIRQ ^^ n) ?q) ns = Some p'"
      using Cons.prems False by (subst (asm) pitSleep_loop.simps) (simp add: Let_def)
    from Cons.IH [OF this] obtain es where es:
      "io_log (cpu (pit_idt p')) = io_log (cpu (pit_idt ((PITIRQ ^^ n) ?q))) @ es" "list_all sleep_event es" by blast
    obtain fs where fs: "io_log (cpu (pit_idt ((PITIRQ ^^ n) ?q))) = io_log (cpu (pit_idt ?q)) @ fs"
      "list_all sleep_event fs" using PITIRQ_pow_log by blast
    have "io_log (cpu (pit_idt ?q)) = io_log (cpu (pit_idt p)) @ [Cli, Sti]"
      by (simp add: pit_machine_def io_simps)
    then show ?thesis
      using es fs by (intro exI [of _ "[Cli, Sti] @ fs @ es"]) simp
  qed
qed

lemma ata_sleep_returns:
  assumes "0 < sum_list ticks"
  obtains st' es where "ata_sleep 1 ticks st = Some st'"
    and "io_log (ata_cpu st') = io_log (ata_cpu st) @ es" and "list_all sleep_event es"
    and "ata_mem st' = ata_mem st" and "ata_drives st' = ata_drives st"
proof -
  obtain p where p: "pitSleep (ata_pit st) 1 ticks = Some p"
    using pitSleep_loop_returns [of "(ata_pit st)\<lparr>sleep_counter := 1\<rparr>" ticks] assms
    by (auto simp: pitSleep_def Suc_le_eq split: if_splits)
  have "pitSleep_loop ((ata_pit st)\<lparr>sleep_counter := 1\<rparr>) ticks = Some p" using p by (simp add: pitSleep_def)
  from pitSleep_loop_log [OF this] p show thesis
    by (auto simp: ata_sleep_def ata_cpu_def intro!: that)
qed

section \<open>What a request leaves in the registers\<close>

lemma last_outb_append:
  "last_outb (xs @ ys) p = (case last_outb ys p of None \<Rightarrow> last_outb xs p | Some v \<Rightarrow> Some v)"
proof (induction ys rule: rev_induct)
  case (snoc y ys)
  have "last_outb (xs @ ys @ [y]) p = last_outb ((xs @ ys) @ [y]) p" by simp
  then show ?case using snoc by (simp only: last_outb_snoc) (auto split: io_event.splits)
qed (simp add: last_outb_Nil)

lemma last_outb_quiet:
  "list_all (reads_of q) es \<Longrightarrow> last_outb es p = None"
  "list_all sleep_event es \<Longrightarrow> p \<noteq> 0x20 \<Longrightarrow> p \<noteq> 0xa0 \<Longrightarrow> last_outb es p = None"
  by (induction es rule: rev_induct)
    (auto simp: last_outb_Nil last_outb_snoc reads_of_def sleep_event_def)

lemma last_outb_Cons:
  "last_outb (e # es) p = (case last_outb es p of Some v \<Rightarrow> Some v
     | None \<Rightarrow> (case e of Outb q v \<Rightarrow> if q = p then Some v else None | _ \<Rightarrow> None))"
  using last_outb_append [of "[e]" es p] last_outb_snoc [of "[]" e p]
  by (auto simp: last_outb_Nil split: option.splits io_event.splits)

text \<open>The words sent to a port.\<close>

fun sent_words :: "u16 \<Rightarrow> io_event list \<Rightarrow> u16 list" where
  "sent_words port [] = []"
| "sent_words port (Outw q w # es) = (if q = port then w # sent_words port es else sent_words port es)"
| "sent_words port (e # es) = sent_words port es"

lemma sent_words_append [simp]: "sent_words p (xs @ ys) = sent_words p xs @ sent_words p ys"
  by (induction p xs rule: sent_words.induct) auto

lemma sent_words_quiet:
  "list_all (reads_of q) es \<Longrightarrow> sent_words p es = []"
  "list_all sleep_event es \<Longrightarrow> sent_words p es = []"
  by (induction es) (auto simp: reads_of_def sleep_event_def)

text \<open>The 28-bit address in the registers of a bus, and a drive of the two buses.\<close>

definition register_lba :: "u16 \<Rightarrow> io_event list \<Rightarrow> u32 option" where
  "register_lba bus log =
     do { low \<leftarrow> last_outb log (bus + 3); mid \<leftarrow> last_outb log (bus + 4); high \<leftarrow> last_outb log (bus + 5);
          sel \<leftarrow> last_outb log (bus + 6);
          Some (ucast low OR push_bit 8 (ucast mid) OR push_bit 16 (ucast high) OR push_bit 24 (ucast (sel AND 0x0F))) }"

definition bus_drive :: "ATA_Drive \<Rightarrow> bool" where
  "bus_drive drive \<longleftrightarrow> io_port drive \<in> {PBUS, SBUS} \<and> command_port drive = PBUSC"

lemma lba_bits:
  "(ucast (ucast (lba AND mask 8) :: u8) :: u32) OR push_bit 8 (ucast (ucast (drop_bit 8 lba AND mask 8) :: u8))
     OR push_bit 16 (ucast (ucast (drop_bit 16 lba AND mask 8) :: u8))
     OR push_bit 24 (ucast (ucast (drop_bit 24 lba AND mask 4) :: u8)) = lba AND mask 28" for lba :: u32
proof (rule bit_word_eqI)
  fix n assume "n < LENGTH(32)"
  then consider "n < 8" | "8 \<le> n" "n < 16" | "16 \<le> n" "n < 24" | "24 \<le> n" "n < 28" | "28 \<le> n" "n < 32"
    by fastforce
  then show "bit ((ucast (ucast (lba AND mask 8) :: u8) :: u32) OR push_bit 8 (ucast (ucast (drop_bit 8 lba AND mask 8) :: u8))
      OR push_bit 16 (ucast (ucast (drop_bit 16 lba AND mask 8) :: u8))
      OR push_bit 24 (ucast (ucast (drop_bit 24 lba AND mask 4) :: u8))) n = bit (lba AND mask 28) n"
    by cases (auto simp: bit_simps)
qed

lemma small_masks:
  "(0xFF :: u32) = mask 8" "(0x0F :: u32) = mask 4" "(0x0F :: u8) = mask 4" "(0x0FFFFFFF :: u32) = mask 28"
  by (simp_all add: mask_eq_exp_minus_1)

lemma select_low_bits: "drive_select_and_high_bits drive lba AND 0x0F = ucast (drop_bit 24 lba AND 0x0F)"
proof -
  have "ATA_PRIMARY_SELECT AND 0x0F = 0" "ATA_SECONDARY_SELECT AND 0x0F = 0"
    by (simp_all add: ATA_PRIMARY_SELECT_def ATA_SECONDARY_SELECT_def)
  moreover have "ucast (drop_bit 24 lba AND 0x0F) AND (0x0F :: u8) = ucast (drop_bit 24 lba AND 0x0F)"
    unfolding small_masks by (rule bit_word_eqI) (auto simp: bit_simps)
  ultimately show ?thesis by (simp add: drive_select_and_high_bits_def bit.conj_disj_distrib2)
qed

lemma lba_pieces:
  "(ucast (ucast (lba AND 0xFF) :: u8) :: u32) OR push_bit 8 (ucast (ucast (drop_bit 8 lba AND 0xFF) :: u8))
     OR push_bit 16 (ucast (ucast (drop_bit 16 lba AND 0xFF) :: u8))
     OR push_bit 24 (ucast (drive_select_and_high_bits drive lba AND 0x0F)) = lba AND 0x0FFFFFFF" for lba :: u32
  unfolding select_low_bits unfolding small_masks by (rule lba_bits)

lemma unat_ata_lba: "unat (ata_lba s) = unat s * 512 mod 268435456"
proof -
  have m: "(0x0FFFFFFF :: u32) = mask 28" by (simp add: mask_eq_exp_minus_1)
  have "unat (ata_lba s) = take_bit 28 (unat (s * 512))"
    unfolding ata_lba_def SECTOR_SIZE_def m by (simp add: take_bit_eq_mask [symmetric] unsigned_take_bit_eq)
  also have "\<dots> = unat s * 512 mod 268435456"
    by (simp add: take_bit_eq_mod unat_word_ariths mod_mod_cancel)
  finally show ?thesis .
qed

section \<open>A request\<close>

lemma pollings:
  "answers dev port (\<lambda>s. \<not> st_busy s \<and> \<not> st_data_transfer_requested s) \<Longrightarrow>
   answers dev port (\<lambda>s. \<not> st_data_transfer_requested s \<and> \<not> st_busy s)"
  by (simp add: answers_def conj_commute)

lemma ata_request_returns:
  assumes "answers dev (command_port drive) (\<lambda>s. \<not> st_busy s \<and> \<not> st_data_transfer_requested s)"
    and "answers dev (command_port drive) (\<lambda>s. \<not> st_busy s \<and> st_data_transfer_requested s)"
    and "0 < sum_list (fst ticks)" and "0 < sum_list (snd ticks)"
  obtains st' e1 e2 e3 e4 where
    "ata_request dev ataSetNoInterrupts command drive n sector_num ticks st = Some st'"
    and "io_log (ata_cpu st') = io_log (ata_cpu st)
      @ [Outb (io_port drive + 6) (drive_select_and_high_bits drive (ata_lba sector_num))]
      @ e1 @ [Outb (command_port drive) 2] @ e2
      @ [Outb (io_port drive + 8) (ucast n), Outb (io_port drive + 3) (ucast (ata_lba sector_num AND 0xFF)),
         Outb (io_port drive + 4) (ucast (drop_bit 8 (ata_lba sector_num) AND 0xFF)),
         Outb (io_port drive + 5) (ucast (drop_bit 16 (ata_lba sector_num) AND 0xFF)),
         Outb (io_port drive + 7) command] @ e3 @ e4"
    and "list_all sleep_event e1" and "list_all (reads_of (command_port drive)) e2"
    and "list_all sleep_event e3" and "list_all (reads_of (command_port drive)) e4"
    and "ata_mem st' = ata_mem st" and "ata_drives st' = ata_drives st"
proof -
  let ?lba = "ata_lba sector_num" and ?bus = "io_port drive" and ?c = "command_port drive"
  let ?st1 = "ata_out st (?bus + ATA_REG_DRIVESELECT) (drive_select_and_high_bits drive ?lba)"
  obtain st2 e1 where 2: "ata_sleep 1 (fst ticks) ?st1 = Some st2"
    "io_log (ata_cpu st2) = io_log (ata_cpu ?st1) @ e1" "list_all sleep_event e1"
    "ata_mem st2 = ata_mem ?st1" "ata_drives st2 = ata_drives ?st1"
    by (rule ata_sleep_returns [OF assms(3)])
  let ?st3 = "ataSetNoInterrupts st2 drive"
  obtain s4 st4 e2 where 4: "ata_wait dev (\<lambda>s. \<not> st_busy s \<and> \<not> st_data_transfer_requested s) ?c ?st3 = Some (s4, st4)"
    "io_log (ata_cpu st4) = io_log (ata_cpu ?st3) @ e2" "list_all (reads_of ?c) e2"
    "ata_mem st4 = ata_mem ?st3" "ata_drives st4 = ata_drives ?st3"
    by (rule ata_wait_returns [OF assms(1)])
  let ?st9 = "ata_out (ata_out (ata_out (ata_out (ata_out st4 (?bus + ATA_REG_SECCOUNT) (ucast n))
      (?bus + ATA_REG_LBALOW) (ucast (?lba AND 0xFF))) (?bus + ATA_REG_LBAMID) (ucast (drop_bit 8 ?lba AND 0xFF)))
      (?bus + ATA_REG_LBAHIGH) (ucast (drop_bit 16 ?lba AND 0xFF))) (?bus + ATA_REG_COMMAND) command"
  obtain st10 e3 where 10: "ata_sleep 1 (snd ticks) ?st9 = Some st10"
    "io_log (ata_cpu st10) = io_log (ata_cpu ?st9) @ e3" "list_all sleep_event e3"
    "ata_mem st10 = ata_mem ?st9" "ata_drives st10 = ata_drives ?st9"
    by (rule ata_sleep_returns [OF assms(4)])
  obtain s11 st11 e4 where 11: "ata_wait dev (\<lambda>s. \<not> st_busy s \<and> st_data_transfer_requested s) ?c st10 = Some (s11, st11)"
    "io_log (ata_cpu st11) = io_log (ata_cpu st10) @ e4" "list_all (reads_of ?c) e4"
    "ata_mem st11 = ata_mem st10" "ata_drives st11 = ata_drives st10"
    by (rule ata_wait_returns [OF assms(2)])
  show thesis
  proof (rule that [of st11 e1 e2 e3 e4])
    show "ata_request dev ataSetNoInterrupts command drive n sector_num ticks st = Some st11"
      using 2(1) 4(1) 10(1) 11(1) by (simp add: ata_request_def Let_def)
  qed (use 2 4 10 11 in \<open>simp_all add: ataSetNoInterrupts_def ATA_REG_DRIVESELECT_def ATA_REG_SECCOUNT_def
      ATA_REG_LBALOW_def ATA_REG_LBAMID_def ATA_REG_LBAHIGH_def ATA_REG_COMMAND_def\<close>)
qed

lemma ataWrite_loop_log:
  "io_log (ataWrite_loop port k data mem m)
     = io_log m @ map (\<lambda>i. Outw port (ata_word mem (data + of_nat (2 * i)))) [0..<k]"
proof (induction k arbitrary: data m)
  case (Suc k)
  have "map (\<lambda>i. Outw port (ata_word mem (data + of_nat (2 * i)))) [0..<Suc k]
      = Outw port (ata_word mem data) # map (\<lambda>i. Outw port (ata_word mem (data + 2 + of_nat (2 * i)))) [0..<k]"
    by (simp add: upt_conv_Cons map_Suc_upt [symmetric] comp_def algebra_simps del: upt_Suc)
  then show ?case using Suc by (simp add: io_simps del: upt_Suc)
qed simp

lemma sent_words_map [simp]: "sent_words port (map (\<lambda>i. Outw port (f i)) is) = map f is"
  by (induction "is") simp_all

lemma last_outb_words [simp]: "last_outb (map (\<lambda>i. Outw port (f i)) is) p = None"
  by (induction "is" rule: rev_induct) (simp_all add: last_outb_Nil last_outb_snoc)

lemma resetBus_simps [simp]:
  "io_log (ata_cpu (resetBus st drive)) = io_log (ata_cpu st) @ [Outb (command_port drive) 4, Outb (command_port drive) 2]"
  "ata_mem (resetBus st drive) = ata_mem st" "ata_drives (resetBus st drive) = ata_drives st"
  by (simp_all add: resetBus_def lsh1_def)

lemma ata_print_cases:
  "ata_print st fmt args = Some st' \<Longrightarrow> ata_cpu st' = ata_cpu st \<and> ata_mem st' = ata_mem st \<and> ata_drives st' = ata_drives st"
  by (auto simp: ata_print_def ata_cpu_def)

lemma ata_message: "\<exists>st'. ata_print st ''ERROR: Error writing to disk\<newline>'' [] = Some st'"
  by (simp add: ata_print_def kprintf_def kvprintf_def kvsprintf_def)

lemma ata_finish_returns:
  assumes "answers dev (command_port drive) ready"
  obtains r st' es where "ata_finish dev ready drive n st = Some (r, st')" and "r = 0 \<or> r = n * 512"
    and "io_log (ata_cpu st') = io_log (ata_cpu st) @ [Outb (io_port drive + 7) 0xE7,
      Outb (command_port drive) 4, Outb (command_port drive) 2] @ es"
    and "list_all (reads_of (command_port drive)) es" and "ata_mem st' = ata_mem st"
proof -
  let ?st1 = "resetBus (ata_out st (io_port drive + ATA_REG_COMMAND) ATA_CMD_CACHE_FLUSH) drive"
  obtain s st2 es where w: "ata_wait dev ready (command_port drive) ?st1 = Some (s, st2)"
    "io_log (ata_cpu st2) = io_log (ata_cpu ?st1) @ es" "list_all (reads_of (command_port drive)) es"
    "ata_mem st2 = ata_mem ?st1"
    by (rule ata_wait_returns [OF assms])
  obtain st3 where p: "ata_print st2 ''ERROR: Error writing to disk\<newline>'' [] = Some st3"
    using ata_message by blast
  show thesis
    using w p ata_print_cases [OF p]
    by (intro that [of "if st_error s then 0 else n * 512" "if st_error s then st3 else st2" es])
      (auto simp: ata_finish_def ATA_REG_COMMAND_def ATA_CMD_CACHE_FLUSH_def SECTOR_SIZE_def)
qed

lemma max_message: "\<exists>line. kprintf ''    max: 0x%x\<newline>'' [Va_int w] = Some line"
proof -
  have "kvsprintf ''    max: 0x%x\<newline>'' [Va_int w] = Some (render_hexadecimal ''    max: 0x'' w @ ''\<newline>'', True)"
    by (simp add: kvsprintf_def)
  from kprintf_terminated [OF this] show ?thesis by simp
qed

text \<open>A request the checks let through, as the code computes it.\<close>

definition ata_accepts :: "ATA_Drive \<Rightarrow> u32 \<Rightarrow> u32 \<Rightarrow> bool" where
  "ata_accepts drive n sector_num \<longleftrightarrow> ata_type drive = ATA \<and> sector_num \<le> num_sectors drive
     \<and> sector_num + n \<le> num_sectors drive"

lemma ata_check_accepts: "ata_accepts drive n s \<Longrightarrow> ata_check drive n s st = Some (True, st)"
  by (auto simp: ata_check_def ata_accepts_def)

text \<open>The registers and the data port after a write, from its log.\<close>

lemma ata_write_log:
  assumes ports: "p = 0x1F0 \<or> p = 0x170"
    and log: "L = L0 @ [Outb (p + 6) (drive_select_and_high_bits drive lba)] @ e1 @ [Outb PBUSC 2] @ e2
      @ [Outb (p + 8) cnt, Outb (p + 3) (ucast (lba AND 0xFF)), Outb (p + 4) (ucast (drop_bit 8 lba AND 0xFF)),
         Outb (p + 5) (ucast (drop_bit 16 lba AND 0xFF)), Outb (p + 7) cmd] @ e3 @ e4
      @ map (\<lambda>i. Outw p (f i)) [0..<k] @ Outb (p + 7) 0xE7 # Outb PBUSC 4 # Outb PBUSC 2 # es"
    and quiet: "list_all sleep_event e1" "list_all (reads_of PBUSC) e2" "list_all sleep_event e3"
      "list_all (reads_of PBUSC) e4" "list_all (reads_of PBUSC) es"
  shows "sent_words p L = sent_words p L0 @ map f [0..<k]" and "register_lba p L = Some (lba AND 0x0FFFFFFF)"
    and "last_outb L (p + 8) = Some cnt" and "last_outb L (p + 2) = last_outb L0 (p + 2)"
proof -
  note lo = last_outb_append last_outb_Cons last_outb_Nil last_outb_quiet(2) [OF quiet(1)]
    last_outb_quiet(1) [OF quiet(2)] last_outb_quiet(2) [OF quiet(3)] last_outb_quiet(1) [OF quiet(4)]
    last_outb_quiet(1) [OF quiet(5)]
  show "sent_words p L = sent_words p L0 @ map f [0..<k]"
    unfolding log using quiet by (simp add: sent_words_quiet)
  show "register_lba p L = Some (lba AND 0x0FFFFFFF)"
    using ports unfolding log register_lba_def lba_pieces [symmetric, where drive = drive]
    by (auto simp: lo PBUSC_def)
  show "last_outb L (p + 8) = Some cnt" "last_outb L (p + 2) = last_outb L0 (p + 2)"
    using ports unfolding log by (auto simp: lo PBUSC_def)
qed

section \<open>Properties\<close>

text \<open>
  C35: A write the checks accept returns whenever the drive answers the polls and a timer
  interrupt ends each sleep. It then has sent to the data port exactly the words of the buffer,
  256 per sector, and left the buffer alone; but the address it programmed is the byte offset
  of the sector modulo 2 ^ 28, not its number, so sectors that differ by 2 ^ 19 are the same to
  the drive; and the count went to the register at offset 8, the sector count register at
  offset 2 keeping what it had.
\<close>

theorem ataWrite_programs:
  assumes drv: "bus_drive drive" "ata_accepts drive n sector_num"
    and ans: "answers dev PBUSC (\<lambda>s. \<not> st_busy s \<and> \<not> st_data_transfer_requested s)"
      "answers dev PBUSC (\<lambda>s. \<not> st_busy s \<and> st_data_transfer_requested s)"
    and ticks: "0 < sum_list (fst ticks)" "0 < sum_list (snd ticks)"
  shows "\<exists>r st'. ataWrite_drive dev drive data n sector_num ticks st = Some (r, st') \<and> (r = 0 \<or> r = n * 512)
    \<and> ata_mem st' = ata_mem st
    \<and> sent_words (io_port drive) (io_log (ata_cpu st')) = sent_words (io_port drive) (io_log (ata_cpu st))
        @ map (\<lambda>i. ata_word (ata_mem st) (data + of_nat (2 * i))) [0..<unat (n * 256)]
    \<and> map_option unat (register_lba (io_port drive) (io_log (ata_cpu st'))) = Some (unat sector_num * 512 mod 268435456)
    \<and> last_outb (io_log (ata_cpu st')) (io_port drive + 8) = Some (ucast n)
    \<and> last_outb (io_log (ata_cpu st')) (io_port drive + 2) = last_outb (io_log (ata_cpu st)) (io_port drive + 2)"
proof -
  have c: "command_port drive = PBUSC" using drv(1) by (simp add: bus_drive_def)
  obtain st1 e1 e2 e3 e4 where req: "ata_request dev ataSetNoInterrupts ATA_CMD_WRITE_PIO drive n sector_num ticks st = Some st1"
    "io_log (ata_cpu st1) = io_log (ata_cpu st)
      @ [Outb (io_port drive + 6) (drive_select_and_high_bits drive (ata_lba sector_num))]
      @ e1 @ [Outb (command_port drive) 2] @ e2
      @ [Outb (io_port drive + 8) (ucast n), Outb (io_port drive + 3) (ucast (ata_lba sector_num AND 0xFF)),
         Outb (io_port drive + 4) (ucast (drop_bit 8 (ata_lba sector_num) AND 0xFF)),
         Outb (io_port drive + 5) (ucast (drop_bit 16 (ata_lba sector_num) AND 0xFF)),
         Outb (io_port drive + 7) ATA_CMD_WRITE_PIO] @ e3 @ e4"
    "list_all sleep_event e1" "list_all (reads_of (command_port drive)) e2"
    "list_all sleep_event e3" "list_all (reads_of (command_port drive)) e4"
    "ata_mem st1 = ata_mem st" "ata_drives st1 = ata_drives st"
    by (rule ata_request_returns [OF ans [folded c] ticks])
  let ?m = "ataWrite_loop (io_port drive + ATA_REG_DATA) (unat (n * (SECTOR_SIZE div 2))) data (ata_mem st1) (ata_cpu st1)"
  obtain r st' es where fin: "ata_finish dev (\<lambda>s. \<not> st_data_transfer_requested s \<and> \<not> st_busy s) drive n
      (ata_io (\<lambda>_. ?m) st1) = Some (r, st')" "r = 0 \<or> r = n * 512"
    "io_log (ata_cpu st') = io_log (ata_cpu (ata_io (\<lambda>_. ?m) st1)) @ [Outb (io_port drive + 7) 0xE7,
      Outb (command_port drive) 4, Outb (command_port drive) 2] @ es"
    "list_all (reads_of (command_port drive)) es" "ata_mem st' = ata_mem (ata_io (\<lambda>_. ?m) st1)"
    by (rule ata_finish_returns [OF pollings [OF ans(1) [folded c]]])
  have run: "ataWrite_drive dev drive data n sector_num ticks st = Some (r, st')"
    using fin(1) req(1) by (simp add: ataWrite_drive_def ata_check_accepts [OF drv(2)])
  have k: "n * (SECTOR_SIZE div 2) = n * 256" by (simp add: SECTOR_SIZE_def)
  note log = fin(3) [simplified, unfolded ataWrite_loop_log req(2) k c ATA_REG_DATA_def add_0_right append_assoc]
  have ports: "io_port drive = 0x1F0 \<or> io_port drive = 0x170"
    using drv(1) by (auto simp: bus_drive_def PBUS_def SBUS_def)
  have "ata_lba sector_num AND 0x0FFFFFFF = ata_lba sector_num" by (simp add: ata_lba_def and.assoc)
  then show ?thesis
    using run fin(2,5) req(7) ata_write_log [OF ports log req(3) req(4) [unfolded c] req(5) req(6) [unfolded c] fin(4) [unfolded c]]
    by (simp add: unat_ata_lba)
qed

text \<open>A drive whose status alternates between idle and data requested.\<close>

definition flip_device :: device where
  "flip_device = \<lparr>read8 = (\<lambda>log _. if even (length log) then 0 else 0x08), read16 = (\<lambda>_ _. 0),
     read32 = (\<lambda>_ _. 0)\<rparr>"

lemma flip_device_answers:
  assumes "ready 0 \<or> ready 0x08"
  shows "answers flip_device port ready"
  unfolding answers_def
proof
  fix log
  consider "ready (read8 flip_device log port)" | "ready (read8 flip_device (log @ [Inb port (read8 flip_device log port)]) port)"
    using assms by (cases "even (length log)") (auto simp: flip_device_def)
  then show "\<exists>k. ready (read8 flip_device (poll_log flip_device port log k) port)"
    by cases (auto intro: exI [of _ 0] exI [of _ 1])
qed

definition small_drive :: ATA_Drive where
  "small_drive = \<lparr>ata_type = ATA, drive_type = PRIMARY, io_port = PBUS, command_port = PBUSC,
     uses_packets = False, num_sectors = 600000\<rparr>"

definition idle_ata :: ata where
  "idle_ata = \<lparr>ata_drives = [small_drive, small_drive], interrupt_recieved = False, ata_pit = fresh_pit,
     ata_mem = (\<lambda>_. 0), ata_console = []\<rparr>"

text \<open>Sector 524289 is written to the address of sector 1.\<close>

theorem ataWrite_programs_witness:
  "\<exists>r st'. ataWrite_drive flip_device small_drive 0x1000 1 524289 ([1], [1]) idle_ata = Some (r, st')
     \<and> map_option unat (register_lba PBUS (io_log (ata_cpu st'))) = Some 512"
proof -
  have d: "bus_drive small_drive" "ata_accepts small_drive 1 524289" "io_port small_drive = PBUS"
    by (simp_all add: bus_drive_def small_drive_def ata_accepts_def)
  have a: "answers flip_device PBUSC (\<lambda>s. \<not> st_busy s \<and> \<not> st_data_transfer_requested s)"
    "answers flip_device PBUSC (\<lambda>s. \<not> st_busy s \<and> st_data_transfer_requested s)"
    by (intro flip_device_answers disjI1, simp add: st_busy_def st_data_transfer_requested_def,
        intro flip_device_answers disjI2, simp add: st_busy_def st_data_transfer_requested_def bit_simps)
  show ?thesis
    using ataWrite_programs [OF d(1,2) a, of "([1], [1])" "0x1000" idle_ata] by (auto simp: d(3))
qed

text \<open>
  The checks both transfers start with. A request is let through exactly for an ATA drive
  and a first sector and an end of at most the number of sectors, where the end is computed
  modulo 2 ^ 32; every other one is refused with the result 0 and a message, without touching
  a port or the memory. So a request that runs past 2 ^ 32 sectors is let through when its
  wrapped end is small.
\<close>

theorem ata_request_guard:
  "if ata_type drive = ATA \<and> unat sector_num \<le> unat (num_sectors drive)
        \<and> (unat sector_num + unat n) mod 4294967296 \<le> unat (num_sectors drive)
   then ata_check drive n sector_num st = Some (True, st)
   else \<exists>line. line \<noteq> [] \<and> (let st' = st\<lparr>ata_console := ata_console st @ line\<rparr> in
     ataRead_drive dev drive data n sector_num ticks st = Some (0, st')
     \<and> ataWrite_drive dev drive data n sector_num ticks st = Some (0, st'))"
proof -
  have acc: "(ata_type drive = ATA \<and> unat sector_num \<le> unat (num_sectors drive)
        \<and> (unat sector_num + unat n) mod 4294967296 \<le> unat (num_sectors drive)) = ata_accepts drive n sector_num"
    by (simp add: ata_accepts_def word_le_nat_alt unat_word_ariths)
  have "\<exists>line. line \<noteq> [] \<and> ata_check drive n sector_num st = Some (False, st\<lparr>ata_console := ata_console st @ line\<rparr>)"
    if na: "\<not> ata_accepts drive n sector_num"
  proof -
    obtain l0 where 0: "kprintf ''ATAPI Writing not implemented\<newline>'' [] = Some l0" "l0 \<noteq> []"
      by (simp add: kprintf_def kvprintf_def kvsprintf_def)
    obtain l1 where 1: "kprintf ''ERROR: sector num too high for ATA\<newline>'' [] = Some l1" "l1 \<noteq> []"
      by (simp add: kprintf_def kvprintf_def kvsprintf_def)
    obtain l2 where 2: "kprintf ''ERROR: ATA write aborted, would write off end of disk\<newline>'' [] = Some l2" "l2 \<noteq> []"
      by (simp add: kprintf_def kvprintf_def kvsprintf_def)
    obtain l3 where 3: "kprintf ''    max: 0x%x\<newline>'' [Va_int (num_sectors drive)] = Some l3"
      using max_message by blast
    show ?thesis
    proof (cases "ata_type drive")
      case ATAPI
      then show ?thesis using 0 by (auto simp: ata_check_def ata_print_def)
    next
      case ATA
      then consider "sector_num > num_sectors drive" | "\<not> sector_num > num_sectors drive" "sector_num + n > num_sectors drive"
        using na by (auto simp: ata_accepts_def linorder_not_le)
      then show ?thesis using ATA 1 2 3 by cases (auto simp: ata_check_def ata_print_def)
    qed
  qed
  note refused = this
  show ?thesis
  proof (cases "ata_accepts drive n sector_num")
    case True
    then show ?thesis unfolding acc by (simp add: ata_check_accepts)
  next
    case False
    from refused [OF this] obtain line where "line \<noteq> []"
      "ata_check drive n sector_num st = Some (False, st\<lparr>ata_console := ata_console st @ line\<rparr>)" by blast
    then show ?thesis
      using False unfolding acc by (simp only: if_False, intro exI [of _ line])
        (simp add: ataRead_drive_def ataWrite_drive_def Let_def)
  qed
qed

section \<open>Initialisation\<close>

lemma ata_wait_keeps: "ata_wait dev ready port st = Some (s, st') \<Longrightarrow> ata_drives st' = ata_drives st"
  by (auto simp: ata_wait_def)

lemma ata_print_keeps: "ata_print st fmt args = Some st' \<Longrightarrow> ata_drives st' = ata_drives st"
  by (auto simp: ata_print_def)

lemma ataIdentify_keeps: "ataIdentify dev st drive = Some (b, drive', st') \<Longrightarrow> ata_drives st' = ata_drives st"
  unfolding ataIdentify_def atapiSetup_def ataSetNoInterrupts_def Let_def
  by (auto split: if_splits bind_splits prod.splits dest!: ata_wait_keeps ata_print_keeps)

text \<open>
  Initialisation identifies copies of the drives: in \<open>ata_drives\<close>, which the transfers use, the
  sizes are what the stack held, both drives are of type ATA and both have the control port of
  the first bus.
\<close>

lemma ideInit_leaves_sizes:
  assumes "ideInit dev garbage st = Some (True, st')"
  shows "map num_sectors (ata_drives st') = [snd (fst garbage), snd (snd garbage)]
    \<and> map ata_type (ata_drives st') = [ATA, ATA] \<and> map command_port (ata_drives st') = [PBUSC, PBUSC]"
  using assms unfolding ideInit_def Let_def
  by (auto split: if_splits bind_splits prod.splits dest!: ataIdentify_keeps ata_print_keeps)

section \<open>The data port\<close>

text \<open>A device that answers the next reads of the port with the given words.\<close>

fun feeds :: "device \<Rightarrow> u16 \<Rightarrow> io_event list \<Rightarrow> u16 list \<Rightarrow> bool" where
  "feeds dev port log [] \<longleftrightarrow> True"
| "feeds dev port log (w # ws) \<longleftrightarrow> read16 dev log port = w \<and> feeds dev port (log @ [Inw port w]) ws"

definition word_byte :: "u16 list \<Rightarrow> nat \<Rightarrow> u8" where
  "word_byte ws i = (if even i then ucast (ws ! (i div 2)) else ucast (drop_bit 8 (ws ! (i div 2))))"

lemma ataRead_loop_stores:
  "feeds dev port (io_log m) ws \<Longrightarrow> 2 * length ws \<le> 4294967296 \<Longrightarrow>
   fst (ataRead_loop dev port (length ws) itr mem m)
     = (\<lambda>x. if unat (x - itr) < 2 * length ws then word_byte ws (unat (x - itr)) else mem x)"
proof (induction ws arbitrary: itr mem m)
  case (Cons w ws)
  let ?m = "snd (inw dev m port)" and ?mem = "wr16 mem itr w"
  have w: "fst (inw dev m port) = w" "feeds dev port (io_log ?m) ws" using Cons.prems by (simp_all add: io_simps)
  have ih: "fst (ataRead_loop dev port (length ws) (itr + 2) ?mem ?m)
     = (\<lambda>x. if unat (x - (itr + 2)) < 2 * length ws then word_byte ws (unat (x - (itr + 2))) else ?mem x)"
    using Cons.IH [OF w(2)] Cons.prems(2) by simp
  show ?case
  proof
    fix x
    define d where "d = unat (x - itr)"
    have x: "x - itr = of_nat d" "d < 4294967296" using unat_lt_32 [of "x - itr"] by (simp_all add: d_def)
    have d2: "x - (itr + 2) = (x - itr) - 2" by simp
    have b0: "ucast w = word_byte (w # ws) 0" and b1: "ucast (drop_bit 8 w) = word_byte (w # ws) 1"
      by (simp_all add: word_byte_def)
    have "fst (ataRead_loop dev port (length (w # ws)) itr mem m) x
        = (if unat ((x - itr) - 2) < 2 * length ws then word_byte ws (unat ((x - itr) - 2)) else ?mem x)"
      using w(1) ih unfolding d2 [symmetric] by (simp add: case_prod_unfold)
    also have "\<dots> = (if d < 2 * length (w # ws) then word_byte (w # ws) d else mem x)"
    proof (cases "d < 2")
      case True
      then have "unat ((x - itr) - 2) = 4294967296 + d - 2"
        using unat_sub_wrap [of "x - itr" 2] by (simp add: d_def)
      moreover have "x = itr \<and> d = 0 \<or> x = itr + 1 \<and> d = 1"
      proof -
        have "d = 0 \<or> d = 1" using True by auto
        then show ?thesis using x(1) by (auto simp: algebra_simps)
      qed
      ultimately show ?thesis using Cons.prems(2) b0 b1 by (auto simp: wr16_def)
    next
      case False
      then have e: "unat ((x - itr) - 2) = d - 2"
        using unat_sub_nowrap [of 2 "x - itr"] by (simp add: d_def)
      obtain d' where d': "d = d' + 2" using False by (metis add.commute le_Suc_ex not_less)
      have "x \<noteq> itr" "x \<noteq> itr + 1" using False d_def by auto
      then show ?thesis unfolding e using d' by (simp add: wr16_def word_byte_def)
    qed
    finally show "fst (ataRead_loop dev port (length (w # ws)) itr mem m) x
        = (if unat (x - itr) < 2 * length (w # ws) then word_byte (w # ws) (unat (x - itr)) else mem x)"
      by (simp add: d_def)
  qed
qed simp

lemma ata_word_bytes:
  "ucast (ata_word mem a) = mem a"
  "ucast (drop_bit 8 (ata_word mem a)) = (if bit (mem a) 7 then 0xFF else mem (a + 1))"
proof -
  have hi: "bit (ata_word mem a) (n + 8) \<longleftrightarrow> bit (mem a) 7 \<or> bit (mem (a + 1)) n" if "n < 8" for n
    using that by (auto simp: ata_word_def rd16_def Let_def bit_simps)
  show "ucast (ata_word mem a) = mem a"
    by (rule bit_word_eqI) (auto simp: ata_word_def Let_def bit_simps)
  have ff: "(0xFF :: u8) = mask 8" by (simp add: mask_eq_exp_minus_1)
  show "ucast (drop_bit 8 (ata_word mem a)) = (if bit (mem a) 7 then 0xFF else mem (a + 1))"
    unfolding ff by (rule bit_word_eqI) (auto simp: bit_simps hi add.commute)
qed

text \<open>
  C36: Bytes sent to the data port by the write loop, and fed back to the read loop by a device
  that kept them, come back as they were exactly when no byte at an even offset has its high bit
  set, unless the byte after it is 0xFF: the low byte of each word is converted with its sign
  and its sign bits overwrite the high byte. The memory outside the destination is unchanged.
\<close>

theorem ata_data_roundtrip:
  assumes "feeds dev port (io_log m2) (sent_words port (io_log (ataWrite_loop port k src mem idle_machine)))"
    and "2 * k \<le> 4294967296"
  shows "let mem' = fst (ataRead_loop dev port k dst mem2 m2) in
    ((\<forall>i < 2 * k. mem' (dst + of_nat i) = mem (src + of_nat i)) \<longleftrightarrow>
      (\<forall>j < k. unat (mem (src + of_nat (2 * j))) < 128 \<or> mem (src + of_nat (2 * j + 1)) = 0xFF))
    \<and> (\<forall>x. x \<notin> span dst (2 * k) \<longrightarrow> mem' x = mem2 x)"
proof -
  define ws where "ws = map (\<lambda>i. ata_word mem (src + of_nat (2 * i))) [0..<k]"
  have ws: "sent_words port (io_log (ataWrite_loop port k src mem idle_machine)) = ws" "length ws = k"
    by (simp_all add: ataWrite_loop_log ws_def idle_machine_def)
  have mem': "fst (ataRead_loop dev port k dst mem2 m2)
     = (\<lambda>x. if unat (x - dst) < 2 * k then word_byte ws (unat (x - dst)) else mem2 x)"
    using ataRead_loop_stores [of dev port m2 ws dst mem2] assms ws by simp
  have even: "word_byte ws (2 * j) = mem (src + of_nat (2 * j))"
    and odd: "word_byte ws (2 * j + 1) = (if unat (mem (src + of_nat (2 * j))) < 128 then mem (src + of_nat (2 * j + 1)) else 0xFF)"
    if "j < k" for j
    using that ata_word_bytes [of mem "src + of_nat (2 * j)"] by (simp_all add: word_byte_def ws_def ac_simps high_bit_u8)
  have byte: "fst (ataRead_loop dev port k dst mem2 m2) (dst + of_nat i) = word_byte ws i" if "i < 2 * k" for i
    using that assms(2) unat_of_nat_32 [of i] by (simp add: mem')
  have "(\<forall>i < 2 * k. word_byte ws i = mem (src + of_nat i)) \<longleftrightarrow>
      (\<forall>j < k. unat (mem (src + of_nat (2 * j))) < 128 \<or> mem (src + of_nat (2 * j + 1)) = 0xFF)"
    unfolding all_less_pairs using even odd by (metis (full_types))
  then show ?thesis unfolding Let_def using byte by (simp add: mem' in_span)
qed

text \<open>Two words, of which the second has a low byte with its high bit set.\<close>

definition keeping_device :: "u16 list \<Rightarrow> device" where
  "keeping_device ws = \<lparr>read8 = (\<lambda>_ _. 0), read16 = (\<lambda>log _. ws ! length log), read32 = (\<lambda>_ _. 0)\<rparr>"

theorem ata_data_roundtrip_witness:
  "\<not> (\<forall>i < 4. fst (ataRead_loop (keeping_device [0x4141, 0xFF80]) 0x1F0 2 0x2000 (\<lambda>_. 0) idle_machine) (0x2000 + of_nat i)
      = (if 0x1000 + of_nat i = (0x1002 :: addr) then 0x80 else 0x41))"
proof -
  define mem :: mem where "mem = (\<lambda>a. if a = 0x1002 then 0x80 else 0x41)"
  have "[0..<2] = [0, 1]" by (simp add: upt_rec)
  then have sent: "sent_words 0x1F0 (io_log (ataWrite_loop 0x1F0 2 0x1000 mem idle_machine)) = [0x4141, 0xFF80]"
    unfolding ataWrite_loop_log by (simp add: idle_machine_def mem_def ata_word_def rd16_def Let_def)
  have "feeds (keeping_device [0x4141, 0xFF80]) 0x1F0 (io_log idle_machine)
      (sent_words 0x1F0 (io_log (ataWrite_loop 0x1F0 2 0x1000 mem idle_machine)))"
    unfolding sent by (simp add: keeping_device_def idle_machine_def)
  from ata_data_roundtrip [OF this, of "0x2000" "\<lambda>_. 0"]
  have "(\<forall>i < 4. fst (ataRead_loop (keeping_device [0x4141, 0xFF80]) 0x1F0 2 0x2000 (\<lambda>_. 0) idle_machine) (0x2000 + of_nat i)
      = mem (0x1000 + of_nat i)) \<longleftrightarrow> (\<forall>j < 2. unat (mem (0x1000 + of_nat (2 * j))) < 128 \<or> mem (0x1000 + of_nat (2 * j + 1)) = 0xFF)"
    by (simp add: Let_def)
  moreover have "unat (mem (0x1000 + of_nat (2 * 1))) = 128" "mem (0x1000 + of_nat (2 * 1 + 1)) = 0x41"
    by (simp_all add: mem_def)
  then have "\<not> (\<forall>j < 2. unat (mem (0x1000 + of_nat (2 * j))) < 128 \<or> mem (0x1000 + of_nat (2 * j + 1)) = 0xFF)"
    by (intro notI) (drule spec [of _ 1], simp)
  ultimately show ?thesis unfolding mem_def by blast
qed

text \<open>
  The test for 48-bit addresses looks at bit 0 of a word that has been shifted up by 10, so no drive
  is ever reported to support them.
\<close>

theorem lba48_never_reported: "push_bit 10 (ucast (w :: u16) :: u32) AND 1 = 0"
  by (rule bit_word_eqI) (simp add: bit_simps)

end
