(* ===== verification/Ata_Init.thy ===== *)
theory Ata_Init
  imports Ata_Props
begin

text \<open>
  The initialisation of the disk driver returns when the drives answer without an error, and it
  touches nothing but the ports, the console and the table of drives.
\<close>

section \<open>States that differ in the ports, the console and the drives only\<close>

text \<open>The interrupt flag and the masks of the controllers, which no access to a drive changes.\<close>

definition ints :: "machine \<Rightarrow> bool \<times> u8 option \<times> u8 option" where
  "ints m = (int_flag m, masks m)"

lemma ints_simps [io_simps]:
  "p \<notin> {PIC1_DATA, PIC2_DATA} \<Longrightarrow> ints (outb m p v) = ints m"
  "ints (snd (inb dev m p)) = ints m" "ints (snd (inw dev m p)) = ints m"
  by (simp_all add: ints_def io_simps)

definition beside_ports :: "ata \<Rightarrow> bool \<times> pit \<times> mem \<times> bool \<times> u8 option \<times> u8 option" where
  "beside_ports st = (interrupt_recieved st,
     (ata_pit st)\<lparr>pit_idt := (pit_idt (ata_pit st))\<lparr>cpu := undefined\<rparr>\<rparr>, ata_mem st, ints (ata_cpu st))"

definition ports_only :: "ata \<Rightarrow> ata \<Rightarrow> bool" where
  "ports_only st st' \<longleftrightarrow> beside_ports st' = beside_ports st"

lemma ports_only_refl [simp]: "ports_only st st"
  by (simp add: ports_only_def)

lemma ports_only_trans [trans]: "ports_only a b \<Longrightarrow> ports_only b c \<Longrightarrow> ports_only a c"
  by (simp add: ports_only_def)

lemma ports_only_keeps:
  assumes "ports_only st st'"
  shows "idt_entries (pit_idt (ata_pit st')) = idt_entries (pit_idt (ata_pit st))"
    and "pit_counters (ata_pit st') = pit_counters (ata_pit st)"
    and "pit_initialized (ata_pit st') = pit_initialized (ata_pit st)"
    and "ata_mem st' = ata_mem st" and "int_flag (ata_cpu st') = int_flag (ata_cpu st)"
    and "masks (ata_cpu st') = masks (ata_cpu st)"
  using assms by (cases "ata_pit st", cases "ata_pit st'", cases "pit_idt (ata_pit st)", cases "pit_idt (ata_pit st')",
      simp add: ports_only_def beside_ports_def ints_def)+

lemma ports_only_io: "ints m = ints (ata_cpu st) \<Longrightarrow> ports_only st (ata_io (\<lambda>_. m) st)"
  by (simp add: ports_only_def beside_ports_def ata_cpu_def ata_io_def pit_machine_def)

lemma ports_only_out: "port \<notin> {PIC1_DATA, PIC2_DATA} \<Longrightarrow> ports_only st (ata_out st port v)"
  by (simp add: ports_only_def beside_ports_def ata_out_def ata_cpu_def ata_io_def pit_machine_def io_simps)

lemma ports_only_drives: "ports_only st (st\<lparr>ata_drives := ds\<rparr>)"
  by (simp add: ports_only_def beside_ports_def ata_cpu_def)

lemma ports_only_print:
  assumes "kprintf fmt args = Some line"
  shows "\<exists>st'. ata_print st fmt args = Some st' \<and> ports_only st st'"
  using assms by (simp add: ata_print_def ports_only_def beside_ports_def ata_cpu_def)

lemma poll_until_ints:
  assumes "poll_until dev ready port m = Some r"
  shows "ints (snd r) = ints m"
proof (rule poll_until.raw_induct [where P = "\<lambda>dev ready port m r. ints (snd r) = ints m", OF _ assms])
  fix poll dev ready port m r
  assume IH: "\<And>dev ready port m r. poll dev ready port m = Some r \<Longrightarrow> ints (snd r) = ints m"
    and eq: "(let (s, m1) = inb dev m port in if ready s then Some (s, m1) else poll dev ready port m1) = Some r"
  show "ints (snd r) = ints m"
    using IH [of dev ready port "snd (inb dev m port)" r] eq
    by (auto simp: io_simps case_prod_unfold Let_def split: if_splits)
qed

lemma poll_until_reads:
  assumes "poll_until dev ready port m = Some r"
  shows "\<exists>log. fst r = read8 dev log port"
proof (rule poll_until.raw_induct [where P = "\<lambda>dev ready port m r. \<exists>log. fst r = read8 dev log port", OF _ assms])
  fix poll dev ready port m r
  assume IH: "\<And>dev ready port m r. poll dev ready port m = Some r \<Longrightarrow> \<exists>log. fst r = read8 dev log port"
    and eq: "(let (s, m1) = inb dev m port in if ready s then Some (s, m1) else poll dev ready port m1) = Some r"
  show "\<exists>log. fst r = read8 dev log port"
    using IH [of dev ready port "snd (inb dev m port)" r] eq
    by (auto simp: io_simps case_prod_unfold Let_def split: if_splits)
qed

lemma ports_only_wait:
  assumes "answers dev port ready"
  shows "\<exists>s st'. ata_wait dev ready port st = Some (s, st') \<and> ready s \<and> (\<exists>log. s = read8 dev log port) \<and> ports_only st st'"
proof -
  obtain k where "ready (read8 dev (poll_log dev port (io_log (ata_cpu st)) k) port)"
    using assms by (auto simp: answers_def)
  from poll_until_returns [of ready, OF this] obtain s m where
    p: "poll_until dev ready port (ata_cpu st) = Some (s, m)" "ready s" by blast
  then show ?thesis
    using poll_until_ints [OF p(1)] poll_until_reads [OF p(1)] by (auto simp: ata_wait_def ports_only_io)
qed

lemma read_words_ints: "ints (snd (read_words dev port n m)) = ints m"
  by (induction n arbitrary: m) (auto simp: Let_def case_prod_unfold io_simps)

section \<open>Drives that answer\<close>

text \<open>
  Both drives report through the control port of the first bus: it stops being busy, offers
  data, and never reports an error.
\<close>

definition drives_answer :: "device \<Rightarrow> bool" where
  "drives_answer dev \<longleftrightarrow> answers dev PBUSC (\<lambda>s. \<not> st_busy s)
     \<and> answers dev PBUSC (\<lambda>s. st_data_transfer_requested s \<or> st_error s)
     \<and> (\<forall>log. \<not> st_error (read8 dev log PBUSC))"

text \<open>A result that is defined, and whose state differs from \<open>st\<close> in the ports at most.\<close>

definition settles :: "ata \<Rightarrow> ('a \<Rightarrow> ata) \<Rightarrow> 'a option \<Rightarrow> bool" where
  "settles st get r \<longleftrightarrow> (\<exists>x. r = Some x \<and> ports_only st (get x))"

lemma settles_Some [simp]: "settles st get (Some x) \<longleftrightarrow> ports_only st (get x)"
  by (simp add: settles_def)

lemma settles_bind:
  "settles st get r \<Longrightarrow> (\<And>x. ports_only st (get x) \<Longrightarrow> settles st get' (f x)) \<Longrightarrow> settles st get' (Option.bind r f)"
  by (auto simp: settles_def)

lemma settles_map: "settles st get r \<Longrightarrow> (\<And>x. get' (f x) = get x) \<Longrightarrow> settles st get' (map_option f r)"
  by (auto simp: settles_def)

text \<open>The messages of the driver.\<close>

lemma settles_print:
  assumes "ports_only st st1" and "kvsprintf fmt args = Some (text, True)" and "length fmt + sum_list (map arg_width args) < 1024"
  shows "settles st id (ata_print st1 fmt args)"
  using ports_only_print [OF kprintf_terminated [OF assms(2,3)], of st1] assms(1)
  by (auto simp: settles_def intro: ports_only_trans)

definition plain_message :: "string \<Rightarrow> bool" where
  "plain_message fmt \<longleftrightarrow> CHR ''%'' \<notin> set fmt \<and> length fmt < 1000"

lemma settles_plain: "ports_only st st1 \<Longrightarrow> plain_message fmt \<Longrightarrow> settles st id (ata_print st1 fmt [])"
  by (rule settles_print) (auto simp: plain_message_def kvsprintf_def kvsprintf_loop_plain)

lemma settles_named:
  assumes "ports_only st st1" and "CHR ''%'' \<notin> set pre" and "CHR ''%'' \<notin> set post"
    and "length pre + length post + length name < 1000" and "fmt = pre @ ''%s'' @ post"
  shows "settles st id (ata_print st1 fmt [Va_str name])"
proof (rule settles_print [OF assms(1)])
  have "kvsprintf_loop r (pre @ ''%s'' @ post) [Va_str name] = kvsprintf_loop (r @ pre) (''%s'' @ post) [Va_str name]" for r
    using assms(2) by (induction pre arbitrary: r) auto
  then show "kvsprintf fmt [Va_str name] = Some (pre @ name @ post, True)"
    using assms(3) by (simp add: kvsprintf_def render_string_append kvsprintf_loop_plain assms(5))
qed (use assms(4,5) in simp)

lemma settles_wait:
  assumes "ports_only st st1" and "answers dev port ready"
    and "\<And>s st2. ready s \<Longrightarrow> s \<in> range (\<lambda>log. read8 dev log port) \<Longrightarrow> ports_only st st2 \<Longrightarrow> settles st get (f (s, st2))"
  shows "settles st get (Option.bind (ata_wait dev ready port st1) f)"
proof -
  obtain s st2 where w: "ata_wait dev ready port st1 = Some (s, st2)" "ready s" "s \<in> range (\<lambda>log. read8 dev log port)"
    "ports_only st1 st2"
    using ports_only_wait [OF assms(2), of st1] by auto
  show ?thesis using assms(3) [OF w(2,3) ports_only_trans [OF assms(1) w(4)]] w(1) by simp
qed

text \<open>What a message of the identification names.\<close>

definition drive_name :: "ATA_Drive \<Rightarrow> string" where
  "drive_name drive = (if drive_type drive = PRIMARY then ''Primary'' else ''Secondary'')"

lemma drive_name_length: "length (drive_name drive) < 10"
  by (simp add: drive_name_def)

lemma settles_ata_messages:
  assumes "ports_only st st1"
  shows "settles st id (ata_print st1 ''Error: %s drive does not exist\<newline>'' [Va_str (drive_name d)])"
    and "settles st id (ata_print st1 ''%s bus is ATAPI\<newline>'' [Va_str (drive_name d)])"
    and "settles st id (ata_print st1 ''%s bus is ATA\<newline>'' [Va_str (drive_name d)])"
    and "settles st id (ata_print st1 ''%s supports lba48 mode\<newline>'' [Va_str (drive_name d)])"
    and "settles st id (ata_print st1 ''num_lba28_sectors: 0x%x\<newline>'' [Va_int w])"
  using drive_name_length [of d]
  by (rule_tac settles_named [OF assms, where pre = "''Error: ''" and post = "'' drive does not exist\<newline>''"], simp_all,
      rule_tac settles_named [OF assms, where pre = "[]" and post = "'' bus is ATAPI\<newline>''"], simp_all,
      rule_tac settles_named [OF assms, where pre = "[]" and post = "'' bus is ATA\<newline>''"], simp_all,
      rule_tac settles_named [OF assms, where pre = "[]" and post = "'' supports lba48 mode\<newline>''"], simp_all,
      rule_tac settles_print [OF assms], simp add: kvsprintf_def, simp)

section \<open>Identification and initialisation\<close>

lemma ports_only_steps:
  assumes "ports_only st st1"
  shows "port \<notin> {PIC1_DATA, PIC2_DATA} \<Longrightarrow> ports_only st (ata_out st1 port v)" and "ports_only st (st1\<lparr>ata_drives := ds\<rparr>)"
    and "ints m = ints (ata_cpu st1) \<Longrightarrow> ports_only st (ata_io (\<lambda>_. m) st1)"
  using assms by (auto intro: ports_only_trans ports_only_out ports_only_drives ports_only_io)

lemma ataIdentify_settles:
  assumes "drives_answer dev" and "command_port drive = PBUSC" and "io_port drive \<in> {PBUS, SBUS}" and "ports_only st st0"
  shows "settles st (\<lambda>(b, d, s). s) (ataIdentify dev st0 drive)"
proof -
  have a: "answers dev (command_port drive) (\<lambda>s. \<not> st_busy s)"
    "answers dev (command_port drive) (\<lambda>s. st_data_transfer_requested s \<or> st_error s)"
    "\<And>s. s \<in> range (\<lambda>log. read8 dev log (command_port drive)) \<Longrightarrow> \<not> st_error s"
    using assms(1,2) by (auto simp: drives_answer_def)
  have ports: "io_port drive + ATA_REG_DRIVESELECT \<notin> {PIC1_DATA, PIC2_DATA}" "PBUSC \<notin> {PIC1_DATA, PIC2_DATA}"
    "io_port drive + ATA_REG_SECCOUNT \<notin> {PIC1_DATA, PIC2_DATA}" "io_port drive + ATA_REG_LBALOW \<notin> {PIC1_DATA, PIC2_DATA}"
    "io_port drive + ATA_REG_LBAMID \<notin> {PIC1_DATA, PIC2_DATA}" "io_port drive + ATA_REG_LBAHIGH \<notin> {PIC1_DATA, PIC2_DATA}"
    "io_port drive + ATA_REG_STATUS \<notin> {PIC1_DATA, PIC2_DATA}"
    using assms(3) by (auto simp: PBUS_def SBUS_def PBUSC_def PIC1_DATA_def PIC2_DATA_def ATA_REG_DRIVESELECT_def
        ATA_REG_SECCOUNT_def ATA_REG_LBALOW_def ATA_REG_LBAMID_def ATA_REG_LBAHIGH_def ATA_REG_STATUS_def)
  note steps = ports_only_steps read_words_ints io_simps
  have asked: "ports_only st (ata_out (ata_out (ata_out (ata_out (ata_out (ataSetNoInterrupts
      (ata_out st0 (io_port drive + ATA_REG_DRIVESELECT) 0xA0) drive) (io_port drive + ATA_REG_SECCOUNT) 0)
      (io_port drive + ATA_REG_LBALOW) 0) (io_port drive + ATA_REG_LBAMID) 0) (io_port drive + ATA_REG_LBAHIGH) 0)
      (io_port drive + ATA_REG_STATUS) ATA_CMD_IDENTIFY)"
    unfolding ataSetNoInterrupts_def assms(2)
    by (intro ports_only_steps(1) assms(4) ports)
  show ?thesis
    unfolding ataIdentify_def Let_def case_prod_unfold drive_name_def [symmetric]
    apply (split if_split, intro conjI impI)
    subgoal by (rule settles_map [OF settles_ata_messages(1)]) (simp_all add: steps asked)
    apply (rule settles_wait [OF _ a(1)])
    subgoal by (simp add: steps asked)
    apply (simp only: fst_conv snd_conv)
    apply (split if_split, intro conjI impI)
    subgoal for s9 st9
      apply (rule settles_bind [OF settles_ata_messages(2)])
       apply (simp add: steps)
      apply (rule settles_bind [where get = snd])
       apply (unfold atapiSetup_def)
       apply (rule settles_map [OF settles_plain])
         apply (simp_all add: plain_message_def)
      done
    subgoal for s9 st9
      apply (rule settles_bind [OF settles_ata_messages(3)])
       apply (simp add: steps)
      apply (rule settles_wait [OF _ a(2)])
       apply simp
      apply (simp only: a(3) fst_conv snd_conv if_False)
      apply (rule settles_bind [where get = id])
       apply (auto intro!: settles_ata_messages(4) steps(3) simp: steps)[1]
      apply (rule settles_bind [OF settles_ata_messages(5)])
       apply simp_all
      done
    done
qed

lemma isFloatingBus_ints: "ints (snd (isFloatingBus dev m)) = ints m"
  by (simp add: isFloatingBus_def Let_def case_prod_unfold io_simps)

lemma ideInit_settles:
  assumes "drives_answer dev"
  shows "settles st snd (ideInit dev garbage st)"
proof -
  let ?p = "\<lparr>ata_type = ATA, drive_type = PRIMARY, io_port = PBUS, command_port = PBUSC,
    uses_packets = fst (fst garbage), num_sectors = snd (fst garbage)\<rparr>"
  let ?s = "\<lparr>ata_type = ATA, drive_type = SECONDARY, io_port = SBUS, command_port = PBUSC,
    uses_packets = fst (snd garbage), num_sectors = snd (snd garbage)\<rparr>"
  have port: "command_port ?p = PBUSC" "command_port ?s = PBUSC" "io_port ?p \<in> {PBUS, SBUS}" "io_port ?s \<in> {PBUS, SBUS}"
    by simp_all
  note identify = ataIdentify_settles [OF assms]
  show ?thesis
    unfolding ideInit_def Let_def case_prod_unfold
    apply (split if_split, intro conjI impI)
    subgoal by (rule settles_map [OF settles_plain])
        (simp_all add: plain_message_def ports_only_steps isFloatingBus_ints)
    apply (rule settles_bind [OF identify [OF port(1,3)]])
     apply (simp add: ports_only_steps isFloatingBus_ints)
    apply (rule settles_bind [where get = id])
     apply (auto intro!: settles_plain simp: plain_message_def)[1]
    apply (rule settles_bind [OF identify [OF port(2,4)]])
     apply simp
    apply (rule settles_bind [where get = id])
     apply (auto intro!: settles_plain simp: plain_message_def)[1]
    apply simp
    done
qed

end
