(* ===== verification/Serial.thy ===== *)
theory Serial
  imports Polling Cmem "HOL-Library.Monad_Syntax"
begin

text \<open>
  The serial port (\<open>src/serial.c\<close>): its initialisation and the blocking read, which waits for
  the data-available bit before it takes a byte.
\<close>

section \<open>Registers\<close>

definition COM1 :: u16 where "COM1 = 0x3F8"

definition COM_DATA :: u16 where "COM_DATA = 0"
definition COM_INTERRUPT_ENABLE :: u16 where "COM_INTERRUPT_ENABLE = 1"
definition COM_BAUD_DIVISOR_LSB :: u16 where "COM_BAUD_DIVISOR_LSB = 0"
definition COM_BAUD_DIVISOR_MSB :: u16 where "COM_BAUD_DIVISOR_MSB = 1"
definition COM_LINE_CONTROL :: u16 where "COM_LINE_CONTROL = 3"
definition COM_LINE_STATUS :: u16 where "COM_LINE_STATUS = 5"

definition setRegister :: "machine \<Rightarrow> u16 \<Rightarrow> u16 \<Rightarrow> u8 \<Rightarrow> machine" where
  "setRegister m port reg byte = outb m (port + reg) byte"

definition readRegister :: "device \<Rightarrow> machine \<Rightarrow> u16 \<Rightarrow> u16 \<Rightarrow> u8 \<times> machine" where
  "readRegister dev m port reg = inb dev m (port + reg)"

text \<open>The bit-fields of the line control register, and the byte they are laid out in.\<close>

record Line_Control =
  data_bits :: u8
  stop_bits :: u8
  parity :: u8
  lc_reserved :: u8
  dlab :: u8

definition line_control_byte :: "Line_Control \<Rightarrow> u8" where
  "line_control_byte lc = take_bit 2 (data_bits lc) OR push_bit 2 (take_bit 1 (stop_bits lc))
     OR push_bit 3 (take_bit 3 (parity lc)) OR push_bit 6 (take_bit 1 (lc_reserved lc))
     OR push_bit 7 (take_bit 1 (dlab lc))"

definition serialInit :: "machine \<Rightarrow> machine" where
  "serialInit m =
     (let m1 = setRegister m COM1 COM_INTERRUPT_ENABLE 0;
          line_control = \<lparr>data_bits = 0b11, stop_bits = 0, parity = 0, lc_reserved = 0, dlab = 1\<rparr>;
          m2 = setRegister m1 COM1 COM_LINE_CONTROL (line_control_byte line_control);
          m3 = setRegister m2 COM1 COM_BAUD_DIVISOR_LSB 0x10;
          m4 = setRegister m3 COM1 COM_BAUD_DIVISOR_MSB 0x00
      in setRegister m4 COM1 COM_LINE_CONTROL (line_control_byte (line_control\<lparr>dlab := 0\<rparr>)))"

text \<open>\<open>k\<close> turns of the loop, the next of which stores at \<open>p\<close>.\<close>

fun serialRead_loop :: "device \<Rightarrow> nat \<Rightarrow> addr \<Rightarrow> mem \<Rightarrow> machine \<Rightarrow> (mem \<times> machine) option" where
  "serialRead_loop dev 0 p mem m = Some (mem, m)"
| "serialRead_loop dev (Suc k) p mem m =
     do {
       (status, m1) \<leftarrow> poll_until dev (\<lambda>s. s AND 0x1 \<noteq> 0) (COM1 + COM_LINE_STATUS) m;
       let (byte, m2) = readRegister dev m1 COM1 COM_DATA;
       serialRead_loop dev k (p + 1) (mem(p := byte)) m2
     }"

definition serialRead :: "device \<Rightarrow> addr \<Rightarrow> u32 \<Rightarrow> mem \<Rightarrow> machine \<Rightarrow> (mem \<times> machine) option" where
  "serialRead dev buffer amt mem m = serialRead_loop dev (unat amt) buffer mem m"

section \<open>Bytes taken from the port\<close>

fun received :: "io_event list \<Rightarrow> u8 list" where
  "received [] = []"
| "received (Inb q v # es) = (if q = 0x3F8 then v # received es else received es)"
| "received (e # es) = received es"

text \<open>Every byte is taken right after a status that has its data-available bit set.\<close>

fun taken_ready :: "bool \<Rightarrow> io_event list \<Rightarrow> bool" where
  "taken_ready r [] \<longleftrightarrow> True"
| "taken_ready r (Inb q v # es) =
     (if q = 0x3F8 then r \<and> taken_ready False es else taken_ready (q = 0x3FD \<and> bit v 0) es)"
| "taken_ready r (e # es) = taken_ready False es"

lemma received_append [simp]: "received (xs @ ys) = received xs @ received ys"
  by (induction xs rule: received.induct) simp_all

lemma received_status: "list_all (reads_of 0x3FD) es \<Longrightarrow> received es = []"
  by (induction es) (auto simp: reads_of_def)

lemma taken_ready_status:
  "list_all (reads_of 0x3FD) es \<Longrightarrow> es \<noteq> [] \<Longrightarrow> last es = Inb 0x3FD s \<Longrightarrow>
   taken_ready r (es @ ys) = taken_ready (bit s 0) ys"
proof (induction es arbitrary: r)
  case (Cons e es)
  then obtain v where "e = Inb 0x3FD v" by (auto simp: reads_of_def)
  then show ?case using Cons by (cases es) simp_all
qed simp

lemma serialRead_loop_returns:
  assumes "answers dev 0x3FD (\<lambda>s. s AND 0x1 \<noteq> 0)" and "k \<le> 4294967296"
  shows "\<exists>mem' m' es bytes. serialRead_loop dev k p mem m = Some (mem', m') \<and> io_log m' = io_log m @ es
    \<and> received es = bytes \<and> length bytes = k \<and> (\<forall>r. taken_ready r es)
    \<and> (\<forall>x. mem' x = (if unat (x - p) < k then bytes ! unat (x - p) else mem x))"
  using assms(2)
proof (induction k arbitrary: p mem m)
  case (Suc k)
  obtain j where "read8 dev (poll_log dev 0x3FD (io_log m) j) 0x3FD AND 1 \<noteq> 0" using assms(1) by (auto simp: answers_def)
  from poll_until_returns [of "\<lambda>s. s AND 1 \<noteq> 0", OF this] obtain s m1 es
    where p1: "poll_until dev (\<lambda>s. s AND 1 \<noteq> 0) 0x3FD m = Some (s, m1)" "s AND 1 \<noteq> 0"
      "io_log m1 = io_log m @ es" "list_all (reads_of 0x3FD) es" "es \<noteq> []" "last es = Inb 0x3FD s" by blast
  define b where "b = read8 dev (io_log m1) 0x3F8"
  define m2 where "m2 = snd (inb dev m1 0x3F8)"
  obtain mem' m' fs bytes where ih: "serialRead_loop dev k (p + 1) (mem(p := b)) m2 = Some (mem', m')"
    "io_log m' = io_log m2 @ fs" "received fs = bytes" "length bytes = k" "\<forall>r. taken_ready r fs"
    "\<forall>x. mem' x = (if unat (x - (p + 1)) < k then bytes ! unat (x - (p + 1)) else (mem(p := b)) x)"
    using Suc.IH [of "p + 1" "mem(p := b)" m2] Suc.prems by (metis Suc_leD)
  have run: "serialRead_loop dev (Suc k) p mem m = Some (mem', m')"
    using p1(1) ih(1) by (simp add: COM1_def COM_LINE_STATUS_def COM_DATA_def readRegister_def b_def m2_def
        case_prod_unfold io_simps)
  have log: "io_log m' = io_log m @ (es @ Inb 0x3F8 b # fs)"
    using ih(2) p1(3) by (simp add: m2_def b_def io_simps)
  have "bit s 0" using p1(2) and_lsh1_iff [of s 0] by (simp add: lsh1_def)
  then have ready: "taken_ready r (es @ Inb 0x3F8 b # fs)" for r
    using taken_ready_status [OF p1(4-6)] ih(5) by simp
  have "mem' x = (if unat (x - p) < Suc k then (b # bytes) ! unat (x - p) else mem x)" for x
  proof (cases "x = p")
    case True
    have "unat (- 1 :: u32) = 4294967295" by (rule unat_minus_1_32)
    then show ?thesis using ih(6) True Suc.prems by simp
  next
    case False
    then have "0 < unat (x - p)" by (simp add: unat_gt_0)
    moreover have "unat (x - (p + 1)) = unat (x - p) - 1"
      using unat_sub_nowrap [of 1 "x - p"] calculation by (simp add: algebra_simps Suc_le_eq)
    ultimately show ?thesis using ih(6) False by (auto simp: nth_Cons split: nat.splits)
  qed
  then have "\<forall>x. mem' x = (if unat (x - p) < Suc k then (b # bytes) ! unat (x - p) else mem x)" by blast
  moreover have "received (es @ Inb 0x3F8 b # fs) = b # bytes" "length (b # bytes) = Suc k"
    using ih(3,4) received_status [OF p1(4)] by simp_all
  ultimately show ?case using run log ready by blast
qed auto

section \<open>Property\<close>

text \<open>
  When the port always has data in the end, the blocking read returns, for every amount: it
  has stored exactly the bytes it took from the data register, in order, at the start of the
  buffer and nowhere else, and it took each of them right after reading a status with the
  data-available bit set.
\<close>

theorem serialRead_returns:
  assumes "answers dev (COM1 + COM_LINE_STATUS) (\<lambda>s. s AND 0x1 \<noteq> 0)"
  shows "\<exists>mem' m' es. serialRead dev buffer amt mem m = Some (mem', m') \<and> io_log m' = io_log m @ es
    \<and> length (received es) = unat amt \<and> taken_ready False es
    \<and> (\<forall>i < unat amt. mem' (buffer + of_nat i) = received es ! i)
    \<and> (\<forall>x. x \<notin> span buffer (unat amt) \<longrightarrow> mem' x = mem x)"
proof -
  have "answers dev 0x3FD (\<lambda>s. s AND 0x1 \<noteq> 0)" using assms by (simp add: COM1_def COM_LINE_STATUS_def)
  moreover have amt: "unat amt \<le> 4294967296" using unat_lt_32 [of amt] by simp
  ultimately obtain mem' m' es where r: "serialRead_loop dev (unat amt) buffer mem m = Some (mem', m')"
    "io_log m' = io_log m @ es" "length (received es) = unat amt" "taken_ready False es"
    "\<forall>x. mem' x = (if unat (x - buffer) < unat amt then received es ! unat (x - buffer) else mem x)"
    using serialRead_loop_returns [of dev "unat amt" buffer mem m] by blast
  have "unat ((buffer + of_nat i) - buffer) = i" if "i < unat amt" for i
    using that unat_of_nat_32 [of i] unat_lt_32 [of amt] by simp
  then show ?thesis
    using r by (intro exI [of _ mem'] exI [of _ m'] exI [of _ es]) (simp add: serialRead_def in_span)
qed

theorem serialRead_returns_witness:
  "\<exists>mem' m'. serialRead (constant_device 0x61) 0x5000 2 (\<lambda>_. 0) idle_machine = Some (mem', m')
     \<and> mem' 0x5002 = 0"
proof -
  have "answers (constant_device 0x61) (COM1 + COM_LINE_STATUS) (\<lambda>s. s AND 0x1 \<noteq> 0)"
    by (simp add: answers_def constant_device_def)
  from serialRead_returns [OF this, of "0x5000" 2 "\<lambda>_. 0" idle_machine] show ?thesis
    by (fastforce simp: in_span)
qed

end
