(* ===== verification/Cpuid.thy ===== *)
theory Cpuid
  imports Cmem Kstdio "HOL-Library.Monad_Syntax"
begin

text \<open>
  The processor's identification (\<open>src/cpuid.c\<close>). The registers the \<open>cpuid\<close> instruction
  leaves are read by assembly; they are the parameters \<open>buff\<close> and \<open>features\<close>.
\<close>

section \<open>Model\<close>

record cpuid =
  vendor_id :: "u8 list"
  ecx_features :: u32
  edx_features :: u32
  cpuid_console :: string

lemma drop_bit_8_less: "0 < (w :: u32) \<Longrightarrow> unat (drop_bit 8 w) < unat w"
proof -
  assume "0 < w"
  then have "0 < unat w" by (simp add: word_gt_0 unat_gt_0)
  then have "unat w div 256 < unat w" by (intro div_less_dividend) simp_all
  then show ?thesis by (simp add: drop_bit_eq_div unat_div)
qed

text \<open>\<open>while(buff[j] > 0)\<close>: the bytes of a word, least significant first, until the rest is 0.\<close>

function vendor_loop :: "u32 \<Rightarrow> nat \<Rightarrow> u8 list \<Rightarrow> (nat \<times> u8 list) option" where
  "vendor_loop buff i vendor =
     (if buff > 0 then
        do { vendor' \<leftarrow> update_opt vendor i (ucast (buff AND 0xff)); vendor_loop (drop_bit 8 buff) (i + 1) vendor' }
      else Some (i, vendor))"
  by pat_completeness auto
termination by (relation "measure (\<lambda>(buff, i, vendor). unat buff)") (auto intro: drop_bit_8_less)

declare vendor_loop.simps [simp del]

definition fetchCpuid :: "u32 \<times> u32 \<times> u32 \<Rightarrow> cpuid \<Rightarrow> (bool \<times> cpuid) option" where
  "fetchCpuid buff st =
     do {
       (i1, v1) \<leftarrow> vendor_loop (fst buff) 0 (vendor_id st);
       (i2, v2) \<leftarrow> vendor_loop (fst (snd buff)) i1 v1;
       (i3, v3) \<leftarrow> vendor_loop (snd (snd buff)) i2 v2;
       v4 \<leftarrow> update_opt v3 12 0;
       Some (True, st\<lparr>vendor_id := v4\<rparr>)
     }"

definition cpuid_print :: "cpuid \<Rightarrow> string \<Rightarrow> va_arg list \<Rightarrow> cpuid option" where
  "cpuid_print st fmt args = map_option (\<lambda>line. st\<lparr>cpuid_console := cpuid_console st @ line\<rparr>) (kprintf fmt args)"

definition loadCpuid :: "u32 \<Rightarrow> u32 \<times> u32 \<times> u32 \<Rightarrow> u32 \<times> u32 \<Rightarrow> cpuid \<Rightarrow> cpuid option" where
  "loadCpuid available buff features st =
     (if available = 0 then cpuid_print st ''Unable to load CPUID (not available)'' []
      else do {
        (b, st1) \<leftarrow> fetchCpuid buff st;
        let st2 = st1\<lparr>ecx_features := fst features, edx_features := snd features\<rparr>;
        (if edx_features st2 AND lsh1 9 \<noteq> 0 then cpuid_print st2 ''Has Built in APIC!\<newline>'' []
         else cpuid_print st2 ''No APIC found :(\<newline>'' [])
      })"

text \<open>The vendor string is itself the format of the second message.\<close>

definition cpuidPrintVendor :: "u32 \<times> u32 \<times> u32 \<Rightarrow> cpuid \<Rightarrow> cpuid option" where
  "cpuidPrintVendor buff st =
     do {
       (b, st1) \<leftarrow> fetchCpuid buff st;
       (if b then do {
          st2 \<leftarrow> cpuid_print st1 ''vendor id: '' [];
          st3 \<leftarrow> cpuid_print st2 (map (\<lambda>c. char_of (unat c)) (takeWhile (\<lambda>c. c \<noteq> 0) (vendor_id st1))) [];
          cpuid_print st3 ''\<newline>'' []
        } else cpuid_print st1 ''CPUID not available :(\<newline>'' [])
     }"

section \<open>The bytes of a word\<close>

function low_bytes :: "u32 \<Rightarrow> u8 list" where
  "low_bytes w = (if 0 < w then ucast w # low_bytes (drop_bit 8 w) else [])"
  by pat_completeness auto
termination by (relation "measure unat") (auto intro: drop_bit_8_less)

declare low_bytes.simps [simp del]

lemma low_bytes_0 [simp]: "low_bytes 0 = []"
  by (subst low_bytes.simps) simp

lemma ucast_low_byte: "ucast (w AND 0xff) = (ucast (w :: u32) :: u8)"
proof -
  have m: "(0xff :: u32) = mask 8" by (simp add: mask_eq_exp_minus_1)
  show ?thesis unfolding m by (rule bit_word_eqI) (auto simp: bit_simps)
qed

lemma vendor_loop_stores:
  "i + length (low_bytes w) \<le> length v \<Longrightarrow>
   vendor_loop w i v = Some (i + length (low_bytes w), take i v @ low_bytes w @ drop (i + length (low_bytes w)) v)"
proof (induction w i v rule: vendor_loop.induct)
  case (1 w i v)
  show ?case
  proof (cases "0 < w")
    case True
    have lb: "low_bytes w = ucast w # low_bytes (drop_bit 8 w)" using True by (subst low_bytes.simps) simp
    have i: "i < length v" using 1(2) by (simp add: lb)
    let ?v = "v[i := ucast w]"
    have "vendor_loop w i v = vendor_loop (drop_bit 8 w) (i + 1) ?v"
      using True i by (subst vendor_loop.simps) (simp add: ucast_low_byte)
    also have "\<dots> = Some (i + 1 + length (low_bytes (drop_bit 8 w)),
        take (i + 1) ?v @ low_bytes (drop_bit 8 w) @ drop (i + 1 + length (low_bytes (drop_bit 8 w))) ?v)"
      using 1 True i by (simp add: lb ucast_low_byte)
    finally show ?thesis using i by (simp add: lb take_Suc_conv_app_nth)
  next
    case False
    then have "w = 0" using word_gt_0 [of w] by blast
    then show ?thesis by (subst vendor_loop.simps) simp
  qed
qed

lemma drop_bit_24_8: "drop_bit 8 (drop_bit 24 (w :: u32)) = 0"
  by (rule bit_word_eqI) (auto simp: bit_simps)

lemma low_bytes_length: "length (low_bytes w) \<le> 4"
proof -
  have s: "length (low_bytes w) \<le> Suc (length (low_bytes (drop_bit 8 w)))" for w
    by (subst low_bytes.simps) simp
  show ?thesis
    using s [of w] s [of "drop_bit 8 w"] s [of "drop_bit 16 w"] s [of "drop_bit 24 w"] drop_bit_24_8 [of w]
    by simp
qed

lemma low_bytes_full:
  assumes "drop_bit 24 w \<noteq> 0"
  shows "low_bytes w = [ucast w, ucast (drop_bit 8 w), ucast (drop_bit 16 w), ucast (drop_bit 24 w)]"
proof -
  have nz: "0 < drop_bit n w" if "n \<le> 24" for n
  proof -
    have "drop_bit 24 w = drop_bit (24 - n) (drop_bit n w)" using that by simp
    then show ?thesis using assms by (metis drop_bit_of_0 word_gt_0)
  qed
  have s: "0 < w \<Longrightarrow> low_bytes w = ucast w # low_bytes (drop_bit 8 w)" for w by (subst low_bytes.simps) simp
  show ?thesis
    using s [of w] s [of "drop_bit 8 w"] s [of "drop_bit 16 w"] s [of "drop_bit 24 w"] nz [of 0] nz [of 8]
      nz [of 16] nz [of 24] drop_bit_24_8 [of w]
    by simp
qed

lemma fetchCpuid_stores:
  assumes "length (vendor_id st) = 13"
  shows "let name = low_bytes ebx @ low_bytes edx @ low_bytes ecx in length name \<le> 12
    \<and> fetchCpuid (ebx, edx, ecx) st = Some (True, st\<lparr>vendor_id := (name @ drop (length name) (vendor_id st))[12 := 0]\<rparr>)"
proof -
  let ?a = "low_bytes ebx" and ?b = "low_bytes edx" and ?c = "low_bytes ecx" and ?v = "vendor_id st"
  note len = low_bytes_length [of ebx] low_bytes_length [of edx] low_bytes_length [of ecx]
  let ?v1 = "?a @ drop (length ?a) ?v"
  let ?v2 = "?a @ ?b @ drop (length ?a + length ?b) ?v"
  let ?v3 = "?a @ ?b @ ?c @ drop (length ?a + length ?b + length ?c) ?v"
  have 1: "vendor_loop ebx 0 ?v = Some (length ?a, ?v1)"
    using vendor_loop_stores [of 0 ebx ?v] len assms by simp
  have 2: "vendor_loop edx (length ?a) ?v1 = Some (length ?a + length ?b, ?v2)"
    using vendor_loop_stores [of "length ?a" edx ?v1] len assms by (simp add: add.commute)
  have 3: "vendor_loop ecx (length ?a + length ?b) ?v2 = Some (length ?a + length ?b + length ?c, ?v3)"
    using vendor_loop_stores [of "length ?a + length ?b" ecx ?v2] len assms by (simp add: add.commute)
  have "fetchCpuid (ebx, edx, ecx) st = Some (True, st\<lparr>vendor_id := ?v3[12 := 0]\<rparr>)"
    using assms len by (simp add: fetchCpuid_def 1 2 3)
  then show ?thesis using len by (simp add: Let_def add.assoc)
qed

section \<open>Property\<close>

text \<open>
  The vendor string is at most 12 bytes and never overruns its 13: it is the bytes of the
  three registers in turn, least significant first, each without its zero high bytes, followed
  by what was there before and a final NUL. For registers without a zero high byte the first
  twelve bytes are the registers exactly: read back as little-endian words they give the three
  values.
\<close>

theorem cpuid_vendor:
  assumes "length (vendor_id st) = 13"
  shows "\<exists>st'. fetchCpuid (ebx, edx, ecx) st = Some (True, st')
    \<and> (let name = low_bytes ebx @ low_bytes edx @ low_bytes ecx in
        length name \<le> 12 \<and> vendor_id st' = (name @ drop (length name) (vendor_id st))[12 := 0])
    \<and> (drop_bit 24 ebx \<noteq> 0 \<and> drop_bit 24 edx \<noteq> 0 \<and> drop_bit 24 ecx \<noteq> 0 \<longrightarrow>
        map (rd32 (\<lambda>a. vendor_id st' ! unat a)) [0, 4, 8] = [ebx, edx, ecx])"
proof -
  let ?name = "low_bytes ebx @ low_bytes edx @ low_bytes ecx"
  let ?v3 = "?name @ drop (length ?name) (vendor_id st)"
  note run = fetchCpuid_stores [OF assms, of ebx edx ecx, unfolded Let_def]
  have words: "map (rd32 (\<lambda>a. ?v3[12 := 0] ! unat a)) [0, 4, 8] = [ebx, edx, ecx]"
    if "drop_bit 24 ebx \<noteq> 0" "drop_bit 24 edx \<noteq> 0" "drop_bit 24 ecx \<noteq> 0"
  proof -
    have r: "ucast (ucast w :: u8) OR push_bit 8 (ucast (ucast (drop_bit 8 w) :: u8))
        OR push_bit 16 (ucast (ucast (drop_bit 16 w) :: u8)) OR push_bit 24 (ucast (ucast (drop_bit 24 w) :: u8)) = w" for w :: u32
      using rd32_wr32 [of "\<lambda>_. 0" 0 w] by (simp add: rd32_def wr32_def)
    show ?thesis
      using that by (simp add: low_bytes_full rd32_def r nth_Cons')
  qed
  show ?thesis using run words by (auto simp: Let_def)
qed

theorem cpuid_vendor_witness:
  "\<exists>st'. fetchCpuid (0x756e6547, 0x49656e69, 0x6c65746e)
      \<lparr>vendor_id = replicate 13 0, ecx_features = 0, edx_features = 0, cpuid_console = []\<rparr> = Some (True, st')
     \<and> rd32 (\<lambda>a. vendor_id st' ! unat a) 4 = 0x49656e69"
  using cpuid_vendor [of "\<lparr>vendor_id = replicate 13 0, ecx_features = 0, edx_features = 0, cpuid_console = []\<rparr>"
      "0x756e6547" "0x49656e69" "0x6c65746e"]
  by auto

end
