(* ===== verification/Kernel.thy ===== *)
theory Kernel
  imports Kheap_Props Memory_Map Syscall Gdt_Props Timer_Props Tio_Props Ata_Init Serial Cpuid
begin

text \<open>
  The kernel's entry (\<open>src/kernel.c\<close>): \<open>kernelMain\<close>, which brings up every part in turn and
  enters ring 3, and \<open>testRealloc\<close>. In the file a comment that line 46 opens by accident ends
  only in line 60; the model is \<open>kernelMain\<close> as its lines read without that comment. The parts
  share one processor (the log of port operations is handed from part to part) and one memory.
  What the boot loader, the linker, the assembly and the hardware supply is the record
  \<open>platform\<close>. What \<open>kernelMain\<close> prints itself is in \<open>k_console\<close>, what a part prints in that part.
\<close>

section \<open>State\<close>

record kernel =
  k_tio :: tio
  k_gdt :: gdt_state
  k_paging :: paging
  k_heap :: kheap
  k_cpuid :: cpuid
  k_ata :: ata \<comment> \<open>the drives, and in it the timer and the interrupt table\<close>
  k_console :: string
  k_user :: "u32 option" \<comment> \<open>the function ring 3 was entered with\<close>

record platform =
  symbol_addr :: "isr \<Rightarrow> u32"
  syscall_isr :: u32
  idt_table :: u32
  gdt_table :: u32
  tss_table :: u32
  kernel_stack_top :: u32
  sgdt :: "gdt_state \<Rightarrow> u16 \<times> u32"
  cpuid_available :: u32
  cpuid_vendor_regs :: "u32 \<times> u32 \<times> u32"
  cpuid_feature_regs :: "u32 \<times> u32"
  hardware :: device
  ide_stack :: "(bool \<times> u32) \<times> (bool \<times> u32)"
  user_mode_func_test :: u32
  jump_to_ring3 :: u32

datatype kernel_halt = Memory_halt page_panic | Gdt_halt

type_synonym kernel_result = "(kernel_halt + kernel) option"

text \<open>Going on after a step that may have stopped the machine.\<close>

definition and_then :: "kernel_result \<Rightarrow> (kernel \<Rightarrow> kernel_result) \<Rightarrow> kernel_result" where
  "and_then r f = (case r of None \<Rightarrow> None | Some (Inl e) \<Rightarrow> Some (Inl e) | Some (Inr k) \<Rightarrow> f k)"

section \<open>The parts on the shared processor and memory\<close>

definition k_machine :: "kernel \<Rightarrow> machine" where "k_machine k = ata_cpu (k_ata k)"

definition k_idt :: "kernel \<Rightarrow> idt" where "k_idt k = pit_idt (ata_pit (k_ata k))"

definition set_pit :: "kernel \<Rightarrow> pit \<Rightarrow> kernel" where
  "set_pit k p = k\<lparr>k_ata := (k_ata k)\<lparr>ata_pit := p\<rparr>\<rparr>"

definition set_idt :: "kernel \<Rightarrow> idt \<Rightarrow> kernel" where
  "set_idt k i = set_pit k ((ata_pit (k_ata k))\<lparr>pit_idt := i\<rparr>)"

definition set_machine :: "kernel \<Rightarrow> machine \<Rightarrow> kernel" where
  "set_machine k m = k\<lparr>k_ata := ata_io (\<lambda>_. m) (k_ata k)\<rparr>"

definition kernel_print :: "string \<Rightarrow> va_arg list \<Rightarrow> kernel \<Rightarrow> kernel_result" where
  "kernel_print fmt args k = map_option (\<lambda>line. Inr (k\<lparr>k_console := k_console k @ line\<rparr>)) (kprintf fmt args)"

definition on_idt :: "(idt \<Rightarrow> idt option) \<Rightarrow> kernel \<Rightarrow> kernel_result" where
  "on_idt f k = map_option (\<lambda>i. Inr (set_idt k i)) (f (k_idt k))"

definition on_pit :: "(pit \<Rightarrow> pit option) \<Rightarrow> kernel \<Rightarrow> kernel_result" where
  "on_pit f k = map_option (\<lambda>p. Inr (set_pit k p)) (f (ata_pit (k_ata k)))"

definition on_gdt :: "(gdt_state \<Rightarrow> (gdt_state + gdt_state) option) \<Rightarrow> kernel \<Rightarrow> kernel_result" where
  "on_gdt f k = map_option (map_sum (\<lambda>_. Gdt_halt) (\<lambda>g. set_machine (k\<lparr>k_gdt := g\<rparr>) (gdt_cpu g)))
     (f ((k_gdt k)\<lparr>gdt_cpu := k_machine k\<rparr>))"

definition on_paging :: "(paging \<Rightarrow> (page_panic + paging) option) \<Rightarrow> kernel \<Rightarrow> kernel_result" where
  "on_paging f k = map_option (map_sum Memory_halt (\<lambda>p. k\<lparr>k_paging := p\<rparr>)) (f (k_paging k))"

definition on_cpuid :: "(cpuid \<Rightarrow> cpuid option) \<Rightarrow> kernel \<Rightarrow> kernel_result" where
  "on_cpuid f k = map_option (\<lambda>c. Inr (k\<lparr>k_cpuid := c\<rparr>)) (f (k_cpuid k))"

definition on_ata :: "(ata \<Rightarrow> (bool \<times> ata) option) \<Rightarrow> kernel \<Rightarrow> kernel_result" where
  "on_ata f k = map_option (\<lambda>(_, a). Inr (k\<lparr>k_ata := a, k_heap := (k_heap k)\<lparr>ram := ata_mem a\<rparr>\<rparr>))
     (f ((k_ata k)\<lparr>ata_mem := ram (k_heap k)\<rparr>))"

text \<open>
  An access to memory with paging on: the processor raises a page fault, which the gate of
  vector 14 hands to \<open>handle_page_fault\<close>, when the directory has no entry for the page.
\<close>

definition touch :: "addr \<Rightarrow> kernel \<Rightarrow> kernel_result" where
  "touch a k =
     (if paging_enabled (k_paging k) \<and> directory_map (page_directory (k_paging k)) (unat a div 2 ^ 22) = None
      then on_paging (\<lambda>p. handle_page_fault p a) k else Some (Inr k))"

section \<open>\<open>kernelMain\<close>\<close>

text \<open>The terminal, the tables and the timer.\<close>

definition boot_tables :: "platform \<Rightarrow> kernel \<Rightarrow> kernel_result" where
  "boot_tables P k =
     and_then (kernel_print ''Setting up the IDT\<newline>'' [] (k\<lparr>k_tio := tio_init (k_tio k)\<rparr>)) (\<lambda>k.
     and_then (on_idt (idtInit (symbol_addr P) (idt_table P)) k) (\<lambda>k.
     and_then (kernel_print ''Setting up GDT\<newline>'' [] k) (\<lambda>k.
     and_then (on_gdt (gdtInit (sgdt P) (gdt_table P) (tss_table P) (kernel_stack_top P)) k) (\<lambda>k.
     and_then (kernel_print ''Initializing PIT Timer\<newline>'' [] k)
       (on_pit (initPITTimer (symbol_addr P)))))))"

text \<open>Memory, the system call gate and the heap, whose first byte is touched first.\<close>

definition boot_memory :: "platform \<Rightarrow> addr \<Rightarrow> kernel \<Rightarrow> kernel_result" where
  "boot_memory P multiboot_info k =
     and_then (on_paging (loadPhysicalMemoryRegionDescriptors (ram (k_heap k)) multiboot_info) k) (\<lambda>k.
     and_then (on_paging setupPaging k) (\<lambda>k.
     and_then (on_idt (syscalls_init (syscall_isr P)) k) (\<lambda>k.
     and_then (touch KHEAP_START k) (\<lambda>k. Some (Inr (k\<lparr>k_heap := kheapInit (k_heap k)\<rparr>))))))"

text \<open>The processor's identification, the serial port, the drives and ring 3.\<close>

definition boot_devices :: "platform \<Rightarrow> kernel \<Rightarrow> kernel_result" where
  "boot_devices P k =
     and_then (on_cpuid (loadCpuid (cpuid_available P) (cpuid_vendor_regs P) (cpuid_feature_regs P)) k) (\<lambda>k.
     and_then (on_cpuid (cpuidPrintVendor (cpuid_vendor_regs P)) k) (\<lambda>k.
     and_then (kernel_print ''user_mode_func_test: 0x%x\<newline>'' [Va_int (user_mode_func_test P)]
        (set_machine k (serialInit (k_machine k)))) (\<lambda>k.
     and_then (kernel_print ''jump_to_ring3: 0x%x\<newline>'' [Va_int (jump_to_ring3 P)] k) (\<lambda>k.
     and_then (on_ata (ideInit (hardware P) (ide_stack P)) k) (\<lambda>k.
       Some (Inr (k\<lparr>k_user := Some (user_mode_func_test P)\<rparr>)))))))"

definition MULTIBOOT_MAGIC :: u32 where "MULTIBOOT_MAGIC = 0x2BADB002"

definition kernelMain :: "platform \<Rightarrow> addr \<Rightarrow> u32 \<Rightarrow> kernel \<Rightarrow> kernel_result" where
  "kernelMain P multiboot_info magic k =
     (if magic \<noteq> MULTIBOOT_MAGIC then Some (Inr k)
      else and_then (boot_tables P k) (\<lambda>k. and_then (boot_memory P multiboot_info k) (boot_devices P)))"

section \<open>\<open>testRealloc\<close>\<close>

definition heap_print :: "kheap \<Rightarrow> string \<Rightarrow> kheap option" where
  "heap_print h fmt = map_option (\<lambda>line. h\<lparr>console := console h @ line\<rparr>) (kprintf fmt [])"

text \<open>\<open>change\<close> is an \<open>int\<close>; \<open>100 + change\<close> becomes a \<open>size_t\<close>.\<close>

definition testRealloc :: "u32 \<Rightarrow> kheap \<Rightarrow> kheap kresult" where
  "testRealloc change h =
     (case kheapAlloc h 100 of
        None \<Rightarrow> None
      | Some (Inl e) \<Rightarrow> Some (Inl e)
      | Some (Inr (ptr, h1)) \<Rightarrow>
          Option.bind (heap_print h1 ''  = BEFORE =\<newline>'') (\<lambda>h2.
          Option.bind (kheapDump h2) (\<lambda>h3.
            case kheapRealloc h3 ptr (100 + change) of
              None \<Rightarrow> None
            | Some (Inl e) \<Rightarrow> Some (Inl e)
            | Some (Inr (ptr', h4)) \<Rightarrow>
                Option.bind (heap_print h4 ''  = AFTER =\<newline>'') (\<lambda>h5.
                Option.bind (kheapDump h5) (\<lambda>h6. kheapFree h6 ptr')))))"

end
