(* ===== verification/Kernel_Props.thy ===== *)
theory Kernel_Props
  imports Kernel
begin

text \<open>
  The kernel's entry brings every part into the state its own theory describes, and the parts do
  not disturb each other: what each stage needs, what it leaves, and the whole of \<open>kernelMain\<close>.
\<close>

section \<open>Steps\<close>

lemma and_then_simps [simp]:
  "and_then None f = None" "and_then (Some (Inl e)) f = Some (Inl e)" "and_then (Some (Inr k)) f = f k"
  by (simp_all add: and_then_def)

lemma k_simps [simp]:
  "k_idt (set_idt k i) = i" "k_machine (set_idt k i) = cpu i" "k_idt (set_pit k p) = pit_idt p"
  "ata_pit (k_ata (set_idt k i)) = (ata_pit (k_ata k))\<lparr>pit_idt := i\<rparr>" "ata_pit (k_ata (set_pit k p)) = p"
  "k_machine (set_pit k p) = cpu (pit_idt p)" "k_machine (set_machine k m) = m"
  "k_idt (set_machine k m) = (k_idt k)\<lparr>cpu := m\<rparr>"
  by (simp_all add: k_idt_def k_machine_def set_idt_def set_pit_def set_machine_def ata_cpu_def ata_io_def pit_machine_def)

text \<open>What the accesses to one part leave of the others.\<close>

lemma k_others [simp]:
  "k_gdt (set_pit k p) = k_gdt k" "k_paging (set_pit k p) = k_paging k" "k_heap (set_pit k p) = k_heap k"
  "k_cpuid (set_pit k p) = k_cpuid k" "k_tio (set_pit k p) = k_tio k" "k_user (set_pit k p) = k_user k"
  "k_gdt (set_idt k i) = k_gdt k" "k_paging (set_idt k i) = k_paging k" "k_heap (set_idt k i) = k_heap k"
  "k_cpuid (set_idt k i) = k_cpuid k" "k_tio (set_idt k i) = k_tio k" "k_user (set_idt k i) = k_user k"
  "k_gdt (set_machine k m) = k_gdt k" "k_paging (set_machine k m) = k_paging k" "k_heap (set_machine k m) = k_heap k"
  "k_cpuid (set_machine k m) = k_cpuid k" "k_tio (set_machine k m) = k_tio k" "k_user (set_machine k m) = k_user k"
  by (simp_all add: set_idt_def set_pit_def set_machine_def)

lemma k_updates [simp]:
  "k_idt (k\<lparr>k_gdt := g\<rparr>) = k_idt k" "k_idt (k\<lparr>k_paging := q\<rparr>) = k_idt k" "k_idt (k\<lparr>k_heap := h\<rparr>) = k_idt k"
  "k_idt (k\<lparr>k_cpuid := c\<rparr>) = k_idt k" "k_idt (k\<lparr>k_console := s\<rparr>) = k_idt k" "k_idt (k\<lparr>k_tio := t\<rparr>) = k_idt k"
  "k_idt (k\<lparr>k_user := u\<rparr>) = k_idt k"
  "k_machine (k\<lparr>k_gdt := g\<rparr>) = k_machine k" "k_machine (k\<lparr>k_paging := q\<rparr>) = k_machine k"
  "k_machine (k\<lparr>k_heap := h\<rparr>) = k_machine k" "k_machine (k\<lparr>k_cpuid := c\<rparr>) = k_machine k"
  "k_machine (k\<lparr>k_console := s\<rparr>) = k_machine k" "k_machine (k\<lparr>k_tio := t\<rparr>) = k_machine k"
  "k_machine (k\<lparr>k_user := u\<rparr>) = k_machine k"
  by (simp_all add: k_idt_def k_machine_def)

lemma kernel_print_plain:
  assumes "plain_message fmt"
  shows "\<exists>line. kernel_print fmt [] k = Some (Inr (k\<lparr>k_console := k_console k @ line\<rparr>))"
  using kprintf_terminated [of fmt "[]"] assms
  by (auto simp: kernel_print_def plain_message_def kvsprintf_def kvsprintf_loop_plain)

lemma plain_messages:
  "plain_message ''Setting up the IDT\<newline>''" "plain_message ''Setting up GDT\<newline>''"
  "plain_message ''Initializing PIT Timer\<newline>''"
  by (simp_all add: plain_message_def)

section \<open>The tables and the timer\<close>

definition tables_set_up :: "platform \<Rightarrow> kernel \<Rightarrow> bool" where
  "tables_set_up P k \<longleftrightarrow> length (idt_entries (k_idt k)) = 256
     \<and> (\<forall>v < 256. idt_entries (k_idt k) ! v =
          (if v = 0x20 then make_gate (symbol_addr P PITIRQHandler_fn) 0 INTERRUPT_GATE_32
           else case boot_gate v of None \<Rightarrow> zero_entry | Some (f, g) \<Rightarrow> make_gate (symbol_addr P f) 0 g))
     \<and> pit_ok (ata_pit (k_ata k)) \<and> int_flag (k_machine k) \<and> boot_masks (k_machine k)"

definition segments_set_up :: "platform \<Rightarrow> gdt_state \<Rightarrow> bool" where
  "segments_set_up P g \<longleftrightarrow> encode_gdt (GDT g ! 0) = 0
     \<and> flat_segment (encode_gdt (GDT g ! 1)) True 0 \<and> flat_segment (encode_gdt (GDT g ! 2)) False 0
     \<and> flat_segment (encode_gdt (GDT g ! 3)) True 3 \<and> flat_segment (encode_gdt (GDT g ! 4)) False 3
     \<and> desc_base (encode_gdt (GDT g ! 5)) = tss_table P
     \<and> esp0 (tss_entry g) = kernel_stack_top P \<and> ss0 (tss_entry g) = 0x10"

lemma masks_two:
  "io_log m' = io_log m @ [Lgdt l a, Ltr q] \<Longrightarrow> masks m' = masks m"
  using last_outb_snoc [of "io_log m @ [Lgdt l a]" "Ltr q"] by (simp add: masks_def last_outb_snoc)

lemma initPITTimer_installs:
  assumes "length (idt_entries (pit_idt p)) = 256" and "length (pit_counters p) = 50" and "\<not> pit_initialized p"
  shows "\<exists>p'. initPITTimer sa p = Some p' \<and> pit_ok p' \<and> int_flag (cpu (pit_idt p'))
    \<and> masks (cpu (pit_idt p')) = masks (cpu (pit_idt p))
    \<and> idt_entries (pit_idt p') = (idt_entries (pit_idt p))[0x20 := make_gate (sa PITIRQHandler_fn) 0 INTERRUPT_GATE_32]"
  using assms
  by (simp add: initPITTimer_def Let_def pit_machine_def idt_add_isr_def addIsrToIdt_def idtLoad_def pit_ok_def
      INTERRUPT_GATE_32_def io_simps PIT_COMMAND_REG_def PIT_CHANNEL_0_DATA_def PIC1_DATA_def PIC2_DATA_def)

lemma boot_tables_sets_up:
  assumes "length (idt_entries (k_idt k)) = 256" and "length (GDT (k_gdt k)) = 6"
    and "length (pit_counters (ata_pit (k_ata k))) = 50" and "\<not> pit_initialized (ata_pit (k_ata k))"
    and "\<And>g. sgdt P g = (gp_limit g, gp_base g)"
  shows "\<exists>k'. boot_tables P k = Some (Inr k') \<and> tables_set_up P k' \<and> segments_set_up P (k_gdt k')
    \<and> k_tio k' = tio_init (k_tio k) \<and> k_paging k' = k_paging k \<and> k_heap k' = k_heap k \<and> k_cpuid k' = k_cpuid k"
proof -
  let ?k0 = "k\<lparr>k_tio := tio_init (k_tio k)\<rparr>"
  obtain l1 where p1: "kernel_print ''Setting up the IDT\<newline>'' [] ?k0 = Some (Inr (?k0\<lparr>k_console := k_console ?k0 @ l1\<rparr>))"
    using kernel_print_plain [OF plain_messages(1)] by blast
  define k1 where "k1 = ?k0\<lparr>k_console := k_console ?k0 @ l1\<rparr>"
  obtain i where i: "idtInit (symbol_addr P) (idt_table P) (k_idt k1) = Some i" "length (idt_entries i) = 256"
    "\<forall>v < 256. idt_entries i ! v = (case boot_gate v of None \<Rightarrow> zero_entry | Some (f, g) \<Rightarrow> make_gate (symbol_addr P f) 0 g)"
    "boot_masks (cpu i)"
    using idtInit_table [of "k_idt k1" "symbol_addr P" "idt_table P"] assms(1) boot_masks_log by (auto simp: k1_def)
  define k2 where "k2 = set_idt k1 i"
  obtain l2 where p2: "kernel_print ''Setting up GDT\<newline>'' [] k2 = Some (Inr (k2\<lparr>k_console := k_console k2 @ l2\<rparr>))"
    using kernel_print_plain [OF plain_messages(2)] by blast
  define k3 where "k3 = k2\<lparr>k_console := k_console k2 @ l2\<rparr>"
  have "length (GDT ((k_gdt k3)\<lparr>gdt_cpu := k_machine k3\<rparr>)) = 6"
    using assms(2) by (simp add: k3_def k2_def k1_def)
  from gdtInit_loads [OF this, of "sgdt P" "gdt_table P" "tss_table P" "kernel_stack_top P"] obtain g where
    g: "gdtInit (sgdt P) (gdt_table P) (tss_table P) (kernel_stack_top P) ((k_gdt k3)\<lparr>gdt_cpu := k_machine k3\<rparr>) = Some (Inr g)"
    "segments_set_up P g" "masks (gdt_cpu g) = masks (k_machine k3)"
    by (auto simp: assms(5) segments_set_up_def masks_two)
  define k4 where "k4 = set_machine (k3\<lparr>k_gdt := g\<rparr>) (gdt_cpu g)"
  obtain l3 where p3: "kernel_print ''Initializing PIT Timer\<newline>'' [] k4 = Some (Inr (k4\<lparr>k_console := k_console k4 @ l3\<rparr>))"
    using kernel_print_plain [OF plain_messages(3)] by blast
  define k5 where "k5 = k4\<lparr>k_console := k_console k4 @ l3\<rparr>"
  have idt5: "k_idt k5 = i\<lparr>cpu := gdt_cpu g\<rparr>"
    by (simp add: k5_def k4_def k3_def k2_def)
  have pit5: "length (idt_entries (pit_idt (ata_pit (k_ata k5)))) = 256"
    "length (pit_counters (ata_pit (k_ata k5))) = 50" "\<not> pit_initialized (ata_pit (k_ata k5))"
    using idt5 i(2) assms(3,4)
    by (simp_all add: k_idt_def)
      (simp_all add: k5_def k4_def k3_def k2_def k1_def set_machine_def ata_io_def pit_machine_def set_idt_def set_pit_def)
  obtain p where p: "initPITTimer (symbol_addr P) (ata_pit (k_ata k5)) = Some p" "pit_ok p" "int_flag (cpu (pit_idt p))"
    "masks (cpu (pit_idt p)) = masks (gdt_cpu g)" "idt_entries (pit_idt p) = (idt_entries i)[0x20 := make_gate (symbol_addr P PITIRQHandler_fn) 0 INTERRUPT_GATE_32]"
    using initPITTimer_installs [OF pit5, of "symbol_addr P"] idt5 by (auto simp: k_idt_def)
  have "boot_tables P k = Some (Inr (set_pit k5 p))"
    by (simp only: boot_tables_def p1 [folded k1_def] on_idt_def i(1) k2_def [symmetric] p2 [folded k3_def]
        on_gdt_def g(1) k4_def [symmetric] p3 [folded k5_def] on_pit_def p(1) and_then_simps option.map map_sum.simps)
  moreover have "boot_masks (cpu (pit_idt p))"
    using p(4) g(3) i(4) by (simp add: boot_masks_def k3_def k2_def)
  then have "tables_set_up P (set_pit k5 p)"
    using p i(2,3) by (simp add: tables_set_up_def nth_list_update)
  ultimately show ?thesis using g(2)
    by (intro exI [of _ "set_pit k5 p"]) (simp add: k5_def k4_def k3_def k2_def k1_def)
qed

section \<open>Memory\<close>

lemma on_paging_simps [simp]:
  "f (k_paging k) = Some (Inr q) \<Longrightarrow> on_paging f k = Some (Inr (k\<lparr>k_paging := q\<rparr>))"
  "f (k_paging k) = Some (Inl e) \<Longrightarrow> on_paging f k = Some (Inl (Memory_halt e))"
  by (simp_all add: on_paging_def)

definition memory_set_up :: "kernel \<Rightarrow> bool" where
  "memory_set_up k \<longleftrightarrow> paging_reach (k_paging k) \<and> paging_enabled (k_paging k)
     \<and> (\<exists>p. p \<noteq> 0 \<and> p \<in> set (candidates (k_paging k)) \<and> directory_map (page_directory (k_paging k)) = [0 \<mapsto> 0, 60 \<mapsto> p])
     \<and> heap_list (k_heap k) [initial_block]"

lemma heap_page: "unat KHEAP_START div 4194304 = 60" "unat (getVirtualFrameNumber KHEAP_START) = 60"
  by (simp_all add: KHEAP_START_def getVirtualFrameNumber_def)

text \<open>The memory map as the boot loader leaves it, and the frames in it.\<close>

definition memory_map :: "mem \<Rightarrow> addr \<Rightarrow> mdesc list \<Rightarrow> bool" where
  "memory_map m info ds \<longleftrightarrow> bit (info_flags m info) 6 \<and> map_at m (info_mmap_addr m info) ds
     \<and> map_bytes ds = unat (info_mmap_length m info) \<and> length (ram_regions ds) \<le> 16"

definition map_frames :: "mdesc list \<Rightarrow> u32 list" where
  "map_frames ds = concat (map region_pfns (ram_regions ds))"

text \<open>Paging set up over a memory map, and its first page fault.\<close>

lemma paging_set_up:
  assumes "memory_map m info ds" and "paging_shape q"
  obtains q1 q2 where "loadPhysicalMemoryRegionDescriptors m info q = Some (Inr q1)" and "setupPaging q1 = Some (Inr q2)"
    and "paging_reach q2" and "paging_shape q2" and "paging_enabled q2" and "candidates q2 = map_frames ds"
    and "directory_map (page_directory q2) = [0 \<mapsto> 0]" and "page_frame_words q2 = (replicate 32 0)[0 := lsh1 0]"
    and "length (page_directory q2) = 1024"
proof -
  obtain q1 where q1: "loadPhysicalMemoryRegionDescriptors m info q = Some (Inr q1)"
    "unat (physical_memory_region_count q1) = length (ram_regions ds)"
    "physical_memory_regions q1 = ram_regions ds @ drop (length (ram_regions ds)) (physical_memory_regions q)"
    "page_directory q1 = page_directory q" "page_frame_words q1 = page_frame_words q"
    using memory_map_fills [of m info ds q] assms by (auto simp: memory_map_def paging_shape_def MAX_PHYSICAL_MEMORY_REGIONS_def)
  have shape: "paging_shape q1"
    using q1 assms by (auto simp: memory_map_def paging_shape_def MAX_PHYSICAL_MEMORY_REGIONS_def)
  define q2 where "q2 = q1\<lparr>page_directory := (replicate 1024 0)[0 := page_entry 0],
     page_frame_words := (replicate 32 0)[0 := lsh1 0], paging_enabled := True\<rparr>"
  have set_up: "setupPaging q1 = Some (Inr q2)" unfolding q2_def by (rule setupPaging_eq [OF shape])
  show thesis
  proof (rule that [OF q1(1) set_up])
    show "paging_reach q2" by (rule paging_reach.Setup [OF shape set_up])
    show "paging_shape q2" using shape by (simp add: q2_def paging_shape_def del: list_update.simps)
    show "candidates q2 = map_frames ds" using q1(2,3) by (simp add: q2_def candidates_def map_frames_def)
    show "directory_map (page_directory q2) = [0 \<mapsto> 0]" by (simp add: q2_def initial_directory del: list_update.simps)
  qed (simp_all add: q2_def del: list_update.simps)
qed

lemma initial_frames: "p < 1024 \<Longrightarrow> frame_used ((replicate 32 0)[0 := lsh1 0]) p \<longleftrightarrow> p = 0"
proof -
  assume p: "p < 1024"
  have v: "frame_valid (replicate 32 0) q" if "q < 1024" for q using that by (simp add: frame_valid_def)
  have "(replicate 32 0)[0 := lsh1 0] = frame_mark (replicate 32 0) 0"
    using v [of 0] by (simp add: frame_mark_def setFrameUsed_eq del: list_update.simps)
  moreover have "unat p div 32 < 32" using p by (simp add: word_less_nat_alt)
  ultimately show ?thesis using frame_mark_used [OF v [of 0] v [OF p]] v [OF p] by (auto simp: frame_used_bit)
qed

lemma first_fault:
  assumes "paging_shape q" and "page_frame_words q = (replicate 32 0)[0 := lsh1 0]"
    and "p \<in> set (candidates q)" and "p \<noteq> 0"
  obtains r where "handle_page_fault q a = Some (Inr (mapped_to q a r))" and "r \<in> set (candidates q)" and "r \<noteq> 0"
proof -
  have "first_free q \<noteq> None"
    using assms(3,4) initial_frames [OF candidates_small [OF assms(3)]] by (auto simp: first_free_def find_None_iff assms(2))
  then obtain r where r: "first_free q = Some r" by blast
  note f = first_free_Some [OF assms(1) r]
  show thesis
    using r f(1,2) initial_frames [OF f(4)] assms(2) handle_page_fault_eq [OF assms(1), of a] by (intro that [of r]) auto
qed

lemma masks_reload:
  "io_log m' = io_log m @ [Cli, Lidt l a, Sti] \<Longrightarrow> masks m' = masks m"
  using last_outb_snoc [of "io_log m @ [Cli, Lidt l a]" Sti] last_outb_snoc [of "io_log m @ [Cli]" "Lidt l a"]
  by (simp add: masks_def last_outb_snoc)

lemma k_machine_idt: "k_machine k = cpu (k_idt k)"
  by (simp add: k_machine_def k_idt_def ata_cpu_def)

lemma boot_memory_sets_up:
  assumes "memory_map (ram (k_heap k)) info ds" and "paging_shape (k_paging k)"
    and "p \<in> set (map_frames ds)" and "p \<noteq> 0" and "length (idt_entries (k_idt k)) = 256"
  shows "\<exists>k'. boot_memory P info k = Some (Inr k') \<and> memory_set_up k'
    \<and> idt_entries (k_idt k') = (idt_entries (k_idt k))[128 := make_gate (syscall_isr P) 3 INTERRUPT_GATE_32]
    \<and> int_flag (k_machine k') \<and> (pit_ok (ata_pit (k_ata k)) \<longrightarrow> pit_ok (ata_pit (k_ata k')))
    \<and> masks (k_machine k') = masks (k_machine k) \<and> k_tio k' = k_tio k \<and> k_gdt k' = k_gdt k \<and> k_cpuid k' = k_cpuid k"
proof -
  obtain q1 q2 where q: "loadPhysicalMemoryRegionDescriptors (ram (k_heap k)) info (k_paging k) = Some (Inr q1)"
    "setupPaging q1 = Some (Inr q2)" "paging_reach q2" "paging_shape q2" "paging_enabled q2" "candidates q2 = map_frames ds"
    "directory_map (page_directory q2) = [0 \<mapsto> 0]" "page_frame_words q2 = (replicate 32 0)[0 := lsh1 0]"
    "length (page_directory q2) = 1024"
    by (rule paging_set_up [OF assms(1,2)])
  obtain r where r: "handle_page_fault q2 KHEAP_START = Some (Inr (mapped_to q2 KHEAP_START r))" "r \<in> set (candidates q2)" "r \<noteq> 0"
    by (rule first_fault [OF q(4,8), of p]) (use assms(3,4) q(6) in auto)
  define q3 where "q3 = mapped_to q2 KHEAP_START r"
  have dir: "directory_map (page_directory q3) = [0 \<mapsto> 0, 60 \<mapsto> r]"
    using candidates_small [OF r(2)] by (simp add: q3_def mapped_to_def directory_map_update q(7,9) heap_page)
  define k1 where "k1 = k\<lparr>k_paging := q2\<rparr>"
  obtain i where i: "syscalls_init (syscall_isr P) (k_idt k1) = Some i"
    "idt_entries i = (idt_entries (k_idt k))[128 := make_gate (syscall_isr P) 3 INTERRUPT_GATE_32]" "int_flag (cpu i)"
    "masks (cpu i) = masks (k_machine k)"
    using syscalls_init_gate [of "k_idt k1" "syscall_isr P"] assms(5) masks_reload
    by (fastforce simp: k1_def k_machine_idt)
  define k2 where "k2 = set_idt k1 i"
  define k3 where "k3 = k2\<lparr>k_paging := q3\<rparr>"
  have pag: "k_paging k2 = q2" by (simp add: k2_def k1_def)
  have touched: "touch KHEAP_START k2 = Some (Inr k3)"
    using r(1) by (simp add: touch_def pag q(5,7) heap_page k3_def q3_def)
  have "boot_memory P info k = Some (Inr (k3\<lparr>k_heap := kheapInit (k_heap k3)\<rparr>))"
    using q(1,2) i(1) touched by (simp add: boot_memory_def k1_def [symmetric] on_idt_def k2_def [symmetric])
  moreover have "memory_set_up (k3\<lparr>k_heap := kheapInit (k_heap k3)\<rparr>)"
    using dir r(2,3) paging_reach.Fault [OF q(3) r(1)] q(5) kheapInit_heap_list
    by (auto simp: memory_set_up_def k3_def q3_def mapped_to_def candidates_def)
  ultimately show ?thesis
    using i(2-4) by (intro exI [of _ "k3\<lparr>k_heap := kheapInit (k_heap k3)\<rparr>"])
      (simp add: k3_def k2_def k1_def pit_ok_def)
qed

section \<open>Devices\<close>

text \<open>A vendor string that is a format without conversions, and the record before and after it is read.\<close>

definition vendor_bytes :: "u32 \<times> u32 \<times> u32 \<Rightarrow> u8 list" where
  "vendor_bytes regs = low_bytes (fst regs) @ low_bytes (fst (snd regs)) @ low_bytes (snd (snd regs))"

definition vendor_read :: "u8 list \<Rightarrow> cpuid \<Rightarrow> bool" where
  "vendor_read name c \<longleftrightarrow> vendor_id c = name @ replicate (13 - length name) 0 \<or> vendor_id c = replicate 13 0"

lemma vendor_bytes_length: "length (vendor_bytes regs) \<le> 12"
  using low_bytes_length [of "fst regs"] low_bytes_length [of "fst (snd regs)"] low_bytes_length [of "snd (snd regs)"]
  by (simp add: vendor_bytes_def)

lemma replicate_update_same: "(replicate n x)[i := x] = replicate n x"
  by (cases "i < n") (simp_all add: list_eq_iff_nth_eq nth_list_update)

lemma fetchCpuid_reads:
  assumes "vendor_read (vendor_bytes regs) c"
  shows "fetchCpuid regs c = Some (True, c\<lparr>vendor_id := vendor_bytes regs @ replicate (13 - length (vendor_bytes regs)) 0\<rparr>)"
proof -
  obtain a b d where regs: "regs = (a, b, d)" by (cases regs)
  let ?name = "vendor_bytes regs"
  have len: "length ?name \<le> 12" by (rule vendor_bytes_length)
  have "length (vendor_id c) = 13" using assms len by (auto simp: vendor_read_def)
  moreover have "drop (length ?name) (vendor_id c) = replicate (13 - length ?name) 0"
    using assms len by (auto simp: vendor_read_def)
  moreover have "(?name @ replicate (13 - length ?name) 0)[12 := 0] = ?name @ replicate (13 - length ?name) 0"
    using len by (simp add: list_update_append replicate_update_same)
  ultimately show ?thesis
    using fetchCpuid_stores [of c a b d] by (simp add: regs vendor_bytes_def Let_def)
qed

lemma cpuid_print_Some:
  assumes "CHR ''%'' \<notin> set fmt" and "length fmt < 1000"
  shows "\<exists>line. cpuid_print c fmt [] = Some (c\<lparr>cpuid_console := cpuid_console c @ line\<rparr>)"
  using kprintf_terminated [of fmt "[]"] assms by (auto simp: cpuid_print_def kvsprintf_def kvsprintf_loop_plain)

lemma loadCpuid_returns:
  assumes "vendor_read (vendor_bytes regs) c"
  shows "\<exists>c'. loadCpuid available regs features c = Some c' \<and> vendor_read (vendor_bytes regs) c'"
proof (cases "available = 0")
  case True
  then show ?thesis
    using cpuid_print_Some [of "''Unable to load CPUID (not available)''" c] assms by (auto simp: loadCpuid_def vendor_read_def)
next
  case False
  let ?c = "c\<lparr>vendor_id := vendor_bytes regs @ replicate (13 - length (vendor_bytes regs)) 0,
    ecx_features := fst features, edx_features := snd features\<rparr>"
  show ?thesis
    using False cpuid_print_Some [of "''Has Built in APIC!\<newline>''" ?c] cpuid_print_Some [of "''No APIC found :(\<newline>''" ?c]
    by (auto simp: loadCpuid_def fetchCpuid_reads [OF assms] vendor_read_def Let_def)
qed

lemma cpuidPrintVendor_returns:
  assumes "vendor_read (vendor_bytes regs) c" and "0x25 \<notin> set (vendor_bytes regs)"
  shows "\<exists>c'. cpuidPrintVendor regs c = Some c'
    \<and> vendor_id c' = vendor_bytes regs @ replicate (13 - length (vendor_bytes regs)) 0"
proof -
  let ?v = "vendor_bytes regs @ replicate (13 - length (vendor_bytes regs)) 0"
  let ?fmt = "map (\<lambda>c. char_of (unat c)) (takeWhile (\<lambda>c. c \<noteq> 0) ?v) :: string"
  define c1 where "c1 = c\<lparr>vendor_id := ?v\<rparr>"
  have fetch: "fetchCpuid regs c = Some (True, c1)" using fetchCpuid_reads [OF assms(1)] by (simp add: c1_def)
  have "CHR ''%'' \<notin> set ?fmt"
  proof
    assume "CHR ''%'' \<in> set ?fmt"
    then obtain b where b: "b \<in> set ?v" "b \<noteq> 0" "CHR ''%'' = char_of (unat b)"
      by (auto dest: set_takeWhileD)
    from arg_cong [OF b(3), of "of_char :: char \<Rightarrow> nat"] have "unat b = 0x25" using unsigned_less [of b, where ?'a = nat] by simp
    then have "b = 0x25" by (simp add: word_unat_eq_iff)
    then show False using b(1) assms(2) by auto
  qed
  moreover have "length ?fmt < 1000"
    using length_takeWhile_le [of "\<lambda>c. c \<noteq> 0" ?v] vendor_bytes_length [of regs] by simp
  ultimately obtain l2 where 2: "\<And>c. cpuid_print c ?fmt [] = Some (c\<lparr>cpuid_console := cpuid_console c @ l2\<rparr>)"
    using kprintf_terminated [of ?fmt "[]"] by (auto simp: cpuid_print_def kvsprintf_def kvsprintf_loop_plain)
  obtain l1 where 1: "cpuid_print c1 ''vendor id: '' [] = Some (c1\<lparr>cpuid_console := cpuid_console c1 @ l1\<rparr>)"
    using cpuid_print_Some [of "''vendor id: ''" c1] by auto
  define c2 where "c2 = c1\<lparr>cpuid_console := cpuid_console c1 @ l1\<rparr>"
  define c3 where "c3 = c2\<lparr>cpuid_console := cpuid_console c2 @ l2\<rparr>"
  obtain l3 where 3: "cpuid_print c3 ''\<newline>'' [] = Some (c3\<lparr>cpuid_console := cpuid_console c3 @ l3\<rparr>)"
    using cpuid_print_Some [of "''\<newline>''" c3] by auto
  have v1: "vendor_id c1 = ?v" by (simp add: c1_def)
  have "cpuidPrintVendor regs c = Some (c3\<lparr>cpuid_console := cpuid_console c3 @ l3\<rparr>)"
    unfolding cpuidPrintVendor_def fetch Option.bind.simps prod.case if_True v1 1 [folded c2_def] 2 c3_def [symmetric] 3 ..
  then show ?thesis by (simp add: c3_def c2_def c1_def)
qed

lemma serialInit_ints: "int_flag (serialInit m) = int_flag m" "masks (serialInit m) = masks m"
  by (simp_all add: serialInit_def Let_def setRegister_def io_simps PIC1_DATA_def PIC2_DATA_def COM1_def
      COM_INTERRUPT_ENABLE_def COM_LINE_CONTROL_def COM_BAUD_DIVISOR_LSB_def COM_BAUD_DIVISOR_MSB_def)

lemma kernel_print_hex:
  assumes "fmt = label @ ''%x\<newline>''" and "CHR ''%'' \<notin> set label" and "length label < 900"
  shows "\<exists>line. kernel_print fmt [Va_int w] k = Some (Inr (k\<lparr>k_console := k_console k @ line\<rparr>))"
proof -
  have "kvsprintf_loop r (label @ ''%x\<newline>'') [Va_int w] = kvsprintf_loop (r @ label) ''%x\<newline>'' [Va_int w]" for r
    using assms(2) by (induction label arbitrary: r) auto
  then have "kvsprintf fmt [Va_int w] = Some (render_hexadecimal label w @ ''\<newline>'', True)"
    by (simp add: kvsprintf_def assms(1))
  from kprintf_terminated [OF this] show ?thesis using assms(3) by (auto simp: kernel_print_def assms(1))
qed

lemma boot_devices_sets_up:
  assumes "vendor_read (vendor_bytes (cpuid_vendor_regs P)) (k_cpuid k)"
    and "0x25 \<notin> set (vendor_bytes (cpuid_vendor_regs P))" and "drives_answer (hardware P)"
  shows "\<exists>k'. boot_devices P k = Some (Inr k') \<and> k_user k' = Some (user_mode_func_test P)
    \<and> idt_entries (k_idt k') = idt_entries (k_idt k) \<and> (int_flag (k_machine k') \<longleftrightarrow> int_flag (k_machine k))
    \<and> masks (k_machine k') = masks (k_machine k) \<and> (pit_ok (ata_pit (k_ata k)) \<longrightarrow> pit_ok (ata_pit (k_ata k')))
    \<and> k_gdt k' = k_gdt k \<and> k_paging k' = k_paging k \<and> k_heap k' = k_heap k \<and> k_tio k' = k_tio k
    \<and> take 12 (vendor_id (k_cpuid k')) = take 12 (vendor_bytes (cpuid_vendor_regs P) @ replicate 12 0)"
proof -
  let ?regs = "cpuid_vendor_regs P"
  obtain c1 where c1: "loadCpuid (cpuid_available P) ?regs (cpuid_feature_regs P) (k_cpuid k) = Some c1"
    "vendor_read (vendor_bytes ?regs) c1"
    using loadCpuid_returns [OF assms(1)] by blast
  obtain c2 where c2: "cpuidPrintVendor ?regs c1 = Some c2"
    "vendor_id c2 = vendor_bytes ?regs @ replicate (13 - length (vendor_bytes ?regs)) 0"
    using cpuidPrintVendor_returns [OF c1(2) assms(2)] by blast
  define k1 where "k1 = k\<lparr>k_cpuid := c1\<rparr>"
  define k2 where "k2 = k1\<lparr>k_cpuid := c2\<rparr>"
  define k3 where "k3 = set_machine k2 (serialInit (k_machine k2))"
  obtain l4 where p4: "kernel_print ''user_mode_func_test: 0x%x\<newline>'' [Va_int (user_mode_func_test P)] k3
      = Some (Inr (k3\<lparr>k_console := k_console k3 @ l4\<rparr>))"
    using kernel_print_hex [of _ "''user_mode_func_test: 0x''"] by fastforce
  define k4 where "k4 = k3\<lparr>k_console := k_console k3 @ l4\<rparr>"
  obtain l5 where p5: "kernel_print ''jump_to_ring3: 0x%x\<newline>'' [Va_int (jump_to_ring3 P)] k4
      = Some (Inr (k4\<lparr>k_console := k_console k4 @ l5\<rparr>))"
    using kernel_print_hex [of _ "''jump_to_ring3: 0x''"] by fastforce
  define k5 where "k5 = k4\<lparr>k_console := k_console k4 @ l5\<rparr>"
  let ?a = "(k_ata k5)\<lparr>ata_mem := ram (k_heap k5)\<rparr>"
  obtain r where r: "ideInit (hardware P) (ide_stack P) ?a = Some r" "ports_only ?a (snd r)"
    using ideInit_settles [OF assms(3), of ?a "ide_stack P"] unfolding settles_def by blast
  define k6 where "k6 = k5\<lparr>k_ata := snd r, k_heap := (k_heap k5)\<lparr>ram := ata_mem (snd r)\<rparr>\<rparr>"
  note kept = ports_only_keeps [OF r(2)]
  have step1: "on_cpuid (loadCpuid (cpuid_available P) ?regs (cpuid_feature_regs P)) k = Some (Inr k1)"
    by (simp add: on_cpuid_def c1(1) k1_def)
  have step2: "on_cpuid (cpuidPrintVendor ?regs) k1 = Some (Inr k2)"
    by (simp add: on_cpuid_def c2(1) k1_def k2_def)
  have step6: "on_ata (ideInit (hardware P) (ide_stack P)) k5 = Some (Inr k6)"
    by (simp add: on_ata_def r(1) k6_def case_prod_unfold)
  have run: "boot_devices P k = Some (Inr (k6\<lparr>k_user := Some (user_mode_func_test P)\<rparr>))"
    by (simp only: boot_devices_def step1 step2 k3_def [symmetric] p4 [folded k4_def] p5 [folded k5_def] step6 and_then_simps)
  have heap: "k_heap k6 = k_heap k5" using kept(4) by (simp add: k6_def)
  have idt: "idt_entries (k_idt k6) = idt_entries (k_idt k)" "int_flag (k_machine k6) = int_flag (k_machine k)"
    "masks (k_machine k6) = masks (k_machine k)"
    "pit_counters (ata_pit (k_ata k6)) = pit_counters (ata_pit (k_ata k))"
    "pit_initialized (ata_pit (k_ata k6)) = pit_initialized (ata_pit (k_ata k))"
    using kept by (simp_all add: k_idt_def k_machine_def k6_def)
      (simp_all add: k5_def k4_def k3_def k2_def k1_def set_machine_def ata_io_def ata_cpu_def pit_machine_def
        serialInit_ints k_machine_def)
  show ?thesis
    using run heap idt c2(2)
    by (intro exI [of _ "k6\<lparr>k_user := Some (user_mode_func_test P)\<rparr>"])
      (simp add: pit_ok_def, simp add: k6_def k5_def k4_def k3_def k2_def k1_def min_def vendor_bytes_length)
qed

section \<open>The whole of \<open>kernelMain\<close>\<close>

definition platform_ok :: "platform \<Rightarrow> bool" where
  "platform_ok P \<longleftrightarrow> (\<forall>g. sgdt P g = (gp_limit g, gp_base g))
     \<and> 0x25 \<notin> set (vendor_bytes (cpuid_vendor_regs P)) \<and> drives_answer (hardware P)"

text \<open>The statics as the boot loader leaves them: of their size, the vendor string and the timer's flag zero.\<close>

definition before_boot :: "kernel \<Rightarrow> bool" where
  "before_boot k \<longleftrightarrow> length (idt_entries (k_idt k)) = 256 \<and> length (GDT (k_gdt k)) = 6
     \<and> length (pit_counters (ata_pit (k_ata k))) = 50 \<and> \<not> pit_initialized (ata_pit (k_ata k))
     \<and> paging_shape (k_paging k) \<and> vendor_id (k_cpuid k) = replicate 13 0
     \<and> length (pages (k_tio k)) = 19200 \<and> 1920 \<le> length (platform_vb (k_tio k))"

lemma boot_gate_none_user:
  "\<not> (gate_present (case boot_gate v of None \<Rightarrow> zero_entry | Some (f, g) \<Rightarrow> make_gate (sa f) 0 g)
    \<and> gate_dpl (case boot_gate v of None \<Rightarrow> zero_entry | Some (f, g) \<Rightarrow> make_gate (sa f) 0 g) = 3)"
  using make_gate_decodes(3) zero_entry_absent by (auto split: option.splits)

lemma gates_after_boot:
  assumes "tables_set_up P k1"
    and "idt_entries i = (idt_entries (k_idt k1))[128 := make_gate (syscall_isr P) 3 INTERRUPT_GATE_32]"
  shows "user_gates i = {0x80}" and "gate_handler (idt_entries i ! 0x80) = syscall_isr P"
    and "gate_handler (idt_entries i ! 0x20) = symbol_addr P PITIRQHandler_fn"
    and "gate_handler (idt_entries i ! 14) = symbol_addr P PageFaultIsr"
proof -
  have len: "length (idt_entries (k_idt k1)) = 256" using assms(1) by (simp add: tables_set_up_def)
  have at: "idt_entries i ! v = (if v = 128 then make_gate (syscall_isr P) 3 INTERRUPT_GATE_32
      else if v = 32 then make_gate (symbol_addr P PITIRQHandler_fn) 0 INTERRUPT_GATE_32
      else case boot_gate v of None \<Rightarrow> zero_entry | Some (f, g) \<Rightarrow> make_gate (symbol_addr P f) 0 g)" if "v < 256" for v
    using assms that by (auto simp: tables_set_up_def nth_list_update)
  have user: "gate_present (idt_entries i ! v) \<and> gate_dpl (idt_entries i ! v) = 3 \<longleftrightarrow> v = 128" if "v < 256" for v
    unfolding at [OF that] using boot_gate_none_user [where sa = "symbol_addr P" and v = v] make_gate_decodes(3,4) by auto
  have "gate_present (idt_entries i ! 128)" "gate_dpl (idt_entries i ! 128) = 3" using user [of 128] by simp_all
  then show "user_gates i = {0x80}" using user by (auto simp: user_gates_def)
  have "boot_gate 14 = Some (PageFaultIsr, TRAP_GATE_32)"
    by (simp add: boot_gate_def irq_gates_def exception_gates_def)
  then show "gate_handler (idt_entries i ! 0x80) = syscall_isr P"
    "gate_handler (idt_entries i ! 0x20) = symbol_addr P PITIRQHandler_fn"
    "gate_handler (idt_entries i ! 14) = symbol_addr P PageFaultIsr"
    by (simp_all add: at make_gate_decodes)
qed

text \<open>The three stages in sequence, and what each part is at the end.\<close>

lemma kernelMain_reaches:
  assumes "platform_ok P" and "before_boot k" and "memory_map (ram (k_heap k)) info ds"
    and "p \<in> set (map_frames ds)" and "p \<noteq> 0"
  obtains k1 k' where "kernelMain P info MULTIBOOT_MAGIC k = Some (Inr k')" and "k_user k' = Some (user_mode_func_test P)"
    and "tables_set_up P k1"
    and "idt_entries (k_idt k') = (idt_entries (k_idt k1))[128 := make_gate (syscall_isr P) 3 INTERRUPT_GATE_32]"
    and "int_flag (k_machine k')" and "boot_masks (k_machine k')" and "pit_ok (ata_pit (k_ata k'))"
    and "segments_set_up P (k_gdt k')" and "memory_set_up k'" and "tio_ok (k_tio k')"
proof -
  obtain k1 where k1: "boot_tables P k = Some (Inr k1)" "tables_set_up P k1" "segments_set_up P (k_gdt k1)"
    "k_tio k1 = tio_init (k_tio k)" "k_paging k1 = k_paging k" "k_heap k1 = k_heap k" "k_cpuid k1 = k_cpuid k"
    using boot_tables_sets_up [of k P] assms(1,2) by (auto simp: before_boot_def platform_ok_def)
  have mem: "memory_map (ram (k_heap k1)) info ds" "paging_shape (k_paging k1)" "length (idt_entries (k_idt k1)) = 256"
    using assms(2,3) k1 by (simp_all add: before_boot_def tables_set_up_def)
  obtain k2 where k2: "boot_memory P info k1 = Some (Inr k2)" "memory_set_up k2"
    "idt_entries (k_idt k2) = (idt_entries (k_idt k1))[128 := make_gate (syscall_isr P) 3 INTERRUPT_GATE_32]"
    "int_flag (k_machine k2)" "masks (k_machine k2) = masks (k_machine k1)" "pit_ok (ata_pit (k_ata k2))" "k_tio k2 = k_tio k1" "k_gdt k2 = k_gdt k1" "k_cpuid k2 = k_cpuid k1"
    using boot_memory_sets_up [OF mem(1,2) assms(4,5) mem(3), of P] k1(2) by (auto simp: tables_set_up_def)
  have vendor: "vendor_read (vendor_bytes (cpuid_vendor_regs P)) (k_cpuid k2)"
    using assms(2) k1(7) k2(9) by (simp add: before_boot_def vendor_read_def)
  obtain k3 where k3: "boot_devices P k2 = Some (Inr k3)" "k_user k3 = Some (user_mode_func_test P)"
    "idt_entries (k_idt k3) = idt_entries (k_idt k2)" "int_flag (k_machine k3)" "masks (k_machine k3) = masks (k_machine k2)" "pit_ok (ata_pit (k_ata k3))"
    "k_gdt k3 = k_gdt k2" "k_paging k3 = k_paging k2" "k_heap k3 = k_heap k2" "k_tio k3 = k_tio k2"
    using boot_devices_sets_up [OF vendor] assms(1) k2(4,6) by (auto simp: platform_ok_def)
  have run: "kernelMain P info MULTIBOOT_MAGIC k = Some (Inr k3)"
    by (simp add: kernelMain_def k1(1) k2(1) k3(1))
  have tio: "tio_ok (k_tio k3)"
    using tio_init_ok(1) [of "k_tio k"] assms(2) k1(4) k2(7) k3(10) by (simp add: before_boot_def)
  have mem3: "memory_set_up k3" using k2(2) k3(8,9) by (simp add: memory_set_up_def)
  have "boot_masks (k_machine k3)" using k1(2) k2(5) k3(5) by (simp add: boot_masks_def tables_set_up_def)
  then show thesis
    using that [OF run k3(2) k1(2)] k2(3,8) k3(3,4,6,7) mem3 tio k1(3) by simp
qed


text \<open>A machine with 16 MiB of RAM above the first megabyte, before the kernel starts.\<close>

definition raw_tio :: tio where
  "raw_tio = \<lparr>platform_vb = replicate 2000 0, pages = replicate 19200 0, num_pages = 0, blank_page = [], view_row = 0,
     view_height = 0, view_width = 0, cursor_x = 0, cursor_y = 0, on_screen = False, tio_cpu = idle_machine\<rparr>"

definition raw_kernel :: kernel where
  "raw_kernel = \<lparr>k_tio = raw_tio, k_gdt = blank_gdt, k_paging = small_machine,
     k_heap = \<lparr>ram = map_memory, root_node = 0, console = []\<rparr>,
     k_cpuid = \<lparr>vendor_id = replicate 13 0, ecx_features = 0, edx_features = 0, cpuid_console = []\<rparr>,
     k_ata = idle_ata\<lparr>ata_pit := fresh_pit\<lparr>pit_initialized := False\<rparr>\<rparr>, k_console = [], k_user = None\<rparr>"

definition qemu_platform :: platform where
  "qemu_platform = \<lparr>symbol_addr = (\<lambda>_. 0x101000), syscall_isr = 0x102000, idt_table = 0x103000, gdt_table = 0x104000,
     tss_table = 0x105000, kernel_stack_top = 0x106000, sgdt = (\<lambda>g. (gp_limit g, gp_base g)), cpuid_available = 1,
     cpuid_vendor_regs = (0x756e6547, 0x49656e69, 0x6c65746e), cpuid_feature_regs = (0, 0x200),
     hardware = flip_device, ide_stack = ((False, 0), (False, 0)), user_mode_func_test = 0x107000, jump_to_ring3 = 0x108000\<rparr>"

lemma raw_kernel_before_boot: "before_boot raw_kernel"
  using small_machine_shape
  by (simp add: before_boot_def raw_kernel_def k_idt_def fresh_pit_def blank_idt_def blank_gdt_def raw_tio_def)

lemma raw_kernel_map: "memory_map (ram (k_heap raw_kernel)) 0 map_entries" "1 \<in> set (map_frames map_entries)"
  using map_memory_entries by (simp_all add: memory_map_def raw_kernel_def map_frames_def small_region_pfns)

lemma qemu_platform_ok: "platform_ok qemu_platform"
proof -
  have "answers flip_device PBUSC (\<lambda>s. \<not> st_busy s)"
    by (rule flip_device_answers) (simp add: st_busy_def)
  moreover have "answers flip_device PBUSC (\<lambda>s. st_data_transfer_requested s \<or> st_error s)"
    by (rule flip_device_answers) (simp add: st_data_transfer_requested_def bit_simps)
  moreover have "\<not> st_error (read8 flip_device log PBUSC)" for log
    by (simp add: flip_device_def st_error_def bit_simps)
  ultimately have "drives_answer flip_device" by (simp add: drives_answer_def)
  moreover have "0x25 \<notin> set (vendor_bytes (0x756e6547, 0x49656e69, 0x6c65746e))"
    by (simp add: vendor_bytes_def low_bytes_full)
  ultimately show ?thesis by (simp add: platform_ok_def qemu_platform_def)
qed


lemma touch_out_of_frames:
  assumes "paging_shape (k_paging k)" and "paging_enabled (k_paging k)"
    and "directory_map (page_directory (k_paging k)) = [0 \<mapsto> 0]"
    and "page_frame_words (k_paging k) = (replicate 32 0)[0 := lsh1 0]"
    and "\<And>p. p \<in> set (candidates (k_paging k)) \<Longrightarrow> p = 0"
  shows "touch KHEAP_START k = Some (Inl (Memory_halt Out_of_frames))"
proof -
  have "frame_used (page_frame_words (k_paging k)) 0" using initial_frames [of 0] by (simp add: assms(4))
  then have "first_free (k_paging k) = None" using assms(5) by (auto simp: first_free_def find_None_iff)
  then show ?thesis
    using handle_page_fault_eq [OF assms(1), of KHEAP_START] assms(2,3) by (simp add: touch_def heap_page KHEAP_START_def)
qed

lemma kernelMain_stops_cases:
  assumes "before_boot k" and "\<And>g. sgdt P g = (gp_limit g, gp_base g)"
  shows "magic \<noteq> MULTIBOOT_MAGIC \<Longrightarrow> kernelMain P info magic k = Some (Inr k)"
    and "\<not> bit (info_flags (ram (k_heap k)) info) 6 \<Longrightarrow>
      kernelMain P info MULTIBOOT_MAGIC k = Some (Inl (Memory_halt No_memory_map))"
    and "memory_map (ram (k_heap k)) info ds \<Longrightarrow> set (map_frames ds) \<subseteq> {0} \<Longrightarrow>
      kernelMain P info MULTIBOOT_MAGIC k = Some (Inl (Memory_halt Out_of_frames))"
proof -
  show "kernelMain P info magic k = Some (Inr k)" if "magic \<noteq> MULTIBOOT_MAGIC"
    using that by (simp add: kernelMain_def)
  obtain k1 where k1: "boot_tables P k = Some (Inr k1)" "tables_set_up P k1" "k_paging k1 = k_paging k" "k_heap k1 = k_heap k"
    using boot_tables_sets_up [of k P] assms by (auto simp: before_boot_def)
  show "kernelMain P info MULTIBOOT_MAGIC k = Some (Inl (Memory_halt No_memory_map))"
    if "\<not> bit (info_flags (ram (k_heap k)) info) 6"
    using that by (simp add: kernelMain_def k1(1) boot_memory_def k1(4) on_paging_def
        loadPhysicalMemoryRegionDescriptors_def and_lsh1_0_iff)
  assume mm: "memory_map (ram (k_heap k)) info ds" and none: "set (map_frames ds) \<subseteq> {0}"
  have mem: "memory_map (ram (k_heap k1)) info ds" "paging_shape (k_paging k1)"
    using mm assms(1) k1(3,4) by (simp_all add: before_boot_def)
  obtain q1 q2 where q: "loadPhysicalMemoryRegionDescriptors (ram (k_heap k1)) info (k_paging k1) = Some (Inr q1)"
    "setupPaging q1 = Some (Inr q2)" "paging_shape q2" "paging_enabled q2" "candidates q2 = map_frames ds"
    "directory_map (page_directory q2) = [0 \<mapsto> 0]" "page_frame_words q2 = (replicate 32 0)[0 := lsh1 0]"
    by (rule paging_set_up [OF mem])
  obtain i where i: "syscalls_init (syscall_isr P) (k_idt k1) = Some i"
    using syscalls_init_gate [of "k_idt k1" "syscall_isr P"] k1(2) by (auto simp: tables_set_up_def)
  have "touch KHEAP_START (set_idt (k1\<lparr>k_paging := q2\<rparr>) i) = Some (Inl (Memory_halt Out_of_frames))"
    using none by (intro touch_out_of_frames) (auto simp: q(3-7))
  then show "kernelMain P info MULTIBOOT_MAGIC k = Some (Inl (Memory_halt Out_of_frames))"
    by (simp add: kernelMain_def k1(1) boot_memory_def q(1,2) on_idt_def i)
qed

text \<open>
  C7: When the kernel does not come up. Without the magic number \<open>kernelMain\<close> returns and changes
  nothing. With it, from statics that are zero and on a processor that stores the descriptor
  table register back, it stops with a message when the boot loader gave no memory map; and when
  the map has no whole frame of RAM besides the first, it stops in \<open>kheapInit\<close>, whose first
  access to the heap finds no frame.
\<close>

theorem kernelMain_stops:
  assumes "before_boot k" and "\<And>g. sgdt P g = (gp_limit g, gp_base g)"
  shows "(magic \<noteq> MULTIBOOT_MAGIC \<longrightarrow> kernelMain P info magic k = Some (Inr k))
    \<and> (\<not> bit (info_flags (ram (k_heap k)) info) 6 \<longrightarrow>
        kernelMain P info MULTIBOOT_MAGIC k = Some (Inl (Memory_halt No_memory_map)))
    \<and> (memory_map (ram (k_heap k)) info ds \<and> set (map_frames ds) \<subseteq> {0} \<longrightarrow>
        kernelMain P info MULTIBOOT_MAGIC k = Some (Inl (Memory_halt Out_of_frames)))"
  using kernelMain_stops_cases [OF assms] by blast

text \<open>A wrong magic number, no memory map, and an empty one.\<close>

theorem kernelMain_stops_witness:
  "let k = raw_kernel\<lparr>k_heap := \<lparr>ram = (\<lambda>_. 0)(0 := 0x40), root_node = 0, console = []\<rparr>\<rparr> in
   kernelMain qemu_platform 0 1 k = Some (Inr k)
   \<and> kernelMain qemu_platform 0x200 MULTIBOOT_MAGIC k = Some (Inl (Memory_halt No_memory_map))
   \<and> kernelMain qemu_platform 0 MULTIBOOT_MAGIC k = Some (Inl (Memory_halt Out_of_frames))"
proof -
  define k where "k = raw_kernel\<lparr>k_heap := \<lparr>ram = (\<lambda>_. 0)(0 := 0x40), root_node = 0, console = []\<rparr>\<rparr>"
  have b: "before_boot k" using raw_kernel_before_boot by (simp add: before_boot_def k_def)
  have s: "sgdt qemu_platform g = (gp_limit g, gp_base g)" for g by (simp add: qemu_platform_def)
  have m: "memory_map (ram (k_heap k)) 0 []" "set (map_frames []) \<subseteq> {0}"
    by (simp_all add: memory_map_def k_def info_flags_def info_mmap_length_def rd32_def map_frames_def bit_numeral_rec)
  have f: "\<not> bit (info_flags (ram (k_heap k)) 0x200) 6" by (simp add: k_def info_flags_def rd32_def)
  show ?thesis
    unfolding Let_def k_def [symmetric]
    using kernelMain_stops [OF b s, of 1 0 "[]"] kernelMain_stops [OF b s, of 1 "0x200" "[]"] m f
    by (simp add: MULTIBOOT_MAGIC_def)
qed

end
