(* ===== verification/Kheap_Resize.thy ===== *)
theory Kheap_Resize
  imports Kheap_Props
begin

text \<open>
  Reallocation in place. \<open>kheapRealloc\<close> splits a block by a header at
  \<open>NODE_TO_CONTENTS(current_node) + size\<close>; the macro gives a \<open>HeapNode*\<close>, so the header is
  \<open>size\<close> headers behind the contents instead of \<open>size\<close> bytes. What the two cases that split a
  block make of the list of blocks.
\<close>

section \<open>Splitting a block\<close>

definition resized_ram :: "mem \<Rightarrow> addr \<Rightarrow> u32 \<Rightarrow> u32 \<Rightarrow> addr \<Rightarrow> mem" where
  "resized_ram m a sz rest nxt =
     put_size (put_next (createNode m (node_ptr_plus a sz) rest nxt False) a (node_ptr_plus a sz)) a sz"

definition split_off :: "addr \<Rightarrow> u32 \<Rightarrow> u32 \<Rightarrow> block" where
  "split_off a sz rest = \<lparr>b_addr = node_ptr_plus a sz, b_size = rest, b_alloc = False\<rparr>"

lemma resized_ram_nodes:
  fixes m :: mem and rest :: u32 and nxt :: addr
  assumes "header a \<inter> header (node_ptr_plus a sz) = {}"
  defines "c \<equiv> node_ptr_plus a sz" and "m' \<equiv> resized_ram m a sz rest nxt"
  shows "node_magic m' a = node_magic m a" "node_size m' a = sz" "node_next m' a = c"
    "node_allocated m' a = node_allocated m a"
    "node_magic m' c = KHEAP_MAGIC" "node_size m' c = rest" "node_next m' c = nxt" "\<not> node_allocated m' c"
    "agree_off (header a \<union> header c) m m'"
proof -
  let ?m1 = "createNode m c rest nxt False"
  have eq: "m' = put_size (put_next ?m1 a c) a sz" by (simp add: m'_def c_def resized_ram_def)
  have ag1: "agree_off (header c) m ?m1" by (simp add: frame)
  have ag2: "agree_off (header a) ?m1 m'"
    unfolding eq by (rule agree_off_trans_same [OF put_agree_header(3) put_agree_header(2)])
  have dis: "header c \<inter> header a = {}" "header a \<inter> header c = {}"
    using assms(1) by (auto simp: c_def)
  note at_a = node_frame [OF ag1 dis(1)] and at_c = node_frame [OF ag2 dis(2)]
  show "node_magic m' a = node_magic m a" "node_size m' a = sz" "node_next m' a = c"
    "node_allocated m' a = node_allocated m a"
    by (simp_all add: eq at_a)
  show "node_magic m' c = KHEAP_MAGIC" "node_size m' c = rest" "node_next m' c = nxt" "\<not> node_allocated m' c"
    by (simp_all add: at_c)
  show "agree_off (header a \<union> header c) m m'"
    by (rule agree_off_mono [OF agree_off_trans [OF ag1 ag2]]) auto
qed

lemma resized_path:
  assumes "path m p as (b_addr a)" and "node_at m a" and "path m nxt bs 0" and "node_ptr_plus (b_addr a) sz \<noteq> 0"
    and "header (b_addr a) \<inter> header (node_ptr_plus (b_addr a) sz) = {}"
    and "(header (b_addr a) \<union> header (node_ptr_plus (b_addr a) sz)) \<inter> headers (as @ bs) = {}"
  shows "path (resized_ram m (b_addr a) sz rest nxt) p (as @ a\<lparr>b_size := sz\<rparr> # split_off (b_addr a) sz rest # bs) 0"
proof -
  note r = resized_ram_nodes [OF assms(5), of m rest nxt]
  have d: "(header (b_addr a) \<union> header (node_ptr_plus (b_addr a) sz)) \<inter> headers as = {}"
    "(header (b_addr a) \<union> header (node_ptr_plus (b_addr a) sz)) \<inter> headers bs = {}"
    using assms(6) unfolding headers_simps by (simp_all only: Int_Un_distrib Un_empty)
  have "path (resized_ram m (b_addr a) sz rest nxt) p as (b_addr a)"
    "path (resized_ram m (b_addr a) sz rest nxt) nxt bs 0"
    using path_frame [OF r(9) d(1)] path_frame [OF r(9) d(2)] assms(1,3) by simp_all
  then show ?thesis
    using r(1-8) assms(2,4) by (auto simp: node_at_def split_off_def)
qed

section \<open>Shrinking\<close>

lemma node_ptr_plus_unat:
  assumes "unat a + 11 + 11 * unat sz < 4294967296"
  shows "unat (node_ptr_plus a sz) = unat a + 11 + 11 * unat sz"
proof -
  have "unat (sz * sizeof_HeapNode) = 11 * unat sz"
    using assms by (simp add: unat_word_ariths layout)
  then show ?thesis
    using assms by (simp add: node_ptr_plus_def NODE_TO_CONTENTS_def unat_add_nowrap layout)
qed

lemma kheapRealloc_shrinks:
  assumes heap: "heap_list h (as @ a # b # bs)" and naf: "no_adjacent_free (as @ a # b # bs)"
    and live: "b_alloc a" "b_alloc b" and sz: "sz \<noteq> 0" and inside: "11 * unat sz + 11 \<le> unat (b_size a)"
  defines "c \<equiv> split_off (b_addr a) sz (b_size a - sz - sizeof_HeapNode)"
  obtains h' where "kheapRealloc h (NODE_TO_CONTENTS (b_addr a)) sz = Some (Inr (NODE_TO_CONTENTS (b_addr a), h'))"
    and "path (ram h') (root_node h') (as @ a\<lparr>b_size := sz\<rparr> # c # b # bs) 0"
    and "unat (b_addr c) = unat (b_addr a) + 11 + 11 * unat sz" and "unat (b_size c) = unat (b_size a) - unat sz - 11"
    and "unat (b_addr b) = unat (b_addr a) + 11 + unat (b_size a)"
proof -
  let ?a = "b_addr a" and ?c = "node_ptr_plus (b_addr a) sz" and ?m = "ram h"
  have lay: "laid_out (as @ a # b # bs)" using heap by (simp add: heap_list_def)
  then have e: "unat ?a + 11 + unat (b_size a) = unat (b_addr b)"
    using laid_out_append [of as "a # b # bs"] by (simp add: block_end_def)
  have c: "unat ?c = unat ?a + 11 + 11 * unat sz"
    using e inside unat_lt_32 [of "b_addr b"] by (intro node_ptr_plus_unat) linarith
  have pos: "0 < unat sz" using sz by (simp add: unat_gt_0)
  then have le: "sz < b_size a" "unat (b_size a - sz) = unat (b_size a) - unat sz"
    using inside by (simp_all add: word_less_nat_alt unat_sub_nowrap)
  have delta: "b_size a - sz \<ge> sizeof_HeapNode + 1"
    using inside pos le(2) by (simp add: word_le_nat_alt sizeof_HeapNode_def)
  have rest: "unat (b_size a - sz - sizeof_HeapNode) = unat (b_size a) - unat sz - 11"
    using inside pos le(2) by (simp add: unat_sub_nowrap layout)
  have n: "node_magic ?m ?a = KHEAP_MAGIC" "node_size ?m ?a = b_size a" "node_next ?m ?a = b_addr b"
    using node_of_block [OF heap, of a] next_of_block [OF heap] by (simp_all add: node_at_def)
  have hc: "header ?c \<subseteq> contents a"
  proof
    fix x assume "x \<in> header ?c"
    then have "unat ?c \<le> unat x \<and> unat x < unat ?c + 11"
      using c e inside unat_lt_32 [of "b_addr b"] by (subst (asm) in_header) simp_all
    then show "x \<in> contents a"
      using c e inside unat_lt_32 [of "b_addr b"] by (subst in_contents) (simp_all add: block_end_def)
  qed
  have dis: "header ?c \<inter> headers (as @ a # b # bs) = {}"
    using hc contents_headers_disjoint [OF lay] by blast
  have "laid_out (a # b # bs)" using laid_out_append [OF lay] by simp
  then have da: "header ?a \<inter> headers (as @ b # bs) = {}"
    using laid_out_middle_disjoint [OF lay] laid_out_header_disjoint [of a "b # bs"] by auto
  define m' where "m' = resized_ram ?m ?a sz (b_size a - sz - sizeof_HeapNode) (b_addr b)"
  have path': "path m' (root_node h) (as @ a\<lparr>b_size := sz\<rparr> # c # b # bs) 0"
    unfolding m'_def c_def
  proof (rule resized_path)
    show "path ?m (root_node h) as ?a" "node_at ?m a" "path ?m (b_addr b) (b # bs) 0"
      using heap n(3) by (auto simp: heap_list_def)
    show "?c \<noteq> 0" using c by (metis add_is_0 unat_0 zero_neq_numeral)
  qed (use dis da in auto)
  have "no_adjacent_free (as @ a\<lparr>b_size := sz\<rparr> # c # b # bs)"
    using naf live no_adjacent_free_append [of as a "b # bs"] no_adjacent_free_append [of as "a\<lparr>b_size := sz\<rparr>" "c # b # bs"]
      no_adjacent_free_claim [of as a "a\<lparr>b_size := sz\<rparr>"] by simp
  then have "compactHeap (h\<lparr>ram := m'\<rparr>) = Some (h\<lparr>ram := m'\<rparr>)"
    using path' by (intro compactHeap_fixed) auto
  then have "kheapRealloc h (NODE_TO_CONTENTS ?a) sz = Some (Inr (NODE_TO_CONTENTS ?a, h\<lparr>ram := m'\<rparr>))"
    using n sz le delta by (simp add: kheapRealloc_def Let_def m'_def resized_ram_def)
  then show thesis
    by (rule that [of "h\<lparr>ram := m'\<rparr>"])
      (use path' c rest e in \<open>simp_all add: c_def split_off_def del: path.simps path_append\<close>)
qed

section \<open>Growing into the free end of the heap\<close>

lemma trailing_space_end:
  assumes "node_at m t" and "\<not> b_alloc t" and "node_next m (b_addr t) = 0"
  shows "trailing_space m (b_addr t) 0 = Some (0, sizeof_HeapNode + b_size t)"
  using assms by (simp add: trailing_space.simps [of m "b_addr t"] trailing_space.simps [of m 0] node_at_def)

lemma kheapRealloc_grows:
  assumes heap: "heap_list h (as @ [a, t])" and naf: "no_adjacent_free (as @ [a, t])"
    and live: "b_alloc a" "\<not> b_alloc t" and sz: "b_size a < sz" and room: "sz < b_size t"
    and small: "unat (b_size t) + 11 < 4294967296" "unat (b_addr a) + 22 + 11 * unat sz \<le> 4294967296"
  defines "c \<equiv> split_off (b_addr a) sz (b_size t - sz)"
  obtains h' where "kheapRealloc h (NODE_TO_CONTENTS (b_addr a)) sz = Some (Inr (NODE_TO_CONTENTS (b_addr a), h'))"
    and "path (ram h') (root_node h') (as @ [a\<lparr>b_size := sz\<rparr>, c]) 0"
    and "unat (b_addr c) = unat (b_addr a) + 11 + 11 * unat sz"
proof -
  let ?a = "b_addr a" and ?c = "node_ptr_plus (b_addr a) sz" and ?m = "ram h"
  let ?possible = "sizeof_HeapNode + b_size t"
  have lay: "laid_out (as @ [a, t])" using heap by (simp add: heap_list_def)
  have c: "unat ?c = unat ?a + 11 + 11 * unat sz" using small(2) by (intro node_ptr_plus_unat) linarith
  have possible: "unat ?possible = 11 + unat (b_size t)" using small(1) by (simp add: unat_add_nowrap layout)
  have le: "sz \<le> ?possible" "?possible - sz \<ge> sizeof_HeapNode + 1" "?possible - sz - sizeof_HeapNode = b_size t - sz"
    using room possible by (simp_all add: word_le_nat_alt word_less_nat_alt unat_sub_nowrap sizeof_HeapNode_def)
  have n: "node_magic ?m ?a = KHEAP_MAGIC" "node_size ?m ?a = b_size a" "node_next ?m ?a = b_addr t"
    "node_at ?m t" "node_next ?m (b_addr t) = 0"
    using heap by (auto simp: heap_list_def node_at_def)
  note trail = trailing_space_end [OF n(4) live(2) n(5)]
  define m' where "m' = resized_ram ?m ?a sz (b_size t - sz) 0"
  have path': "path m' (root_node h) (as @ a\<lparr>b_size := sz\<rparr> # c # []) 0"
    unfolding m'_def c_def
  proof (rule resized_path)
    show "path ?m (root_node h) as ?a" "node_at ?m a" using heap by (auto simp: heap_list_def)
    show "?c \<noteq> 0" using c by (metis add_is_0 unat_0 zero_neq_numeral)
    show "header ?a \<inter> header ?c = {}" using c small(2) sz by (intro headers_apart(1)) (simp_all add: word_less_nat_alt)
    have "header ?c \<inter> header (b_addr x) = {}" if x: "x \<in> set as" for x
      using laid_out_below [OF lay x] c small(2) by (intro headers_apart(2)) (simp_all add: block_end_def)
    then have "header ?c \<inter> headers as = {}" by (auto simp: headers_def)
    moreover have "header ?a \<inter> headers as = {}" using laid_out_middle_disjoint [OF lay] by auto
    ultimately show "(header ?a \<union> header ?c) \<inter> headers (as @ []) = {}" by auto
  qed simp
  have "no_adjacent_free (as @ [a\<lparr>b_size := sz\<rparr>, c])"
    using naf live no_adjacent_free_append [of as a "[t]"] no_adjacent_free_append [of as "a\<lparr>b_size := sz\<rparr>" "[c]"]
      no_adjacent_free_claim [of as a "a\<lparr>b_size := sz\<rparr>"] by simp
  then have "compactHeap (h\<lparr>ram := m'\<rparr>) = Some (h\<lparr>ram := m'\<rparr>)"
    using path' by (intro compactHeap_fixed) auto
  then have "kheapRealloc h (NODE_TO_CONTENTS ?a) sz = Some (Inr (NODE_TO_CONTENTS ?a, h\<lparr>ram := m'\<rparr>))"
    using n(1-3) sz le trail by (auto simp: kheapRealloc_def Let_def m'_def resized_ram_def)
  then show thesis
    by (rule that [of "h\<lparr>ram := m'\<rparr>"]) (use path' c in \<open>simp_all add: c_def split_off_def del: path.simps path_append\<close>)
qed

section \<open>Properties\<close>

text \<open>
  A block that is made smaller in place, and whose neighbour is in use, leaves an unallocated
  block that reaches over the neighbour. The new header, written when the rest is large enough
  for it, is eleven times the new size behind the start of the contents, where the new size is
  meant; its block has the size of the rest, so it ends ten times the new size past the start of
  the neighbour, and it is what the next request that fits it is served from, so that the
  neighbour's header and data are handed out again.
\<close>

theorem kheapRealloc_shrink_overlaps:
  assumes "heap_list h (as @ a # b # bs)" and "no_adjacent_free (as @ a # b # bs)"
    and "b_alloc a" and "b_alloc b" and "sz \<noteq> 0" and "11 * unat sz + 11 \<le> unat (b_size a)"
    and "\<forall>x \<in> set as. b_alloc x"
  shows "\<exists>h' c. kheapRealloc h (NODE_TO_CONTENTS (b_addr a)) sz = Some (Inr (NODE_TO_CONTENTS (b_addr a), h'))
    \<and> path (ram h') (root_node h') (as @ a\<lparr>b_size := sz\<rparr> # c # b # bs) 0 \<and> \<not> b_alloc c
    \<and> unat (b_addr c) = unat (b_addr a) + 11 + 11 * unat sz
    \<and> block_end c = unat (b_addr b) + 10 * unat sz
    \<and> (\<forall>k \<le> b_size c. find_free (ram h') k (root_node h') = Some (Found (b_addr c)))"
proof -
  let ?c = "split_off (b_addr a) sz (b_size a - sz - sizeof_HeapNode)"
  obtain h' where h': "kheapRealloc h (NODE_TO_CONTENTS (b_addr a)) sz = Some (Inr (NODE_TO_CONTENTS (b_addr a), h'))"
    "path (ram h') (root_node h') (as @ a\<lparr>b_size := sz\<rparr> # ?c # b # bs) 0"
    "unat (b_addr ?c) = unat (b_addr a) + 11 + 11 * unat sz" "unat (b_size ?c) = unat (b_size a) - unat sz - 11"
    "unat (b_addr b) = unat (b_addr a) + 11 + unat (b_size a)"
    by (rule kheapRealloc_shrinks [OF assms(1-6)])
  have "find (fits_request k) (as @ a\<lparr>b_size := sz\<rparr> # ?c # b # bs) = Some ?c" if "k \<le> b_size ?c" for k
    using assms(3,7) that by (induction as) (auto simp: fits_request_def split_off_def)
  then have "find_free (ram h') k (root_node h') = Some (Found (b_addr ?c))" if "k \<le> b_size ?c" for k
    using find_free_path [OF h'(2), of k] that by simp
  moreover have "0 < unat sz" using assms(5) by (simp add: unat_gt_0)
  then have "block_end ?c = unat (b_addr b) + 10 * unat sz"
    using h'(3-5) assms(6) by (simp add: block_end_def)
  moreover have "\<not> b_alloc ?c" by (simp add: split_off_def)
  ultimately show ?thesis using h'(1-3) by blast
qed

theorem kheapRealloc_shrink_overlaps_witness:
  "\<exists>h h' c bs. heap_reach h [100, 32] \<and> kheapRealloc h 0xf00000b 4 = Some (Inr (0xf00000b, h'))
     \<and> path (ram h') (root_node h') (\<lparr>b_addr = KHEAP_START, b_size = 4, b_alloc = True\<rparr> # c # bs) 0
     \<and> block_end c = unat (b_addr (hd bs)) + 40"
proof -
  obtain h1 h :: kheap where r: "heap_reach h [100, 32]"
    by (rule boot_heap_two [of 100 32]) (simp_all add: stack_room_def layout)
  then obtain s where hl:
    "heap_list h ([] @ served (top_block [] 0) 100 # served (top_block [100] 0) 32 # [top_block [100, 32] s])"
    by (auto elim: two_blocks)
  let ?a = "served (top_block [] 0) 100"
  have a: "NODE_TO_CONTENTS (b_addr ?a) = 0xf00000b" "?a\<lparr>b_size := 4\<rparr> = \<lparr>b_addr = KHEAP_START, b_size = 4, b_alloc = True\<rparr>"
    by (simp_all add: served_def top_block_def NODE_TO_CONTENTS_def KHEAP_START_def sizeof_HeapNode_def)
  have "\<exists>h' c. kheapRealloc h (NODE_TO_CONTENTS (b_addr ?a)) 4 = Some (Inr (NODE_TO_CONTENTS (b_addr ?a), h'))
    \<and> path (ram h') (root_node h') ([] @ ?a\<lparr>b_size := 4\<rparr> # c # served (top_block [100] 0) 32 # [top_block [100, 32] s]) 0
    \<and> \<not> b_alloc c \<and> unat (b_addr c) = unat (b_addr ?a) + 11 + 11 * unat (4 :: u32)
    \<and> block_end c = unat (b_addr (served (top_block [100] 0) 32)) + 10 * unat (4 :: u32)
    \<and> (\<forall>k \<le> b_size c. find_free (ram h') k (root_node h') = Some (Found (b_addr c)))"
    by (rule kheapRealloc_shrink_overlaps [OF hl]) (simp_all add: top_block_def served_def)
  then obtain h' c where "kheapRealloc h 0xf00000b 4 = Some (Inr (0xf00000b, h'))"
    "path (ram h') (root_node h') (\<lparr>b_addr = KHEAP_START, b_size = 4, b_alloc = True\<rparr> # c #
       [served (top_block [100] 0) 32, top_block [100, 32] s]) 0"
    "block_end c = unat (b_addr (hd [served (top_block [100] 0) 32, top_block [100, 32] s])) + 40"
    unfolding a append_Nil by (auto simp del: path.simps)
  then show ?thesis using r by blast
qed

text \<open>
  A block that is followed by the free end of the heap grows in place, and wastes ten times
  its new size: the pointer stays, the block has the new size, and the free end of the heap
  starts eleven times the new size behind the start of the contents, so that the bytes between
  belong to no block.
\<close>

theorem kheapRealloc_grow_leaks:
  assumes "heap_list h (as @ [a, t])" and "no_adjacent_free (as @ [a, t])" and "b_alloc a" and "\<not> b_alloc t"
    and "b_size a < sz" and "sz < b_size t" and "unat (b_size t) + 11 < 4294967296"
    and "unat (b_addr a) + 22 + 11 * unat sz \<le> 4294967296"
  shows "\<exists>h' c. kheapRealloc h (NODE_TO_CONTENTS (b_addr a)) sz = Some (Inr (NODE_TO_CONTENTS (b_addr a), h'))
    \<and> path (ram h') (root_node h') (as @ [a\<lparr>b_size := sz\<rparr>, c]) 0 \<and> \<not> b_alloc c
    \<and> unat (b_addr c) = block_end (a\<lparr>b_size := sz\<rparr>) + 10 * unat sz"
proof -
  let ?c = "split_off (b_addr a) sz (b_size t - sz)"
  obtain h' where "kheapRealloc h (NODE_TO_CONTENTS (b_addr a)) sz = Some (Inr (NODE_TO_CONTENTS (b_addr a), h'))"
    "path (ram h') (root_node h') (as @ [a\<lparr>b_size := sz\<rparr>, ?c]) 0"
    "unat (b_addr ?c) = unat (b_addr a) + 11 + 11 * unat sz"
    by (rule kheapRealloc_grows [OF assms])
  moreover from this(3) have "unat (b_addr ?c) = block_end (a\<lparr>b_size := sz\<rparr>) + 10 * unat sz"
    by (simp add: block_end_def)
  moreover have "\<not> b_alloc ?c" by (simp add: split_off_def)
  ultimately show ?thesis by blast
qed

theorem kheapRealloc_grow_leaks_witness:
  "\<exists>h1 h2 c. kheapAlloc boot_heap 100 = Some (Inr (0xf00000b, h1)) \<and> kheapRealloc h1 0xf00000b 150 = Some (Inr (0xf00000b, h2))
     \<and> path (ram h2) (root_node h2) [\<lparr>b_addr = KHEAP_START, b_size = 150, b_alloc = True\<rparr>, c] 0
     \<and> unat (b_addr c) = unat KHEAP_START + 11 + 150 + 1500"
proof -
  obtain h1 where r: "kheapAlloc boot_heap 100 = Some (Inr (stack_place [], h1))" "heap_reach h1 [100]"
    using heap_reach_Alloc [OF boot_heap_reach, of 100] by (auto simp: stack_room_def layout)
  let ?a = "served (top_block [] 0) 100"
  obtain s where hl: "heap_list h1 ([] @ [?a, top_block [100] s])" and ts: "top_size_ok [100] s"
    using heap_reach_stack [OF r(2)] by (auto simp: stack_heap_def stack_list_def served_def top_block_def)
  have a: "NODE_TO_CONTENTS (b_addr ?a) = 0xf00000b" "stack_place [] = 0xf00000b"
    "?a\<lparr>b_size := 150\<rparr> = \<lparr>b_addr = KHEAP_START, b_size = 150, b_alloc = True\<rparr>"
    by (simp_all add: served_def top_block_def NODE_TO_CONTENTS_def KHEAP_START_def sizeof_HeapNode_def stack_place_def)
  have fit: "fits_request 151 (top_block [100] s)"
    by (rule top_block_fits [OF _ ts]) (simp add: stack_room_def layout)
  have big: "unat s + 11 < 4294967296"
  proof -
    have "stack_top KHEAP_START [100] = 0xf00006f" by (simp add: KHEAP_START_def sizeof_HeapNode_def)
    then have "0xf00006f + s = KHEAP_END - sizeof_HeapNode \<or> 0xf00006f + s < KHEAP_START"
      using ts by (simp add: top_size_ok_def)
    then show ?thesis using unat_lt_32 [of s]
      by (auto simp: KHEAP_START_def KHEAP_END_def sizeof_HeapNode_def unat_arith_simps split: if_splits)
  qed
  have "\<exists>h' c. kheapRealloc h1 (NODE_TO_CONTENTS (b_addr ?a)) 150 = Some (Inr (NODE_TO_CONTENTS (b_addr ?a), h'))
    \<and> path (ram h') (root_node h') ([] @ [?a\<lparr>b_size := 150\<rparr>, c]) 0 \<and> \<not> b_alloc c
    \<and> unat (b_addr c) = block_end (?a\<lparr>b_size := 150\<rparr>) + 10 * unat (150 :: u32)"
    by (rule kheapRealloc_grow_leaks [OF hl])
      (use fit big in \<open>simp_all add: top_block_def served_def fits_request_def word_less_nat_alt word_le_nat_alt KHEAP_START_def\<close>)
  then show ?thesis using r(1) unfolding a append_Nil by (auto simp: block_end_def simp del: path.simps)
qed

end
