(* ===== verification/Kheap_Aligned.thy ===== *)
theory Kheap_Aligned
  imports Kheap_Resize
begin

text \<open>
  Aligned allocation. \<open>kheapAlignedAlloc\<close> looks for an aligned address behind a free block's header
  and puts the header of the new block there, so that the pointer it returns lies a header behind
  the aligned address. And \<open>kheapDump\<close>, which prints the list of blocks.
\<close>

section \<open>The space behind a block\<close>

lemma consumeEmptySpace_splits:
  fixes m :: mem and a :: addr
  assumes "(node_next m a - a) + node_size m a > sizeof_HeapNode"
    and "header a \<inter> header (a + sizeof_HeapNode + node_size m a) = {}"
  defines "c \<equiv> a + sizeof_HeapNode + node_size m a" and "m' \<equiv> consumeEmptySpace m a"
  shows "node_magic m' a = node_magic m a" "node_size m' a = node_size m a" "node_next m' a = c"
    "node_allocated m' a = node_allocated m a"
    "node_magic m' c = KHEAP_MAGIC" "node_size m' c = (node_next m a - a) + node_size m a - sizeof_HeapNode"
    "node_next m' c = node_next m a" "\<not> node_allocated m' c"
    "agree_off (header a \<union> header c) m m'"
proof -
  let ?m1 = "createNode m c ((node_next m a - a) + node_size m a - sizeof_HeapNode) (node_next m a) False"
  have eq: "m' = put_next ?m1 a c"
    using assms(1) by (simp add: m'_def consumeEmptySpace_def Let_def NODE_TO_CONTENTS_def c_def)
  have ag1: "agree_off (header c) m ?m1" and ag2: "agree_off (header a) ?m1 m'" by (simp_all add: eq frame)
  have dis: "header c \<inter> header a = {}" "header a \<inter> header c = {}" using assms(2) by (auto simp: c_def)
  note at_a = node_frame [OF ag1 dis(1)] and at_c = node_frame [OF ag2 dis(2)]
  show "node_magic m' a = node_magic m a" "node_size m' a = node_size m a" "node_next m' a = c"
    "node_allocated m' a = node_allocated m a" by (simp_all add: eq at_a)
  show "node_magic m' c = KHEAP_MAGIC" "node_size m' c = (node_next m a - a) + node_size m a - sizeof_HeapNode"
    "node_next m' c = node_next m a" "\<not> node_allocated m' c" by (simp_all add: at_c)
  show "agree_off (header a \<union> header c) m m'"
    by (rule agree_off_mono [OF agree_off_trans [OF ag1 ag2]]) auto
qed

section \<open>The search\<close>

definition fits_aligned :: "u32 \<Rightarrow> block \<Rightarrow> bool" where
  "fits_aligned n b \<longleftrightarrow> \<not> b_alloc b \<and> b_size b \<ge> sizeof_HeapNode + n"

text \<open>The offset of the new header from the contents of the block it is taken from.\<close>

definition align_offset :: "u32 \<Rightarrow> addr \<Rightarrow> u32" where
  "align_offset al a = (let d = al - a mod al in if d = al then 0 else d)"

lemma align_offset_eq: "align_offset al a = (if a mod al = 0 then 0 else al - a mod al)"
  by (auto simp: align_offset_def Let_def)

lemma align_offset_unat:
  assumes "al \<noteq> 0"
  shows "unat (align_offset al a) < unat al" and "unat al dvd unat a + unat (align_offset al a)"
proof -
  have al: "0 < unat al" using assms by (simp add: unat_gt_0)
  have r: "unat (a mod al) = unat a mod unat al" "unat a mod unat al < unat al"
    using al by (simp_all add: unat_mod)
  have split: "unat a = unat a div unat al * unat al + unat a mod unat al" by simp
  have "unat (align_offset al a) < unat al \<and> unat al dvd unat a + unat (align_offset al a)"
  proof (cases "a mod al = 0")
    case True
    then have "unat a mod unat al = 0" using r(1) by simp
    then show ?thesis using True al by (simp add: align_offset_eq mod_eq_0_iff_dvd)
  next
    case False
    then have "0 < unat (a mod al)" using unat_gt_0 [of "a mod al"] by blast
    then have pos: "0 < unat a mod unat al" by (simp only: r(1))
    have "unat (align_offset al a) = unat al - unat a mod unat al"
      using False r by (simp add: align_offset_eq unat_sub_nowrap word_le_nat_alt)
    moreover from this have "unat a + unat (align_offset al a) = unat a div unat al * unat al + unat al"
      using r(2) split by linarith
    ultimately show ?thesis using pos al by simp
  qed
  then show "unat (align_offset al a) < unat al" "unat al dvd unat a + unat (align_offset al a)" by blast+
qed

lemma find_aligned_skip:
  "path m p as q \<Longrightarrow> \<forall>a \<in> set as. \<not> fits_aligned n a \<Longrightarrow> find_aligned m n al p out = find_aligned m n al q out"
proof (induction as arbitrary: p)
  case (Cons a as)
  then have a: "p \<noteq> 0" "node_magic m p = KHEAP_MAGIC" "node_size m p = b_size a"
    "node_allocated m p = b_alloc a" "path m (node_next m p) as q" "\<not> fits_aligned n a"
    by (auto simp: node_at_def)
  have "find_aligned m n al p out = find_aligned m n al (node_next m p) out"
    using a by (subst find_aligned.simps) (auto simp: fits_aligned_def)
  then show ?case using Cons.IH [OF a(5)] Cons.prems(2) by simp
qed simp

lemma aligned_message:
  "\<exists>line. kprintf ''offset: %u, alignment: %u, first_byte_addr: %x\<newline>'' [Va_int a, Va_int b, Va_int c] = Some line"
proof -
  have "\<exists>t. kvsprintf ''offset: %u, alignment: %u, first_byte_addr: %x\<newline>'' [Va_int a, Va_int b, Va_int c] = Some (t, True)"
    by (simp add: kvsprintf_def)
  then obtain t where "kvsprintf ''offset: %u, alignment: %u, first_byte_addr: %x\<newline>'' [Va_int a, Va_int b, Va_int c] = Some (t, True)"
    by blast
  from kprintf_terminated [OF this] show ?thesis by simp
qed

lemma find_aligned_found:
  assumes "node_at m t" and "fits_aligned n t" and "al \<noteq> 0"
    and "b_size t - align_offset al (NODE_TO_CONTENTS (b_addr t)) \<ge> sizeof_HeapNode + n"
  obtains out' where "find_aligned m n al (b_addr t) out
      = Some (Fits (b_addr t) (NODE_TO_CONTENTS (b_addr t) + align_offset al (NODE_TO_CONTENTS (b_addr t))), out')"
proof -
  obtain line where "kprintf ''offset: %u, alignment: %u, first_byte_addr: %x\<newline>''
      [Va_int (align_offset al (NODE_TO_CONTENTS (b_addr t))), Va_int al, Va_int (NODE_TO_CONTENTS (b_addr t))] = Some line"
    using aligned_message by blast
  then have "find_aligned m n al (b_addr t) out
      = Some (Fits (b_addr t) (NODE_TO_CONTENTS (b_addr t) + align_offset al (NODE_TO_CONTENTS (b_addr t))), out @ line)"
    using assms unfolding align_offset_eq
    by (subst find_aligned.simps) (auto simp: node_at_def fits_aligned_def Let_def)
  then show thesis by (rule that)
qed

section \<open>The new block and the gap in front of it\<close>

definition placed_ram :: "mem \<Rightarrow> addr \<Rightarrow> addr \<Rightarrow> u32 \<Rightarrow> addr \<Rightarrow> mem" where
  "placed_ram m a c n nxt =
     put_next (put_size (createNode m c n nxt True) a ((c - a) - sizeof_HeapNode)) a c"

lemma placed_ram_nodes:
  fixes m :: mem and n :: u32 and nxt :: addr
  assumes "header a \<inter> header c = {}"
  defines "m' \<equiv> placed_ram m a c n nxt"
  shows "node_magic m' a = node_magic m a" "node_size m' a = (c - a) - sizeof_HeapNode" "node_next m' a = c"
    "node_allocated m' a = node_allocated m a"
    "node_magic m' c = KHEAP_MAGIC" "node_size m' c = n" "node_next m' c = nxt" "node_allocated m' c"
    "agree_off (header a \<union> header c) m m'"
proof -
  let ?m1 = "createNode m c n nxt True"
  have eq: "m' = put_next (put_size ?m1 a ((c - a) - sizeof_HeapNode)) a c" by (simp add: m'_def placed_ram_def)
  have ag1: "agree_off (header c) m ?m1" by (simp add: frame)
  have ag2: "agree_off (header a) ?m1 m'"
    unfolding eq by (rule agree_off_trans_same [OF put_agree_header(2) put_agree_header(3)])
  have dis: "header c \<inter> header a = {}" "header a \<inter> header c = {}" using assms(1) by auto
  note at_a = node_frame [OF ag1 dis(1)] and at_c = node_frame [OF ag2 dis(2)]
  show "node_magic m' a = node_magic m a" "node_size m' a = (c - a) - sizeof_HeapNode" "node_next m' a = c"
    "node_allocated m' a = node_allocated m a" by (simp_all add: eq at_a)
  show "node_magic m' c = KHEAP_MAGIC" "node_size m' c = n" "node_next m' c = nxt" "node_allocated m' c"
    by (simp_all add: at_c)
  show "agree_off (header a \<union> header c) m m'"
    by (rule agree_off_mono [OF agree_off_trans [OF ag1 ag2]]) auto
qed

text \<open>The three blocks that the last block becomes.\<close>

definition aligned_blocks :: "block \<Rightarrow> addr \<Rightarrow> u32 \<Rightarrow> block list" where
  "aligned_blocks t c n =
     [t\<lparr>b_size := (c - b_addr t) - sizeof_HeapNode\<rparr>, \<lparr>b_addr = c, b_size = n, b_alloc = True\<rparr>, tail_after c n]"

lemma aligned_ram_path:
  assumes "path m p as (b_addr t)" and "node_at m t" and "node_next m (b_addr t) = 0" and "laid_out (as @ [t])"
    and "unat (b_addr t) + 11 \<le> unat c" and "unat c + 22 + unat n \<le> 4294967296" and "unat n < unat c"
  shows "path (consumeEmptySpace (placed_ram m (b_addr t) c n 0) c) p (as @ aligned_blocks t c n) 0"
    and "laid_out (as @ aligned_blocks t c n)"
proof -
  let ?a = "b_addr t" and ?d = "c + sizeof_HeapNode + n"
  let ?m1 = "placed_ram m (b_addr t) c n 0"
  let ?m2 = "consumeEmptySpace ?m1 c"
  note ta = tail_addresses [OF assms(6,7)]
  have ac: "header ?a \<inter> header c = {}" and ad: "header ?a \<inter> header ?d = {}"
    using assms(5,6) ta(1) by (intro headers_apart(1); simp)+
  note r = placed_ram_nodes [OF ac, of m n 0]
  have n1: "node_size ?m1 c = n" "node_next ?m1 c = 0" by (fact r(6,7))+
  have gt: "(node_next ?m1 c - c) + node_size ?m1 c > sizeof_HeapNode" using ta(2) by (simp add: n1)
  have cd: "header c \<inter> header (c + sizeof_HeapNode + node_size ?m1 c) = {}" using ta(3) by (simp add: n1)
  note s = consumeEmptySpace_splits [OF gt cd, unfolded n1]
  have below: "header x \<inter> headers as = {}" if "unat ?a \<le> unat x" "unat x + 11 \<le> 4294967296" for x
  proof -
    have "header x \<inter> header (b_addr y) = {}" if y: "y \<in> set as" for y
      using laid_out_below [OF assms(4) y] \<open>unat ?a \<le> unat x\<close> \<open>unat x + 11 \<le> 4294967296\<close>
      by (intro headers_apart(2)) (simp_all add: block_end_def)
    then show ?thesis by (auto simp: headers_def)
  qed
  have "header ?a \<inter> headers as = {}" "header c \<inter> headers as = {}" "header ?d \<inter> headers as = {}"
    using assms(5,6) ta(1) by (intro below; simp)+
  then have dis1: "(header ?a \<union> header c) \<inter> headers as = {}" and dis2: "(header c \<union> header ?d) \<inter> headers as = {}"
    by auto
  have pa: "path ?m2 p as ?a" using path_frame [OF s(9) dis2] path_frame [OF r(9) dis1] assms(1) by simp
  have fa: "(header c \<union> header ?d) \<inter> header ?a = {}" using ac ad by auto
  note at_a = node_frame [OF s(9) fa]
  have size: "n - c - sizeof_HeapNode = (0 - c) + n - sizeof_HeapNode" by simp
  have nz: "?a \<noteq> 0" "c \<noteq> 0" "?d \<noteq> 0"
    using assms(2,5) ta(1) by (auto simp: node_at_def)
  show "path ?m2 p (as @ aligned_blocks t c n) 0"
    using pa at_a r s(1-8) assms(2) nz by (auto simp: aligned_blocks_def node_at_def tail_after_def)
  have "unat (c - ?a) = unat c - unat ?a" using assms(5) by (intro unat_sub_nowrap) simp
  then have "unat ((c - ?a) - sizeof_HeapNode) = unat c - unat ?a - 11"
    using assms(5) by (simp add: unat_sub_nowrap layout)
  then have "laid_out (aligned_blocks t c n)"
    using assms(5,6) ta(1) by (simp add: aligned_blocks_def tail_after_def block_end_def)
  then show "laid_out (as @ aligned_blocks t c n)"
    using laid_out_replace_last [OF assms(4)] by (simp add: aligned_blocks_def)
qed

lemma no_adjacent_free_allocated:
  "\<forall>a \<in> set as. b_alloc a \<Longrightarrow> no_adjacent_free bs \<Longrightarrow> no_adjacent_free (as @ bs)"
proof (induction as)
  case (Cons a as)
  then show ?case by (cases "as @ bs") auto
qed simp

lemma kheapAlignedAlloc_serves:
  assumes heap: "heap_list h (as @ [t])" and as: "\<forall>x \<in> set as. b_alloc x" and t: "\<not> b_alloc t" and al: "al \<noteq> 0"
    and size: "unat n + 11 + unat al \<le> unat (b_size t)"
    and room: "unat (b_addr t) + 33 + unat al + unat n \<le> 4294967296" "unat n < unat (b_addr t)"
  obtains h' c where "kheapAlignedAlloc h n al = Some (Inr (NODE_TO_CONTENTS c, h'))"
    and "heap_list h' (as @ aligned_blocks t c n)" and "unat al dvd unat c" and "unat (NODE_TO_CONTENTS c) = unat c + 11"
proof -
  let ?a = "b_addr t" and ?m = "ram h"
  define off where "off = align_offset al (NODE_TO_CONTENTS ?a)"
  define c where "c = NODE_TO_CONTENTS ?a + off"
  note o = align_offset_unat [OF al, of "NODE_TO_CONTENTS ?a", folded off_def]
  have f: "unat (NODE_TO_CONTENTS ?a) = unat ?a + 11"
    using room(1) by (simp add: NODE_TO_CONTENTS_def unat_add_nowrap layout)
  then have c: "unat c = unat ?a + 11 + unat off" using room(1) o(1) by (simp add: c_def unat_add_nowrap)
  then have dvd: "unat al dvd unat c" using o(2) f by simp
  have fits: "fits_aligned n t"
    using t size room by (simp add: fits_aligned_def word_le_nat_alt unat_add_nowrap layout)
  have left: "b_size t - off \<ge> sizeof_HeapNode + n"
    using size room o(1) by (simp add: word_le_nat_alt unat_add_nowrap unat_sub_nowrap layout)
  have p: "path ?m (root_node h) as ?a" "node_at ?m t" "node_next ?m ?a = 0" "laid_out (as @ [t])"
    using heap by (auto simp: heap_list_def)
  have "\<forall>x \<in> set as. \<not> fits_aligned n x" using as by (simp add: fits_aligned_def)
  from find_aligned_skip [OF p(1) this] obtain out where
    find: "find_aligned ?m n al (root_node h) (console h) = Some (Fits ?a c, out)"
    using find_aligned_found [OF p(2) fits al left [unfolded off_def]] by (metis c_def off_def)
  have cs: "unat ?a + 11 \<le> unat c" "unat c + 22 + unat n \<le> 4294967296" "unat n < unat c"
    using c o(1) room by simp_all
  define h' where "h' = h\<lparr>ram := consumeEmptySpace (placed_ram ?m ?a c n 0) c, console := out\<rparr>"
  have hl: "heap_list h' (as @ aligned_blocks t c n)"
    using aligned_ram_path [OF p cs] by (simp add: heap_list_def h'_def)
  have "no_adjacent_free (as @ aligned_blocks t c n)"
    using as by (intro no_adjacent_free_allocated) (simp_all add: aligned_blocks_def)
  then have "compactHeap h' = Some h'"
    using hl compactHeap_fixed [of h' "as @ aligned_blocks t c n"] by (simp only: heap_list_def)
  then have "kheapAlignedAlloc h n al = Some (Inr (NODE_TO_CONTENTS c, h'))"
    using find p(3) by (simp add: kheapAlignedAlloc_def Let_def placed_ram_def h'_def)
  moreover have "unat (NODE_TO_CONTENTS c) = unat c + 11"
    using cs(2) by (simp add: NODE_TO_CONTENTS_def unat_add_nowrap layout)
  ultimately show thesis using hl dvd by (intro that)
qed

section \<open>Dumping the list\<close>

definition dump_line :: "block \<Rightarrow> addr \<Rightarrow> string option" where
  "dump_line b nxt = kprintf ''Node (%x):\<newline>  Magic: %x\<newline>  Next: %x\<newline>  Size: %u\<newline>  Alloc: %s\<newline>''
     [Va_int (b_addr b), Va_int (ucast KHEAP_MAGIC), Va_int nxt, Va_int (b_size b),
      Va_str (if b_alloc b then ''yes'' else ''no'')]"

definition dump_lines :: "block list \<Rightarrow> string" where
  "dump_lines bs = concat (map2 (\<lambda>b nxt. the (dump_line b nxt)) bs (map b_addr (tl bs) @ [0]))"

lemma dump_line_Some: "dump_line b nxt = Some (the (dump_line b nxt))"
proof -
  have "\<exists>t. kvsprintf ''Node (%x):\<newline>  Magic: %x\<newline>  Next: %x\<newline>  Size: %u\<newline>  Alloc: %s\<newline>''
     [Va_int (b_addr b), Va_int (ucast KHEAP_MAGIC), Va_int nxt, Va_int (b_size b),
      Va_str (if b_alloc b then ''yes'' else ''no'')] = Some (t, True)"
    by (simp add: kvsprintf_def)
  then obtain t where "kvsprintf ''Node (%x):\<newline>  Magic: %x\<newline>  Next: %x\<newline>  Size: %u\<newline>  Alloc: %s\<newline>''
     [Va_int (b_addr b), Va_int (ucast KHEAP_MAGIC), Va_int nxt, Va_int (b_size b),
      Va_str (if b_alloc b then ''yes'' else ''no'')] = Some (t, True)"
    by blast
  from kprintf_terminated [OF this] show ?thesis by (simp add: dump_line_def)
qed

lemma kheapDump_loop_lists:
  "path m p bs 0 \<Longrightarrow> kheapDump_loop m p out = Some (out @ dump_lines bs)"
proof (induction bs arbitrary: p out)
  case Nil
  then show ?case by (simp add: kheapDump_loop.simps dump_lines_def)
next
  case (Cons b bs)
  then have b: "p \<noteq> 0" "b_addr b = p" "node_magic m p = KHEAP_MAGIC" "node_size m p = b_size b"
    "node_allocated m p = b_alloc b" and rest: "path m (node_next m p) bs 0"
    by (auto simp: node_at_def)
  have nxt: "node_next m p = hd (map b_addr bs @ [0])" using rest by (cases bs) auto
  have "kheapDump_loop m p out = Option.bind (dump_line b (node_next m p)) (\<lambda>line. kheapDump_loop m (node_next m p) (out @ line))"
    using b by (subst kheapDump_loop.simps) (simp add: dump_line_def)
  also have "\<dots> = Some (out @ the (dump_line b (node_next m p)) @ dump_lines bs)"
    by (subst dump_line_Some) (simp add: Cons.IH [OF rest])
  also have "the (dump_line b (node_next m p)) @ dump_lines bs = dump_lines (b # bs)"
    unfolding nxt dump_lines_def by (cases bs) simp_all
  finally show ?case .
qed

text \<open>\<open>kheapDump\<close> returns on every heap and prints its blocks in order, and changes nothing else.\<close>

lemma kheapDump_lists:
  assumes "heap_list h bs"
  shows "kheapDump h = Some (h\<lparr>console := console h @ dump_lines bs\<rparr>)"
  using assms kheapDump_loop_lists [of "ram h" "root_node h" bs "console h"]
  by (simp add: kheapDump_def heap_list_def)

section \<open>The property\<close>

text \<open>
  C10: \<open>kheapAlignedAlloc\<close> returns a pointer a header behind the aligned address. In every heap a
  client reaches by last-in first-out use, a request that fits below \<open>KHEAP_END\<close> with its
  alignment and three headers is served from the free end of the heap, which becomes an
  unallocated gap, the block, and the new free end; the header of the block lies on a multiple of
  the alignment, so its contents, and the pointer returned, lie eleven bytes past one.
\<close>

theorem kheapAlignedAlloc_misaligned:
  assumes "heap_reach h ns" and "al \<noteq> 0"
    and "unat KHEAP_START + depth ns + 33 + unat al + unat n \<le> unat KHEAP_END"
  shows "\<exists>h' p s. kheapAlignedAlloc h n al = Some (Inr (p, h'))
    \<and> heap_list h' (stack_blocks KHEAP_START ns @ aligned_blocks (top_block ns s) (CONTENTS_TO_NODE p) n)
    \<and> unat al dvd unat (CONTENTS_TO_NODE p) \<and> unat p mod unat al = 11 mod unat al"
proof -
  let ?t = "stack_top KHEAP_START ns"
  obtain s where s: "heap_list h (stack_list ns s)" "top_size_ok ns s"
    using heap_reach_stack [OF assms(1)] by (auto simp: stack_heap_def)
  have t: "unat ?t = unat KHEAP_START + depth ns"
    using assms(3) by (intro unat_stack_top) (simp add: layout)
  have request: "unat (n + 11 + al) = unat n + 11 + unat al"
    using assms(3) by (simp add: unat_add_nowrap layout)
  then have "fits_request (n + 11 + al) (top_block ns s)"
    using assms(3) by (intro top_block_fits [OF _ s(2)]) (simp add: stack_room_def)
  then have size: "unat n + 11 + unat al \<le> unat s"
    using request by (simp add: fits_request_def top_block_def word_le_nat_alt)
  obtain h' c where "kheapAlignedAlloc h n al = Some (Inr (NODE_TO_CONTENTS c, h'))"
    "heap_list h' (stack_blocks KHEAP_START ns @ aligned_blocks (top_block ns s) c n)"
    "unat al dvd unat c" "unat (NODE_TO_CONTENTS c) = unat c + 11"
    by (rule kheapAlignedAlloc_serves [OF s(1) [unfolded stack_list_def] _ _ assms(2), of n])
      (use stack_blocks_alloc size t assms(3) in \<open>auto simp: top_block_def layout\<close>)
  then show ?thesis
    by (intro exI [of _ h'] exI [of _ "NODE_TO_CONTENTS c"] exI [of _ s]) (auto elim!: dvdE)
qed

theorem kheapAlignedAlloc_misaligned_witness:
  "\<exists>h' p. kheapAlignedAlloc boot_heap 100 4096 = Some (Inr (p, h')) \<and> unat p mod 4096 = 11"
proof -
  obtain h' p s where "kheapAlignedAlloc boot_heap 100 4096 = Some (Inr (p, h'))"
    "unat p mod unat (4096 :: u32) = 11 mod unat (4096 :: u32)"
    using kheapAlignedAlloc_misaligned [OF boot_heap_reach, of 4096 100] by (auto simp: layout)
  then show ?thesis by auto
qed

end
