(* ===== verification/Kheap_Bounds.thy ===== *)
theory Kheap_Bounds
  imports Kheap_Props
begin

text \<open>
  The end of the heap. The first request that is served leaves a free block whose size has
  nothing to do with \<open>KHEAP_END\<close>, and nothing else checks that bound.
\<close>

text \<open>The free block at the top after a request is larger than any request below \<open>KHEAP_START\<close>.\<close>

lemma top_size_lost:
  fixes t s n k :: u32
  assumes "t + s = 2 * n" and "unat KHEAP_START \<le> unat t" and "unat t \<le> unat KHEAP_END" and "2 * unat n < unat KHEAP_START"
    and "unat k < unat KHEAP_START"
  shows "k \<le> s"
proof -
  have "unat (2 * n) = 2 * unat n" using assms(4) by (simp add: unat_word_ariths layout)
  then have "unat (2 * n - t) = 4294967296 + 2 * unat n - unat t"
    using assms(2,4) unat_sub_wrap [of "2 * n" t] by simp
  moreover have "s = 2 * n - t" using assms(1) by (simp add: algebra_simps)
  ultimately show ?thesis using assms(3,5) by (simp add: word_le_nat_alt layout)
qed

lemma kheapAlloc_past_end:
  assumes inv: "stack_heap h ns" and room: "stack_room ns n" and k: "unat k < unat KHEAP_START"
  obtains h1 h2 s where "kheapAlloc h n = Some (Inr (stack_place ns, h1))"
    and "kheapAlloc h1 k = Some (Inr (stack_place (ns @ [n]), h2))"
    and "heap_list h2 (stack_list (ns @ [n, k]) s)"
    and "unat (stack_place (ns @ [n])) = unat KHEAP_START + depth ns + unat n + 22"
proof -
  obtain s where s: "heap_list h (stack_list ns s)" "top_size_ok ns s"
    using inv by (auto simp: stack_heap_def)
  have r: "unat KHEAP_START + depth ns + 22 + unat n \<le> unat KHEAP_END"
    using room by (simp add: stack_room_def)
  have ut: "unat (stack_top KHEAP_START ns) = unat KHEAP_START + depth ns"
    "unat (stack_top KHEAP_START (ns @ [n])) = unat KHEAP_START + depth ns + 11 + unat n"
    using r unat_stack_top [of KHEAP_START ns] unat_stack_top [of KHEAP_START "ns @ [n]"] by (simp_all add: layout)
  obtain h1 s1 where h1: "kheapAlloc h n = Some (Inr (stack_place ns, h1))" "heap_list h1 (stack_list (ns @ [n]) s1)"
    "stack_top KHEAP_START (ns @ [n]) + s1 = 2 * n"
    by (rule kheapAlloc_top [OF s(1) top_block_fits [OF room s(2)]]) (use r ut in \<open>auto simp: layout\<close>)
  have "k \<le> s1" by (rule top_size_lost [OF h1(3)]) (use r k ut in \<open>simp_all add: layout\<close>)
  then have fit: "fits_request k (top_block (ns @ [n]) s1)" by (simp add: fits_request_def top_block_def)
  obtain h2 s2 where h2: "kheapAlloc h1 k = Some (Inr (stack_place (ns @ [n]), h2))"
    "heap_list h2 (stack_list ((ns @ [n]) @ [k]) s2)"
    by (rule kheapAlloc_top [OF h1(2) fit]) (use r k ut in \<open>auto simp: layout\<close>)
  have "unat (stack_place (ns @ [n])) = unat KHEAP_START + depth ns + unat n + 22"
    using r by (subst stack_place_unat) simp_all
  from that [OF h1(1) h2(1) _ this] show thesis using h2(2) by simp
qed

text \<open>
  C11: \<open>KHEAP_END\<close> bounds the first request only. In every heap a client reaches by last-in
  first-out use, once a request has been served below \<open>KHEAP_END\<close> the next one is served whatever
  its size below \<open>KHEAP_START\<close> (240 MiB, in a heap of 16 MiB), behind the block of the first: the
  panic for a heap that ran out of space is out of reach, and the block given out ends past
  \<open>KHEAP_END\<close> when the request is too large for the heap.
\<close>

theorem kheapAlloc_ignores_end:
  assumes "heap_reach h ns" and "stack_room ns n" and "unat k < unat KHEAP_START"
  shows "\<exists>h1 h2 p s. kheapAlloc h n = Some (Inr (stack_place ns, h1)) \<and> kheapAlloc h1 k = Some (Inr (p, h2))
    \<and> heap_list h2 (stack_blocks KHEAP_START (ns @ [n, k]) @ [top_block (ns @ [n, k]) s])
    \<and> unat p = unat (stack_place ns) + unat n + 11"
proof -
  obtain h1 h2 s where h: "kheapAlloc h n = Some (Inr (stack_place ns, h1))"
    "kheapAlloc h1 k = Some (Inr (stack_place (ns @ [n]), h2))" "heap_list h2 (stack_list (ns @ [n, k]) s)"
    "unat (stack_place (ns @ [n])) = unat KHEAP_START + depth ns + unat n + 22"
    by (rule kheapAlloc_past_end [OF heap_reach_stack [OF assms(1)] assms(2,3)])
  have "unat (stack_place ns) = unat KHEAP_START + depth ns + 11"
    using assms(2) by (intro stack_place_unat) (simp add: stack_room_def)
  then have "unat (stack_place (ns @ [n])) = unat (stack_place ns) + unat n + 11" using h(4) by simp
  then show ?thesis using h(1-3) unfolding stack_list_def by blast
qed

text \<open>128 MiB from the heap of 16 MiB, after 16 bytes.\<close>

theorem kheapAlloc_ignores_end_witness:
  "\<exists>h1 h2 p. kheapAlloc boot_heap 16 = Some (Inr (0xf00000b, h1))
     \<and> kheapAlloc h1 0x8000000 = Some (Inr (p, h2)) \<and> unat KHEAP_END < unat p + unat (0x8000000 :: u32)"
proof -
  have p: "stack_place [] = 0xf00000b"
    by (simp add: stack_place_def NODE_TO_CONTENTS_def KHEAP_START_def sizeof_HeapNode_def)
  have "stack_room [] 16" "unat (0x8000000 :: u32) < unat KHEAP_START" by (simp_all add: stack_room_def layout)
  from kheapAlloc_ignores_end [OF boot_heap_reach this] obtain h1 h2 p where
    "kheapAlloc boot_heap 16 = Some (Inr (0xf00000b, h1))" "kheapAlloc h1 0x8000000 = Some (Inr (p, h2))"
    "unat p = unat (0xf00000b :: u32) + unat (16 :: u32) + 11"
    unfolding p by blast
  then show ?thesis by (auto simp: layout)
qed

end
