(* ===== verification/Keyboard.thy ===== *)
theory Keyboard
  imports Tio Kstdio
begin

text \<open>
  The PS/2 keyboard (\<open>src/keyboard_io.c\<close>): the queue of scan codes filled by the interrupt
  handler, the decoding of codes to keys with the state of every key, and the line editor.
  The scan codes that arrive while \<open>kbGetLine\<close> runs are a parameter. \<open>None\<close> is an access
  outside a table or buffer, or a call still waiting when the arrivals end.
\<close>

section \<open>Tables\<close>

definition scancode_set1 :: string where
  "scancode_set1 =
     ''??123456''
     @ ''7890-=??''
     @ ''qwertyui''
     @ ''op[]??as''
     @ ''dfghjkl;''
     @ [CHR 0x27] @ [CHR 0x60] @ ''?'' @ [CHR 0x5C] @ ''zxcv''
     @ ''bnm,./?*''
     @ ''? ??????''
     @ ''???????7''
     @ ''89-456+1''
     @ ''230.????''
     @ ''??''"

definition uppercase_scancode_set1 :: string where
  "uppercase_scancode_set1 =
     ''??!@#$%^''
     @ ''&*()_+  ''
     @ ''QWERTYUI''
     @ ''OP{}??AS''
     @ ''DFGHJKL;''
     @ [CHR 0x22] @ ''~?|ZXCV''
     @ ''BNM<>??*''
     @ ''? ??????''
     @ ''???????7''
     @ ''89-456+1''
     @ ''230.????''
     @ ''?''"

definition scancode_set1ToMapped :: "u8 list" where
  "scancode_set1ToMapped =
     [0xff, 0x00, 0x21, 0x22, 0x23, 0x24, 0x25, 0x26,
      0x27, 0x28, 0x29, 0x2a, 0x2b, 0x2c, 0x2d, 0x40,
      0x41, 0x42, 0x43, 0x44, 0x45, 0x46, 0x47, 0x48,
      0x49, 0x4a, 0x4b, 0x4c, 0x6c, 0xa0, 0x61, 0x62,
      0x63, 0x64, 0x65, 0x66, 0x67, 0x68, 0x69, 0x6a,
      0x6b, 0x20, 0x80, 0x4d, 0x81, 0x82, 0x83, 0x84,
      0x85, 0x86, 0x87, 0x88, 0x89, 0x8a, 0x8b, 0x33,
      0xa2, 0xa3, 0x60, 0x01, 0x02, 0x03, 0x04, 0x05,
      0x06, 0x07, 0x08, 0x09, 0x0a, 0x31, 0x0e, 0x51,
      0x52, 0x53, 0x34, 0x6d, 0x6e, 0x6f, 0x8c, 0x8d,
      0x8e, 0x6b, 0x6c, 0xff, 0xff, 0xff, 0x0b, 0x0c]"

text \<open>
  The packed structure \<open>special_keys_to_mapped\<close> as the 120 bytes it is read as: the named
  fields at the offsets of their scan codes, 0 elsewhere.
\<close>

definition special_fields :: "(nat \<times> u8) list" where
  "special_fields = [(0x35, 0x32), (0x38, 0xa4), (0x47, 0x2f), (0x48, 0x8c), (0x49, 0x30), (0x4b, 0xa8),
     (0x4d, 0xaa), (0x4f, 0x4f), (0x50, 0xa9), (0x51, 0x50), (0x52, 0x2e), (0x53, 0x4e)]"

definition special_keys_to_mapped :: "u8 list" where
  "special_keys_to_mapped = fold (\<lambda>(i, v) xs. xs[i := v]) special_fields (replicate 120 0)"

definition set1ToMapped :: "u8 \<Rightarrow> u8 option" where
  "set1ToMapped scancode1 = nth_opt scancode_set1ToMapped (unat scancode1)"

definition specialToMapped :: "u8 \<Rightarrow> u8 option" where
  "specialToMapped scancode1 = nth_opt special_keys_to_mapped (unat scancode1)"

definition KEY_L_SHIFT :: u8 where "KEY_L_SHIFT = 0x80"
definition KEY_R_SHIFT :: u8 where "KEY_R_SHIFT = 0x8B"
definition KEY_CAPS :: u8 where "KEY_CAPS = 0x60"
definition KEY_BACKSPACE :: u8 where "KEY_BACKSPACE = 0x2D"
definition KEY_ENTER :: u8 where "KEY_ENTER = 0x6c"
definition KEY_ARROW_UP :: u8 where "KEY_ARROW_UP = 0x8c"
definition KEY_ARROW_LEFT :: u8 where "KEY_ARROW_LEFT = 0xa8"
definition KEY_ARROW_RIGHT :: u8 where "KEY_ARROW_RIGHT = 0xaa"
definition KEY_ARROW_DOWN :: u8 where "KEY_ARROW_DOWN = 0xa9"

section \<open>State\<close>

record MappedKey =
  mapped_code :: u8
  scancode :: u8
  e0_key :: bool
  printable :: bool
  down_stroke :: bool
  capitalized :: bool

definition no_key :: MappedKey where
  "no_key = \<lparr>mapped_code = 0, scancode = 0, e0_key = False, printable = False, down_stroke = False,
     capitalized = False\<rparr>"

text \<open>The two indices are \<open>uint8_t\<close>, so they wrap at the size of the queue.\<close>

record keyboard =
  key_states :: "bool list"
  scancode_queue :: "u8 list"
  queue_widx :: u8
  queue_ridx :: u8
  keyboard_initialized :: bool
  keyboard_state :: int
  kb_tio :: tio

definition kb_machine :: "keyboard \<Rightarrow> machine" where
  "kb_machine k = tio_cpu (kb_tio k)"

definition kb_set_machine :: "keyboard \<Rightarrow> machine \<Rightarrow> keyboard" where
  "kb_set_machine k m = k\<lparr>kb_tio := (kb_tio k)\<lparr>tio_cpu := m\<rparr>\<rparr>"

text \<open>\<open>kprintf\<close> through the terminal.\<close>

definition kb_print :: "keyboard \<Rightarrow> string \<Rightarrow> va_arg list \<Rightarrow> keyboard option" where
  "kb_print k fmt args =
     do { line \<leftarrow> kprintf fmt args; t \<leftarrow> tio_write (kb_tio k) line; Some (k\<lparr>kb_tio := t\<rparr>) }"

section \<open>The interrupt\<close>

definition enqueue :: "keyboard \<Rightarrow> u8 \<Rightarrow> keyboard" where
  "enqueue k scan_code = k\<lparr>scancode_queue := (scancode_queue k)[unat (queue_widx k) := scan_code],
     queue_widx := queue_widx k + 1\<rparr>"

text \<open>The handler, given the code the controller holds; and with a device to read it from.\<close>

definition kb_interrupt :: "u8 \<Rightarrow> keyboard \<Rightarrow> keyboard" where
  "kb_interrupt scan_code k = kb_set_machine (enqueue k scan_code)
     (sendEndOfInterrupt (record_event (kb_machine k) (Inb 0x60 scan_code)))"

definition keyboardInterruptHandler :: "device \<Rightarrow> keyboard \<Rightarrow> keyboard" where
  "keyboardInterruptHandler dev k = kb_interrupt (fst (inb dev (kb_machine k) 0x60)) k"

definition kbHasNewInput :: "keyboard \<Rightarrow> bool" where
  "kbHasNewInput k \<longleftrightarrow> queue_ridx k \<noteq> queue_widx k"

text \<open>\<open>scancode_queue[queue_ridx++]\<close>\<close>

definition dequeue :: "keyboard \<Rightarrow> u8 \<times> keyboard" where
  "dequeue k = (scancode_queue k ! unat (queue_ridx k), k\<lparr>queue_ridx := queue_ridx k + 1\<rparr>)"

section \<open>Decoding\<close>

definition set_key :: "keyboard \<Rightarrow> u8 \<Rightarrow> bool \<Rightarrow> keyboard option" where
  "set_key k mapped b =
     map_option (\<lambda>ks. k\<lparr>key_states := ks\<rparr>) (update_opt (key_states k) (unat mapped) b)"

definition key_down :: "keyboard \<Rightarrow> u8 \<Rightarrow> bool" where
  "key_down k mapped = (key_states k ! unat mapped)"

definition handleE0Key :: "keyboard \<Rightarrow> (MappedKey \<times> keyboard) option" where
  "handleE0Key k =
     (let (code, k1) = dequeue k;
          being_pressed = \<not> bit code 7;
          curr_code = (if \<not> being_pressed then code XOR lsh1 7 else code)
      in do {
           mapped \<leftarrow> specialToMapped curr_code;
           k2 \<leftarrow> set_key k1 mapped being_pressed;
           Some (no_key\<lparr>mapped_code := mapped, e0_key := True, printable := False,
               down_stroke := being_pressed, scancode := curr_code\<rparr>, k2\<lparr>keyboard_state := 0\<rparr>)
         })"

definition handleUnknownKey :: "keyboard \<Rightarrow> u8 \<Rightarrow> u8 \<Rightarrow> bool \<Rightarrow> (MappedKey \<times> keyboard) option" where
  "handleUnknownKey k code mapped being_pressed =
     (let ret = no_key\<lparr>mapped_code := mapped, printable := False, down_stroke := being_pressed,
                  scancode := code\<rparr>
      in if mapped \<noteq> KEY_CAPS then map_option (\<lambda>k'. (ret, k')) (set_key k mapped being_pressed)
         else if being_pressed
           then map_option (\<lambda>k'. (ret, k')) (set_key k KEY_CAPS (\<not> key_down k KEY_CAPS))
           else Some (ret, k))"

text \<open>
  \<open>kbNextMappedKey\<close> once the queue is not empty; its callers make sure of that before they
  call it, and it would otherwise wait.
\<close>

definition kbNextMappedKey :: "keyboard \<Rightarrow> (MappedKey \<times> keyboard) option" where
  "kbNextMappedKey k =
     (let (code, k1) = dequeue k;
          being_pressed = \<not> bit code 7
      in if code = 0xE0 then handleE0Key k1
         else
           let curr_code = (if \<not> being_pressed then code XOR lsh1 7 else code)
           in do {
                mapped \<leftarrow> set1ToMapped curr_code;
                c \<leftarrow> nth_opt scancode_set1 (unat curr_code);
                (if c = CHR ''?'' then handleUnknownKey k1 curr_code mapped being_pressed
                 else do {
                   k2 \<leftarrow> set_key k1 mapped being_pressed;
                   Some (no_key\<lparr>scancode := curr_code, mapped_code := mapped, printable := True,
                       down_stroke := being_pressed,
                       capitalized := being_pressed \<and> (key_down k2 KEY_L_SHIFT \<or> key_down k2 KEY_R_SHIFT
                         \<or> key_down k2 KEY_CAPS)\<rparr>, k2)
                 })
              })"

definition key_char :: "MappedKey \<Rightarrow> char option" where
  "key_char key = (if capitalized key then nth_opt uppercase_scancode_set1 (unat (scancode key))
     else nth_opt scancode_set1 (unat (scancode key)))"

section \<open>The line editor\<close>

text \<open>\<open>n\<close> turns of \<open>buffer[i] = buffer[i-1]\<close> with \<open>i\<close> going down, and of \<open>buffer[i] = buffer[i+1]\<close>.\<close>

fun buffer_right :: "string \<Rightarrow> int \<Rightarrow> nat \<Rightarrow> string option" where
  "buffer_right buf i 0 = Some buf"
| "buffer_right buf i (Suc n) =
     do { c \<leftarrow> nth_int buf (i - 1); buf' \<leftarrow> update_int buf i c; buffer_right buf' (i - 1) n }"

fun buffer_left :: "string \<Rightarrow> int \<Rightarrow> nat \<Rightarrow> string option" where
  "buffer_left buf i 0 = Some buf"
| "buffer_left buf i (Suc n) =
     do { c \<leftarrow> nth_int buf (i + 1); buf' \<leftarrow> update_int buf i c; buffer_left buf' (i + 1) n }"

text \<open>The buffer when a character is typed: made room for, stored, terminated.\<close>

definition buffer_insert :: "string \<Rightarrow> int \<Rightarrow> int \<Rightarrow> char \<Rightarrow> (string \<times> int \<times> int) option" where
  "buffer_insert buf index sz c =
     do {
       b1 \<leftarrow> (if index \<noteq> sz - 1 then buffer_right buf sz (nat (sz - index)) else Some buf);
       b2 \<leftarrow> update_int b1 index c;
       let index' = index + 1;
       let sz' = sz + 1;
       b3 \<leftarrow> update_int b2 (sz' - 1) (CHR 0x00);
       Some (b3, index', sz')
     }"

definition buffer_delete :: "string \<Rightarrow> int \<Rightarrow> int \<Rightarrow> (string \<times> int \<times> int) option" where
  "buffer_delete buf index sz =
     do {
       b1 \<leftarrow> (if index \<noteq> sz - 1 then buffer_left buf (index - 1) (nat ((sz - 1) - (index - 1))) else Some buf);
       let index' = (if index - 1 < 0 then 0 else index - 1);
       let sz' = (if sz - 1 < 1 then 1 else sz - 1);
       b2 \<leftarrow> update_int b1 (sz' - 1) (CHR 0x00);
       Some (b2, index', sz')
     }"

definition edit_key ::
    "keyboard \<Rightarrow> string \<Rightarrow> int \<Rightarrow> int \<Rightarrow> MappedKey \<Rightarrow> (keyboard \<times> string \<times> int \<times> int) option" where
  "edit_key k buf index sz key =
     (if \<not> printable key then
        if mapped_code key = KEY_ARROW_LEFT then
          (case tio_try_cursor_dec (kb_tio k) 2 of (b, t) \<Rightarrow>
             Some (k\<lparr>kb_tio := t\<rparr>, buf, if b then (if index - 1 < 0 then 0 else index - 1) else index, sz))
        else if mapped_code key = KEY_ARROW_RIGHT then
          do {
            (b, t) \<leftarrow> tio_try_cursor_inc (kb_tio k) sz 2;
            let i = (if b then index + 1 else index);
            Some (k\<lparr>kb_tio := t\<rparr>, buf, if i > sz - 1 then sz - 1 else i, sz)
          }
        else if mapped_code key = KEY_ARROW_UP then
          map_option (\<lambda>t. (k\<lparr>kb_tio := t\<rparr>, buf, index, sz)) (tio_shift_view (kb_tio k) SHIFT_DIRECTION_DOWN 1)
        else if mapped_code key = KEY_ARROW_DOWN then
          map_option (\<lambda>t. (k\<lparr>kb_tio := t\<rparr>, buf, index, sz)) (tio_shift_view (kb_tio k) SHIFT_DIRECTION_UP 1)
        else if mapped_code key = KEY_BACKSPACE then
          (if index \<le> 0 then Some (k, buf, index, sz)
           else do {
             t1 \<leftarrow> tio_shift_left (kb_tio k);
             (buf', index', sz') \<leftarrow> buffer_delete buf index sz;
             t2 \<leftarrow> tio_backspace t1;
             Some (k\<lparr>kb_tio := t2\<rparr>, buf', index', sz')
           })
        else Some (k, buf, index, sz)
      else
        do {
          t1 \<leftarrow> (if index \<noteq> sz - 1 then tio_shift_right (kb_tio k) else Some (kb_tio k));
          c \<leftarrow> key_char key;
          (buf', index', sz') \<leftarrow> buffer_insert buf index sz c;
          k2 \<leftarrow> kb_print (k\<lparr>kb_tio := t1\<rparr>) ''%c'' [Va_int (of_char c)];
          Some (k2, buf', index', sz')
        })"

text \<open>
  The loop of \<open>kbGetLine\<close>. Each turn comes with the scan codes whose interrupts are taken
  before it.
\<close>

fun kbGetLine_loop ::
    "keyboard \<Rightarrow> string \<Rightarrow> int \<Rightarrow> int \<Rightarrow> MappedKey \<Rightarrow> u8 list list \<Rightarrow> (string \<times> keyboard) option" where
  "kbGetLine_loop k buf index sz key [] =
     (if down_stroke key \<and> mapped_code key = KEY_ENTER then Some (buf, k) else None)"
| "kbGetLine_loop k buf index sz key (codes # turns) =
     (if down_stroke key \<and> mapped_code key = KEY_ENTER then Some (buf, k)
      else
        let k1 = fold kb_interrupt codes k
        in if \<not> kbHasNewInput k1 then kbGetLine_loop k1 buf index sz key turns
           else do {
             (key', k2) \<leftarrow> kbNextMappedKey k1;
             (if \<not> down_stroke key' then kbGetLine_loop k2 buf index sz key' turns
              else do {
                (k3, buf', index', sz') \<leftarrow> edit_key k2 buf index sz key';
                kbGetLine_loop k3 buf' index' sz' key' turns
              })
           })"

fun kbGetChar_loop :: "keyboard \<Rightarrow> MappedKey \<Rightarrow> u8 list list \<Rightarrow> (char \<times> keyboard) option" where
  "kbGetChar_loop k key [] =
     (if printable key \<and> down_stroke key then map_option (\<lambda>c. (c, k)) (key_char key) else None)"
| "kbGetChar_loop k key (codes # turns) =
     (if printable key \<and> down_stroke key then map_option (\<lambda>c. (c, k)) (key_char key)
      else
        let k1 = fold kb_interrupt codes k
        in if \<not> kbHasNewInput k1 then kbGetChar_loop k1 key turns
           else do {
             (key', k2) \<leftarrow> kbNextMappedKey (kb_set_machine k1 (cli (kb_machine k1)));
             kbGetChar_loop (kb_set_machine k2 (sti (kb_machine k2))) key' turns
           })"

end
