(* ===== verification/Keyboard_Queue.thy ===== *)
theory Keyboard_Queue
  imports Keyboard Tio_Props
begin

text \<open>
  The ring of scan codes between the keyboard interrupt and its readers, against the contract
  of a bounded first-in first-out queue.
\<close>

section \<open>The contract\<close>

text \<open>An element arrives, or a reader takes one if there is one.\<close>

datatype 'a fifo_event = Arrives 'a | Reads

fun arrivals :: "'a fifo_event list \<Rightarrow> 'a list" where
  "arrivals [] = []"
| "arrivals (Arrives x # es) = x # arrivals es"
| "arrivals (Reads # es) = arrivals es"

text \<open>No element arrives while \<open>cap\<close> are waiting; \<open>n\<close> wait at the start.\<close>

fun within_capacity :: "nat \<Rightarrow> nat \<Rightarrow> 'a fifo_event list \<Rightarrow> bool" where
  "within_capacity cap n [] \<longleftrightarrow> True"
| "within_capacity cap n (Arrives x # es) \<longleftrightarrow> n < cap \<and> within_capacity cap (n + 1) es"
| "within_capacity cap n (Reads # es) \<longleftrightarrow> within_capacity cap (n - 1) es"

locale bounded_fifo =
  fixes ok :: "'s \<Rightarrow> bool"
    and contents :: "'s \<Rightarrow> 'a list"
    and capacity :: nat
    and enq :: "'a \<Rightarrow> 's \<Rightarrow> 's"
    and deq :: "'s \<Rightarrow> 'a \<times> 's"
    and has_input :: "'s \<Rightarrow> bool"
  assumes enq_ok: "ok s \<Longrightarrow> ok (enq x s)"
    and enq_contents: "ok s \<Longrightarrow> length (contents s) < capacity \<Longrightarrow> contents (enq x s) = contents s @ [x]"
    and deq_ok: "ok s \<Longrightarrow> ok (snd (deq s))"
    and deq_contents: "ok s \<Longrightarrow> contents s = x # xs \<Longrightarrow> fst (deq s) = x \<and> contents (snd (deq s)) = xs"
    and has_input_iff: "ok s \<Longrightarrow> has_input s \<longleftrightarrow> contents s \<noteq> []"
begin

lemma enq_all_ok: "ok s \<Longrightarrow> ok (fold enq xs s)"
  by (induction xs arbitrary: s) (simp_all add: enq_ok)

lemma enq_all_contents:
  "ok s \<Longrightarrow> length (contents s) + length xs \<le> capacity \<Longrightarrow> contents (fold enq xs s) = contents s @ xs"
  by (induction xs arbitrary: s) (simp_all add: enq_ok enq_contents)

text \<open>A run of events; a reader that finds nothing goes on without an element.\<close>

fun run :: "'a fifo_event list \<Rightarrow> 's \<Rightarrow> 'a list \<times> 's" where
  "run [] s = ([], s)"
| "run (Arrives x # es) s = run es (enq x s)"
| "run (Reads # es) s =
     (if has_input s then (case deq s of (x, s1) \<Rightarrow> case run es s1 of (xs, s2) \<Rightarrow> (x # xs, s2))
      else run es s)"

text \<open>Nothing is lost, repeated or reordered as long as the queue never overflows.\<close>

lemma run_contents:
  "ok s \<Longrightarrow> within_capacity capacity (length (contents s)) es \<Longrightarrow>
   fst (run es s) @ contents (snd (run es s)) = contents s @ arrivals es \<and> ok (snd (run es s))"
proof (induction es arbitrary: s)
  case (Cons e es)
  show ?case
  proof (cases e)
    case (Arrives x)
    then show ?thesis
      using Cons.prems Cons.IH [of "enq x s"] by (simp add: enq_ok enq_contents)
  next
    case Reads
    show ?thesis
    proof (cases "contents s")
      case Nil
      then show ?thesis using Reads Cons by (simp add: has_input_iff)
    next
      case (Cons y ys)
      then have "fst (deq s) = y" "contents (snd (deq s)) = ys" "ok (snd (deq s))" "has_input s"
        using deq_contents [of s y ys] deq_ok [of s] Cons.prems(1) has_input_iff \<open>ok s\<close> by simp_all
      then show ?thesis
        using Reads Cons Cons.IH [of "snd (deq s)"] Cons.prems by (simp add: case_prod_unfold)
    qed
  qed
qed simp

end

section \<open>The keyboard's ring provides it\<close>

definition queue_ok :: "keyboard \<Rightarrow> bool" where
  "queue_ok k \<longleftrightarrow> length (scancode_queue k) = 256"

text \<open>The codes between the two indices, the oldest first.\<close>

definition pending :: "keyboard \<Rightarrow> u8 list" where
  "pending k = map (\<lambda>i. scancode_queue k ! unat (queue_ridx k + of_nat i))
     [0..<unat (queue_widx k - queue_ridx k)]"

lemma kb_interrupt_queue [simp]:
  "scancode_queue (kb_interrupt c k) = (scancode_queue k)[unat (queue_widx k) := c]"
  "queue_widx (kb_interrupt c k) = queue_widx k + 1" "queue_ridx (kb_interrupt c k) = queue_ridx k"
  "key_states (kb_interrupt c k) = key_states k"
  "keyboard_initialized (kb_interrupt c k) = keyboard_initialized k"
  by (simp_all add: kb_interrupt_def kb_set_machine_def enqueue_def)

lemma unat_of_nat_8: "n < 256 \<Longrightarrow> unat (of_nat n :: u8) = n"
  by (simp add: unat_of_nat)

lemma ring_index_neq:
  fixes r w :: u8
  assumes "i < unat (w - r)"
  shows "r + of_nat i \<noteq> w"
proof
  assume "r + of_nat i = w"
  then have "w - r = of_nat i" by auto
  then show False using assms unat_of_nat_8 [of i] unat_lt_8 [of "w - r"] by simp
qed

lemma unat_Suc_8: "unat (d :: u8) < 255 \<Longrightarrow> unat (d + 1) = unat d + 1"
  by (simp add: unat_word_ariths)

lemma length_pending: "length (pending k) = unat (queue_widx k - queue_ridx k)"
  by (simp add: pending_def)

lemma pending_interrupt:
  assumes "queue_ok k" and "length (pending k) < 255"
  shows "pending (kb_interrupt c k) = pending k @ [c]"
proof -
  let ?r = "queue_ridx k" and ?w = "queue_widx k"
  define n where "n = unat (?w - ?r)"
  have n: "n < 255" using assms(2) by (simp add: length_pending n_def)
  have "unat (?w + 1 - ?r) = n + 1"
    using unat_Suc_8 [of "?w - ?r"] n by (simp add: n_def algebra_simps)
  moreover have "(of_nat n :: u8) = ?w - ?r" by (simp add: n_def)
  moreover have "unat ?w < length (scancode_queue k)" using assms(1) unat_lt_8 by (simp add: queue_ok_def)
  moreover have "unat ?w \<noteq> unat (?r + of_nat i)" if "i < n" for i
    using ring_index_neq [of i ?w ?r] that by (metis n_def word_unat_eq_iff)
  ultimately show ?thesis by (auto simp: pending_def n_def [symmetric] nth_list_update)
qed

lemma pending_interrupt_full:
  assumes "length (pending k) = 255"
  shows "pending (kb_interrupt c k) = []"
proof -
  have "queue_widx k - queue_ridx k = 255" using assms by (simp add: length_pending word_unat_eq_iff)
  then have "queue_widx k + 1 - queue_ridx k = 255 + 1" by (metis add.commute add_diff_eq)
  also have "(255 + 1 :: u8) = 0" by simp
  finally show ?thesis by (simp add: pending_def)
qed

lemma dequeue_simps [simp]:
  "queue_widx (snd (dequeue k)) = queue_widx k" "queue_ridx (snd (dequeue k)) = queue_ridx k + 1"
  "scancode_queue (snd (dequeue k)) = scancode_queue k" "key_states (snd (dequeue k)) = key_states k"
  "kb_tio (snd (dequeue k)) = kb_tio k" "keyboard_initialized (snd (dequeue k)) = keyboard_initialized k"
  by (simp_all add: dequeue_def)

lemma pending_dequeue:
  assumes "pending k = c # cs"
  shows "fst (dequeue k) = c \<and> pending (snd (dequeue k)) = cs"
proof -
  let ?r = "queue_ridx k" and ?w = "queue_widx k"
  have n: "unat (?w - ?r) = Suc (length cs)" using length_pending [of k] assms by simp
  then have "?w - ?r \<noteq> 0" by auto
  then have m: "unat (?w - ?r - 1) = length cs"
    using n unat_minus_one [of "?w - ?r"] by simp
  then have m': "unat (?w - (?r + 1)) = length cs" by (simp add: algebra_simps)
  have "pending k = scancode_queue k ! unat ?r #
      map (\<lambda>i. scancode_queue k ! unat (?r + 1 + of_nat i)) [0..<length cs]"
    unfolding pending_def n upt_conv_Cons [OF zero_less_Suc] list.map
    by (simp add: map_Suc_upt [symmetric] comp_def add.assoc del: upt_Suc)
  then show ?thesis using assms m' by (simp add: pending_def) (simp add: dequeue_def)
qed

lemma has_input_pending: "kbHasNewInput k \<longleftrightarrow> pending k \<noteq> []"
  by (auto simp: kbHasNewInput_def pending_def unat_eq_zero)

interpretation kbq: bounded_fifo queue_ok pending 255 kb_interrupt dequeue kbHasNewInput
proof
  fix k c cs
  show "queue_ok k \<Longrightarrow> queue_ok (kb_interrupt c k)" by (simp add: queue_ok_def)
  show "queue_ok k \<Longrightarrow> queue_ok (snd (dequeue k))" by (simp add: queue_ok_def)
qed (simp_all add: pending_interrupt pending_dequeue has_input_pending)

section \<open>The property\<close>

text \<open>
  C28: Whatever the order in which keyboard interrupts arrive and their codes are read, as long
  as no interrupt arrives with 255 codes waiting, the codes read followed by those still
  waiting are exactly the codes that were waiting followed by those that arrived, in order. An
  interrupt that arrives with 255 codes waiting makes the indices meet: all 256 codes are lost.
\<close>

theorem keyboard_queue_fifo:
  assumes "length (scancode_queue k) = 256" and "within_capacity 255 (length (pending k)) es"
  shows "fst (kbq.run es k) @ pending (snd (kbq.run es k)) = pending k @ arrivals es
    \<and> (length (pending (snd (kbq.run es k))) = 255 \<longrightarrow>
        \<not> kbHasNewInput (kb_interrupt c (snd (kbq.run es k))))"
  using kbq.run_contents [of k es] assms
  by (simp add: queue_ok_def has_input_pending pending_interrupt_full)

text \<open>The keyboard once it is initialised, over a cleared terminal.\<close>

definition boot_keyboard :: keyboard where
  "boot_keyboard = \<lparr>key_states = replicate 256 False, scancode_queue = replicate 256 0,
     queue_widx = 0, queue_ridx = 0, keyboard_initialized = True, keyboard_state = 0,
     kb_tio = boot_tio\<rparr>"

lemma boot_keyboard_queue:
  "pending boot_keyboard = []" "queue_ok boot_keyboard" "length (scancode_queue boot_keyboard) = 256"
  by (simp_all add: pending_def boot_keyboard_def queue_ok_def)

theorem keyboard_queue_fifo_witness:
  "fst (kbq.run [Arrives 0x1e, Reads, Arrives 0x9e, Arrives 0x30] boot_keyboard)
     @ pending (snd (kbq.run [Arrives 0x1e, Reads, Arrives 0x9e, Arrives 0x30] boot_keyboard))
   = [0x1e, 0x9e, 0x30]"
proof -
  have "within_capacity 255 (length (pending boot_keyboard)) [Arrives 0x1e, Reads, Arrives 0x9e, Arrives (0x30 :: u8)]"
    by (simp add: boot_keyboard_queue)
  from keyboard_queue_fifo [OF boot_keyboard_queue(3) this, THEN conjunct1]
  show ?thesis by (simp only: boot_keyboard_queue(1) arrivals.simps append_Nil)
qed

end
