(* ===== verification/Keyboard_Decode.thy ===== *)
theory Keyboard_Decode
  imports Keyboard_Queue
begin

text \<open>
  The decoding of scan codes against a small specification: two shift keys that are held or
  not, a caps lock that every press toggles, and a character per printable key. The 256 key
  states and the mapping table of the code are details it does not mention.
\<close>

section \<open>The specification\<close>

record modifiers =
  l_shift :: bool
  r_shift :: bool
  caps_lock :: bool

definition shifted :: "modifiers \<Rightarrow> bool" where
  "shifted m \<longleftrightarrow> l_shift m \<or> r_shift m \<or> caps_lock m"

text \<open>The key of a code of set 1, and whether the code is of a press.\<close>

definition code_key :: "u8 \<Rightarrow> nat" where "code_key c = unat c mod 128"
definition code_down :: "u8 \<Rightarrow> bool" where "code_down c \<longleftrightarrow> unat c < 128"

definition after_code :: "modifiers \<Rightarrow> u8 \<Rightarrow> modifiers" where
  "after_code m c =
     (if code_key c = 0x2a then m\<lparr>l_shift := code_down c\<rparr>
      else if code_key c = 0x36 then m\<lparr>r_shift := code_down c\<rparr>
      else if code_key c = 0x3a \<and> code_down c then m\<lparr>caps_lock := \<not> caps_lock m\<rparr>
      else m)"

text \<open>The character a code types, if it types one.\<close>

definition typed_char :: "modifiers \<Rightarrow> u8 \<Rightarrow> char option" where
  "typed_char m c =
     (if code_down c \<and> scancode_set1 ! code_key c \<noteq> CHR ''?''
      then Some ((if shifted m then uppercase_scancode_set1 else scancode_set1) ! code_key c)
      else None)"

fun typed :: "modifiers \<Rightarrow> u8 list \<Rightarrow> char option list" where
  "typed m [] = []"
| "typed m (c # cs) = typed_char m c # typed (after_code m c) cs"

text \<open>Codes the tables have an entry for: no extended codes, and keys below 88.\<close>

definition in_tables :: "u8 \<Rightarrow> bool" where
  "in_tables c \<longleftrightarrow> c \<noteq> 0xE0 \<and> code_key c < 88"

section \<open>The tables\<close>

lemma table_lengths [simp]:
  "length scancode_set1 = 90" "length uppercase_scancode_set1 = 89" "length scancode_set1ToMapped = 88"
  by (simp_all add: scancode_set1_def uppercase_scancode_set1_def scancode_set1ToMapped_def)

lemma table_check:
  "list_all (\<lambda>n. (scancode_set1ToMapped ! n = KEY_L_SHIFT \<longleftrightarrow> n = 0x2a)
     \<and> (scancode_set1ToMapped ! n = KEY_R_SHIFT \<longleftrightarrow> n = 0x36)
     \<and> (scancode_set1ToMapped ! n = KEY_CAPS \<longleftrightarrow> n = 0x3a)) [0..<88]"
  by code_simp

lemma unprintable_check:
  "list_all (\<lambda>n. n \<notin> {0x2a, 0x36, 0x3a} \<or> scancode_set1 ! n = CHR ''?'') [0..<88]"
  by code_simp

lemma mapped_modifier:
  assumes "n < 88"
  shows "scancode_set1ToMapped ! n = KEY_L_SHIFT \<longleftrightarrow> n = 0x2a"
    and "scancode_set1ToMapped ! n = KEY_R_SHIFT \<longleftrightarrow> n = 0x36"
    and "scancode_set1ToMapped ! n = KEY_CAPS \<longleftrightarrow> n = 0x3a"
  using table_check assms by (auto simp: list_all_iff)

lemma printable_key:
  "n < 88 \<Longrightarrow> scancode_set1 ! n \<noteq> CHR ''?'' \<Longrightarrow> n \<noteq> 0x2a \<and> n \<noteq> 0x36 \<and> n \<noteq> 0x3a"
  using unprintable_check by (auto simp: list_all_iff)

text \<open>Clearing bit 7 of a code of a release gives its key.\<close>

lemma code_down_bit: "code_down c \<longleftrightarrow> \<not> bit c 7"
  by (simp add: code_down_def high_bit_u8)

lemma code_key_unat:
  "unat (if bit c 7 then c XOR lsh1 7 else c) = code_key (c :: u8)"
proof (cases "bit c 7")
  case True
  have "c XOR lsh1 7 = take_bit 7 c"
    using True by (intro bit_eqI) (auto simp: bit_simps less_Suc_eq numeral_eq_Suc)
  then show ?thesis using True by (simp add: code_key_def take_bit_eq_mod unat_mod)
next
  case False
  then show ?thesis by (simp add: code_key_def high_bit_u8)
qed

section \<open>One key\<close>

definition modifiers_of :: "keyboard \<Rightarrow> modifiers" where
  "modifiers_of k = \<lparr>l_shift = key_down k KEY_L_SHIFT, r_shift = key_down k KEY_R_SHIFT,
     caps_lock = key_down k KEY_CAPS\<rparr>"

definition keyboard_ok :: "keyboard \<Rightarrow> bool" where
  "keyboard_ok k \<longleftrightarrow> queue_ok k \<and> length (key_states k) = 256"

text \<open>The character a decoded key types, as the readers of keys take it.\<close>

definition key_types :: "MappedKey \<Rightarrow> char option" where
  "key_types key = (if printable key \<and> down_stroke key then key_char key else None)"

lemma set_key_eq:
  "length (key_states k) = 256 \<Longrightarrow> set_key k c b = Some (k\<lparr>key_states := (key_states k)[unat c := b]\<rparr>)"
  using unat_lt_8 [of c] by (simp add: set_key_def)

lemma key_down_update:
  "length (key_states k) = 256 \<Longrightarrow>
   key_down (k\<lparr>key_states := (key_states k)[unat c := b]\<rparr>) d = (if c = d then b else key_down k d)"
  using unat_lt_8 [of d] by (auto simp: key_down_def nth_list_update word_unat_eq_iff)

lemma pending_key_states [simp]: "pending (k\<lparr>key_states := ks\<rparr>) = pending k"
  by (simp add: pending_def)

lemma key_codes_distinct [simp]:
  "KEY_L_SHIFT \<noteq> KEY_R_SHIFT" "KEY_L_SHIFT \<noteq> KEY_CAPS" "KEY_R_SHIFT \<noteq> KEY_CAPS"
  "KEY_R_SHIFT \<noteq> KEY_L_SHIFT" "KEY_CAPS \<noteq> KEY_L_SHIFT" "KEY_CAPS \<noteq> KEY_R_SHIFT"
  by (simp_all add: KEY_L_SHIFT_def KEY_R_SHIFT_def KEY_CAPS_def)

text \<open>The state and the key of one turn of the decoder, apart from the queue.\<close>

lemma kbNextMappedKey_decodes:
  assumes ok: "keyboard_ok k" and p: "pending k = c # cs" and t: "in_tables c"
  obtains key k' where "kbNextMappedKey k = Some (key, k')" and "pending k' = cs" and "keyboard_ok k'"
    and "kb_tio k' = kb_tio k" and "keyboard_initialized k' = keyboard_initialized k"
    and "key_types key = typed_char (modifiers_of k) c"
    and "modifiers_of k' = after_code (modifiers_of k) c"
    and "mapped_code key = scancode_set1ToMapped ! code_key c" and "down_stroke key = code_down c"
    and "printable key \<longleftrightarrow> scancode_set1 ! code_key c \<noteq> CHR ''?''"
proof -
  define k1 where "k1 = snd (dequeue k)"
  have d: "dequeue k = (c, k1)" "pending k1 = cs"
    using pending_dequeue [OF p] by (simp_all add: k1_def prod_eq_iff)
  have k1: "length (key_states k1) = 256" "queue_ok k1" "kb_tio k1 = kb_tio k"
    "keyboard_initialized k1 = keyboard_initialized k"
    and s: "\<And>x. key_down k1 x = key_down k x"
    using ok by (simp_all add: k1_def keyboard_ok_def queue_ok_def key_down_def)
  let ?n = "code_key c" and ?d = "code_down c"
  let ?cur = "if bit c 7 then c XOR lsh1 7 else c"
  let ?m = "scancode_set1ToMapped ! ?n"
  have n: "?n < 88" and e0: "c \<noteq> 0xE0" using t by (simp_all add: in_tables_def)
  have cur: "unat ?cur = ?n" by (rule code_key_unat)
  have m: "set1ToMapped ?cur = Some ?m" "nth_opt scancode_set1 (unat ?cur) = Some (scancode_set1 ! ?n)"
    using n unfolding set1ToMapped_def cur by simp_all
  note mm = mapped_modifier [OF n]
  have step: "kbNextMappedKey k =
      (if scancode_set1 ! ?n = CHR ''?'' then handleUnknownKey k1 ?cur ?m ?d
       else do { k2 \<leftarrow> set_key k1 ?m ?d;
         Some (no_key\<lparr>scancode := ?cur, mapped_code := ?m, printable := True, down_stroke := ?d,
           capitalized := ?d \<and> (key_down k2 KEY_L_SHIFT \<or> key_down k2 KEY_R_SHIFT \<or> key_down k2 KEY_CAPS)\<rparr>, k2) })"
    unfolding kbNextMappedKey_def d(1) Let_def prod.case code_down_bit not_not m if_not_P [OF e0]
    by (simp only: m Option.bind.simps)
  show thesis
  proof (cases "scancode_set1 ! ?n = CHR ''?''")
    case True
    let ?key = "no_key\<lparr>mapped_code := ?m, printable := False, down_stroke := ?d, scancode := ?cur\<rparr>"
    have ty: "key_types ?key = typed_char (modifiers_of k) c" using True by (simp add: key_types_def typed_char_def)
    consider "?m \<noteq> KEY_CAPS" | "?m = KEY_CAPS" "?d" | "?m = KEY_CAPS" "\<not> ?d" by blast
    then show thesis
    proof cases
      case 1
      show thesis
        by (rule that [of ?key "k1\<lparr>key_states := (key_states k1)[unat ?m := ?d]\<rparr>"])
          (use 1 True step d k1 ty mm s in \<open>auto simp: handleUnknownKey_def set_key_eq keyboard_ok_def queue_ok_def
            modifiers_of_def key_down_update after_code_def Let_def\<close>)
    next
      case 2
      show thesis
        by (rule that [of ?key "k1\<lparr>key_states := (key_states k1)[unat KEY_CAPS := \<not> key_down k1 KEY_CAPS]\<rparr>"])
          (use 2 True step d k1 ty mm s in \<open>auto simp: handleUnknownKey_def set_key_eq keyboard_ok_def queue_ok_def
            modifiers_of_def key_down_update after_code_def Let_def\<close>)
    next
      case 3
      show thesis
        by (rule that [of ?key k1])
          (use 3 True step d k1 ty mm s in \<open>auto simp: handleUnknownKey_def keyboard_ok_def queue_ok_def
            modifiers_of_def after_code_def Let_def\<close>)
    qed
  next
    case False
    let ?k2 = "k1\<lparr>key_states := (key_states k1)[unat ?m := ?d]\<rparr>"
    have nm: "?m \<noteq> KEY_L_SHIFT" "?m \<noteq> KEY_R_SHIFT" "?m \<noteq> KEY_CAPS"
      using mm printable_key [OF n False] by auto
    let ?key = "no_key\<lparr>scancode := ?cur, mapped_code := ?m, printable := True, down_stroke := ?d,
           capitalized := ?d \<and> shifted (modifiers_of k)\<rparr>"
    have st: "kbNextMappedKey k = Some (?key, ?k2)"
      using False step k1 s nm by (simp add: set_key_eq key_down_update shifted_def modifiers_of_def)
    have kc: "key_types ?key = typed_char (modifiers_of k) c"
      using n False unfolding key_types_def typed_char_def key_char_def
      by (simp add: cur)
    show thesis
      by (rule that [OF st _ _ _ _ kc])
        (use False d k1 mm printable_key [OF n False] s nm in \<open>auto simp: keyboard_ok_def queue_ok_def
            modifiers_of_def key_down_update after_code_def\<close>)
  qed
qed

section \<open>Streams of codes\<close>

text \<open>\<open>n\<close> calls of the decoder: what each key types, and the state.\<close>

fun decode_all :: "nat \<Rightarrow> keyboard \<Rightarrow> (char option list \<times> keyboard) option" where
  "decode_all 0 k = Some ([], k)"
| "decode_all (Suc n) k =
     do { (key, k1) \<leftarrow> kbNextMappedKey k; (cs, k2) \<leftarrow> decode_all n k1; Some (key_types key # cs, k2) }"

lemma decode_all_typed:
  "keyboard_ok k \<Longrightarrow> pending k = cs \<Longrightarrow> list_all in_tables cs \<Longrightarrow>
   \<exists>k'. decode_all (length cs) k = Some (typed (modifiers_of k) cs, k') \<and> pending k' = []
     \<and> keyboard_ok k' \<and> modifiers_of k' = fold (\<lambda>c m. after_code m c) cs (modifiers_of k)"
proof (induction cs arbitrary: k)
  case (Cons c cs)
  then have "in_tables c" by simp
  from kbNextMappedKey_decodes [OF Cons.prems(1,2) this] obtain key k1
    where k1: "kbNextMappedKey k = Some (key, k1)" "pending k1 = cs" "keyboard_ok k1"
      "key_types key = typed_char (modifiers_of k) c" "modifiers_of k1 = after_code (modifiers_of k) c"
    by metis
  then show ?case using Cons.IH [OF k1(3,2)] Cons.prems(3) by auto
qed simp

section \<open>Properties\<close>

text \<open>
  C29: For any stream of up to 255 codes of the first scan code set (keys below 0x58, none
  extended) that arrives at an empty queue, decoding them one by one succeeds and types exactly
  the characters of the specification: the upper-case table's while a shift key is held or caps
  lock is on, the other table's otherwise, and nothing for a release or an unprintable key;
  afterwards the queue is empty and the three modifiers are those the stream leaves.
\<close>

theorem keyboard_decodes:
  assumes "keyboard_ok k" and "pending k = []" and "length codes \<le> 255" and "list_all in_tables codes"
  shows "\<exists>k'. decode_all (length codes) (fold kb_interrupt codes k) = Some (typed (modifiers_of k) codes, k')
    \<and> \<not> kbHasNewInput k' \<and> modifiers_of k' = fold (\<lambda>c m. after_code m c) codes (modifiers_of k)"
proof -
  let ?k = "fold kb_interrupt codes k"
  have q: "queue_ok k" using assms(1) by (simp add: keyboard_ok_def)
  have ks: "key_states (fold kb_interrupt cs k') = key_states k'" for cs k'
    by (induction cs arbitrary: k') simp_all
  have "keyboard_ok ?k" using kbq.enq_all_ok [OF q] assms(1) ks by (simp add: keyboard_ok_def)
  moreover have "pending ?k = codes" using kbq.enq_all_contents [OF q, of codes] assms by simp
  moreover have "modifiers_of ?k = modifiers_of k" by (simp add: modifiers_of_def key_down_def ks)
  ultimately show ?thesis using decode_all_typed [of ?k codes] assms(4) has_input_pending by auto
qed

lemma boot_keyboard_ok: "keyboard_ok boot_keyboard"
  by (simp add: keyboard_ok_def boot_keyboard_queue) (simp add: boot_keyboard_def)

text \<open>Shift pressed, \<open>a\<close> pressed and released, shift released, \<open>1\<close> pressed.\<close>

theorem keyboard_decodes_witness:
  "\<exists>k'. decode_all 5 (fold kb_interrupt [0x2a, 0x1e, 0x9e, 0xaa, 0x02] boot_keyboard)
     = Some ([None, Some (CHR ''A''), None, None, Some (CHR ''1'')], k') \<and> \<not> kbHasNewInput k'"
proof -
  have m: "modifiers_of boot_keyboard = \<lparr>l_shift = False, r_shift = False, caps_lock = False\<rparr>"
    by (simp add: modifiers_of_def key_down_def boot_keyboard_def KEY_L_SHIFT_def KEY_R_SHIFT_def KEY_CAPS_def)
  have "list_all in_tables [0x2a, 0x1e, 0x9e, 0xaa, 0x02 :: u8]" by code_simp
  moreover have len: "length [0x2a, 0x1e, 0x9e, 0xaa, 0x02 :: u8] = 5" by simp
  moreover have t: "typed \<lparr>l_shift = False, r_shift = False, caps_lock = False\<rparr> [0x2a, 0x1e, 0x9e, 0xaa, 0x02]
      = [None, Some (CHR ''A''), None, None, Some (CHR ''1'')]"
    by code_simp
  ultimately show ?thesis
    using keyboard_decodes [OF boot_keyboard_ok boot_keyboard_queue(1), of "[0x2a, 0x1e, 0x9e, 0xaa, 0x02]"]
    unfolding m t len by fastforce
qed

text \<open>
  When the prefix of an extended code is read before the interrupt that brings its second
  byte, the decoder does not wait for it: it takes the stale byte behind the write index, and
  the queue then seems to hold 255 codes.
\<close>

theorem extended_code_read_early:
  assumes "keyboard_ok k" and "pending k = [0xE0]" and "kbNextMappedKey k = Some (key, k')"
  shows "scancode key = (scancode_queue k ! unat (queue_widx k)) AND 0x7F \<and> length (pending k') = 255"
proof -
  define k1 where "k1 = snd (dequeue k)"
  have d: "dequeue k = (0xE0, k1)" "pending k1 = []"
    using pending_dequeue [OF assms(2)] by (simp_all add: k1_def prod_eq_iff)
  have idx: "queue_ridx k1 = queue_widx k1" using d(2) has_input_pending [of k1] by (simp add: kbHasNewInput_def)
  have q: "scancode_queue k1 = scancode_queue k" "queue_widx k1 = queue_widx k" by (simp_all add: k1_def)
  define code where "code = scancode_queue k ! unat (queue_widx k)"
  have low: "(if bit code 7 then code XOR lsh1 7 else code) = code AND 0x7F"
  proof -
    have "code AND 0x7F = take_bit 7 code" by (simp add: take_bit_eq_mask mask_eq_decr_exp)
    then show ?thesis
      by (auto intro!: bit_eqI simp: bit_simps less_Suc_eq numeral_eq_Suc)
  qed
  have "handleE0Key k1 = Some (key, k')" using assms(3) d(1) by (simp add: kbNextMappedKey_def)
  then have "scancode key = code AND 0x7F" "queue_ridx k' = queue_widx k + 1" "queue_widx k' = queue_widx k"
    using idx q low
    by (auto simp: handleE0Key_def dequeue_def set_key_def Let_def code_def [symmetric] no_key_def
        split: bind_splits if_splits)
  moreover have "queue_widx k - (queue_widx k + 1) = - 1" by simp
  ultimately show ?thesis by (simp add: length_pending code_def unsigned_minus_1_eq_mask mask_eq_exp_minus_1)
qed

theorem extended_code_read_early_witness:
  "\<exists>key k'. kbNextMappedKey (kb_interrupt 0xE0 boot_keyboard) = Some (key, k') \<and> length (pending k') = 255"
proof -
  let ?k = "kb_interrupt 0xE0 boot_keyboard"
  have ok: "keyboard_ok ?k" using boot_keyboard_ok by (simp add: keyboard_ok_def queue_ok_def)
  have p: "pending ?k = [0xE0]"
    using pending_interrupt [of boot_keyboard "0xE0"] boot_keyboard_queue by simp
  have "specialToMapped 0 \<noteq> None" by code_simp
  then obtain v where v: "specialToMapped 0 = Some v" by blast
  obtain k1 k2 where d: "dequeue ?k = (0xE0, k1)" "dequeue k1 = (0, k2)" "length (key_states k2) = 256"
    by (simp add: dequeue_def boot_keyboard_def)
  have "\<not> bit (0 :: u8) 7" by simp
  then have "handleE0Key k1 \<noteq> None" using v d(3) by (simp add: handleE0Key_def d(2) set_key_eq)
  moreover have "kbNextMappedKey ?k = handleE0Key k1" by (simp add: kbNextMappedKey_def d(1))
  ultimately obtain key k' where "kbNextMappedKey ?k = Some (key, k')" by auto
  then show ?thesis using extended_code_read_early [OF ok p] by blast
qed

end
