(* ===== verification/Ps2.thy ===== *)
theory Ps2
  imports Keyboard
begin

text \<open>
  Commands to the PS/2 controller and keyboard, and their initialisation
  (\<open>src/keyboard_io.c\<close>). The controller is the parameter \<open>dev\<close>. \<open>kbGetLine\<close> and
  \<open>kbGetChar\<close> are here, since they initialise the keyboard on first use.
\<close>

definition PS2 :: u16 where "PS2 = 0x60"
definition PS2_COMMAND :: u16 where "PS2_COMMAND = 0x64"
definition ACK :: u8 where "ACK = 0xFA"
definition RESEND :: u8 where "RESEND = 0xFE"
definition SCAN_CODE :: u8 where "SCAN_CODE = 0xF0"
definition ECHO :: u8 where "ECHO = 0xEE"

section \<open>Commands\<close>

text \<open>Up to \<open>n\<close> reads until one satisfies \<open>ok\<close>; \<open>None\<close> when none does.\<close>

fun poll :: "device \<Rightarrow> (u8 \<Rightarrow> bool) \<Rightarrow> nat \<Rightarrow> machine \<Rightarrow> u8 option \<times> machine" where
  "poll dev ok 0 m = (None, m)"
| "poll dev ok (Suc n) m =
     (let (ret, m1) = inb dev m PS2 in if ok ret then (Some ret, m1) else poll dev ok n m1)"

text \<open>The result 1 is the error; interrupts stay disabled then.\<close>

definition ps2SendSubCommand :: "device \<Rightarrow> machine \<Rightarrow> u8 \<Rightarrow> u8 \<Rightarrow> u8 \<times> machine" where
  "ps2SendSubCommand dev m command subcommand =
     (let m1 = outb (cli m) PS2 command;
          m2 = (if 0 \<le>s subcommand then outb m1 PS2 subcommand else m1)
      in case poll dev (\<lambda>ret. ret = ACK \<or> ret = ECHO) 10 m2 of
           (None, m3) \<Rightarrow> (1, m3)
         | (Some ret, m3) \<Rightarrow> (ret, sti m3))"

definition ps2SendDevCommand :: "device \<Rightarrow> machine \<Rightarrow> u8 \<Rightarrow> u8 \<times> machine" where
  "ps2SendDevCommand dev m command = ps2SendSubCommand dev m command (- 1)"

definition ps2SetKeyset :: "device \<Rightarrow> machine \<Rightarrow> u8 \<Rightarrow> bool \<times> machine" where
  "ps2SetKeyset dev m set_num =
     (let (r, m1) = ps2SendSubCommand dev m 0xF0 set_num in (r \<noteq> RESEND, m1))"

text \<open>The loop keeps the last value read when all ten are \<open>RESEND\<close>.\<close>

definition ps2GetKeyset :: "device \<Rightarrow> machine \<Rightarrow> u8 \<times> machine" where
  "ps2GetKeyset dev m =
     (let (r, m1) = ps2SendSubCommand dev m SCAN_CODE 0
      in if r = ACK then
           (case poll dev (\<lambda>ret. ret \<noteq> RESEND) 10 m1 of
              (None, m2) \<Rightarrow> (RESEND, m2) | (Some ret, m2) \<Rightarrow> (ret, m2))
         else (- 1, m1))"

text \<open>Up to \<open>n\<close> reads of the status register until its low bit is set.\<close>

fun poll_status :: "device \<Rightarrow> nat \<Rightarrow> machine \<Rightarrow> bool \<times> machine" where
  "poll_status dev 0 m = (False, m)"
| "poll_status dev (Suc n) m =
     (let (v, m1) = inb dev m 0x64 in if v AND 1 \<noteq> 0 then (True, m1) else poll_status dev n m1)"

definition ps2SendCommand :: "device \<Rightarrow> machine \<Rightarrow> u8 \<Rightarrow> bool \<Rightarrow> u8 \<times> machine" where
  "ps2SendCommand dev m comm returns =
     (let m1 = outb m PS2_COMMAND comm
      in if \<not> returns then (0xff, m1)
         else (case poll_status dev 10 m1 of
                 (True, m2) \<Rightarrow> inb dev m2 PS2
               | (False, m2) \<Rightarrow> (0xff, m2)))"

section \<open>Initialisation\<close>

text \<open>
  \<open>test = ps2SendCommand(...) != 0x55\<close> stores the comparison, so the messages print 1.
\<close>

definition ps2_test :: "device \<Rightarrow> keyboard \<Rightarrow> u8 \<Rightarrow> u8 \<Rightarrow> string \<Rightarrow> va_arg list \<Rightarrow> keyboard option" where
  "ps2_test dev k comm expected fmt args =
     (let (r, m) = ps2SendCommand dev (kb_machine k) comm True; k1 = kb_set_machine k m
      in if r \<noteq> expected then kb_print k1 fmt args else Some k1)"

definition ps2Init :: "device \<Rightarrow> keyboard \<Rightarrow> keyboard option" where
  "ps2Init dev k =
     (let m1 = snd (ps2SendCommand dev (kb_machine k) 0xAD False);
          m2 = snd (ps2SendCommand dev m1 0xA7 False);
          m3 = snd (inb dev m2 0x60);
          (ccb, m4) = ps2SendCommand dev m3 0x20 True;
          ccb' = (ccb AND NOT (lsh1 6)) OR 3;
          m5 = outb (outb m4 0x64 0x60) 0x60 ccb'
      in do {
           k1 \<leftarrow> ps2_test dev (kb_set_machine k m5) 0xAA 0x55 ''ERROR: ps2 controller test failed\<newline>'' [];
           k2 \<leftarrow> ps2_test dev k1 0xAB 0x0 ''ERROR: ps2 port 1 test failed: %d\<newline>'' [Va_int 1];
           k3 \<leftarrow> ps2_test dev k2 0xA9 0x0 ''ERROR: ps2 port 2 test failed: %d\<newline>'' [Va_int 1];
           let m6 = snd (ps2SendCommand dev (kb_machine k3) 0xAE False);
           let m7 = snd (ps2SendCommand dev m6 0xA8 False);
           let (r, m8) = ps2SendDevCommand dev m7 0xff;
           k4 \<leftarrow> (if r = 0xFD then kb_print (kb_set_machine k3 m8) ''ERROR: Failed to reset ps2 device 1\<newline>'' []
                  else Some (kb_set_machine k3 m8));
           Some (kb_set_machine k4 (outb (outb (kb_machine k4) 0x21 0xfc) 0xa1 0xff))
         })"

definition kbInit :: "device \<Rightarrow> keyboard \<Rightarrow> keyboard option" where
  "kbInit dev k =
     do {
       k1 \<leftarrow> ps2Init dev (kb_set_machine k (cli (kb_machine k)));
       let (echo, m) = ps2SendDevCommand dev (kb_machine k1) ECHO;
       let k2 = kb_set_machine k1 m;
       (if echo = 1 then kb_print k2 ''Keyboard not responding...Returning\<newline>'' []
        else do {
          k3 \<leftarrow> kb_print k2 ''Echo to keyboard recieved\<newline>'' [];
          let k4 = kb_set_machine k3 (snd (ps2SetKeyset dev (kb_machine k3) 1));
          let (s, m2) = ps2GetKeyset dev (kb_machine k4);
          let k5 = kb_set_machine k4 m2;
          k6 \<leftarrow> (if 0 <s s then
                   kb_print k5 ''Scan code set: 0x%x\<newline>''
                     [Va_int (if s = 0x43 then 1 else if s = 0x41 then 2 else if s = 0x3f then 3
                        else ucast s)]
                 else kb_print k5 ''Error getting scan code set\<newline>'' []);
          let k7 = k6\<lparr>keyboard_initialized := True\<rparr>;
          let k8 = kb_set_machine k7 (sti (kb_machine k7));
          Some (k8\<lparr>kb_tio := tio_enable_cursor dev (kb_tio k8)\<rparr>)
        })
     }"

section \<open>Reading lines and characters\<close>

definition kbGetLine :: "device \<Rightarrow> keyboard \<Rightarrow> string \<Rightarrow> u8 list list \<Rightarrow> (string \<times> keyboard) option" where
  "kbGetLine dev k buf turns =
     do {
       k1 \<leftarrow> (if \<not> keyboard_initialized k then kbInit dev k else Some k);
       kbGetLine_loop k1 buf 0 1 no_key turns
     }"

definition kbGetChar :: "device \<Rightarrow> keyboard \<Rightarrow> u8 list list \<Rightarrow> (char \<times> keyboard) option" where
  "kbGetChar dev k turns =
     do {
       k1 \<leftarrow> (if \<not> keyboard_initialized k then kbInit dev k else Some k);
       kbGetChar_loop k1 no_key turns
     }"

text \<open>
  One turn of \<open>kShellStart\<close> (\<open>src/kshell.c\<close>): the prompt, a line read into a zeroed buffer of
  512 characters, and the line printed back up to its first NUL.
\<close>

definition kshell_turn :: "device \<Rightarrow> keyboard \<Rightarrow> u8 list list \<Rightarrow> keyboard option" where
  "kshell_turn dev k turns =
     do {
       k1 \<leftarrow> kb_print k ''> '' [];
       (buf, k2) \<leftarrow> kbGetLine dev k1 (replicate 512 (CHR 0x00)) turns;
       kb_print k2 ''\<newline>%s\<newline>'' [Va_str (takeWhile (\<lambda>c. c \<noteq> CHR 0x00) buf)]
     }"

end
