(* ===== verification/Keyboard_Line.thy ===== *)
theory Keyboard_Line
  imports Keyboard_Decode Ps2
begin

text \<open>
  The line editor of \<open>kbGetLine\<close> against its specification: a text and a point in it, where a
  character is inserted or the one before it deleted; and a whole line typed at the keyboard,
  from the interrupts to the buffer and the screen.
\<close>

section \<open>The specification\<close>

definition line_insert :: "char \<Rightarrow> string \<times> nat \<Rightarrow> string \<times> nat" where
  "line_insert c s = (case s of (text, i) \<Rightarrow> (take i text @ c # drop i text, i + 1))"

definition line_delete :: "string \<times> nat \<Rightarrow> string \<times> nat" where
  "line_delete s = (case s of (text, i) \<Rightarrow> (take (i - 1) text @ drop i text, i - 1))"

text \<open>The buffer holds a terminated text; the point is in it.\<close>

definition line_ok :: "string \<Rightarrow> int \<Rightarrow> int \<Rightarrow> bool" where
  "line_ok buf index sz \<longleftrightarrow> 0 \<le> index \<and> index < sz \<and> nat sz \<le> length buf \<and> buf ! nat (sz - 1) = CHR 0x00"

definition line_of :: "string \<Rightarrow> int \<Rightarrow> int \<Rightarrow> string \<times> nat" where
  "line_of buf index sz = (take (nat (sz - 1)) buf, nat index)"

section \<open>Shifts of the buffer\<close>

lemma nth_int_nat [simp]: "i < length xs \<Longrightarrow> nth_int xs (int i) = Some (xs ! i)"
  by (simp add: nth_int_def)

lemma update_int_nat [simp]: "i < length xs \<Longrightarrow> update_int xs (int i) x = Some (xs[i := x])"
  by (simp add: update_int_def)

lemma buffer_right_shifts:
  "n \<le> i \<Longrightarrow> i < length buf \<Longrightarrow>
   buffer_right buf (int i) n
     = Some (take (i - n + 1) buf @ drop (i - n) (take i buf) @ drop (i + 1) buf)"
proof (induction n arbitrary: buf i)
  case (Suc n)
  then obtain j where i: "i = Suc j" by (cases i) auto
  let ?b = "buf[i := buf ! j]"
  have "buffer_right buf (int i) (Suc n) = buffer_right ?b (int j) n"
    using Suc.prems i nth_int_nat [of j buf] update_int_nat [of i buf] by simp
  also have "\<dots> = Some (take (j - n + 1) ?b @ drop (j - n) (take j ?b) @ drop (j + 1) ?b)"
    using Suc.prems i by (intro Suc.IH) simp_all
  also have "drop (j + 1) ?b = buf ! j # drop (i + 1) buf"
    using Suc.prems i by (simp add: drop_update_swap Cons_nth_drop_Suc [symmetric])
  also have "take (j - n + 1) ?b = take (j - n + 1) buf" using Suc.prems i by simp
  also have "take j ?b = take j buf" using Suc.prems i by simp
  also have "drop (j - n) (take j buf) @ buf ! j # drop (i + 1) buf
      = drop (j - n) (take i buf) @ drop (i + 1) buf"
    using Suc.prems i by (simp add: take_Suc_conv_app_nth)
  finally show ?case using i by simp
qed (simp add: take_Suc_conv_app_nth Cons_nth_drop_Suc)

lemma buffer_left_shifts:
  "i + n < length buf \<Longrightarrow>
   buffer_left buf (int i) n
     = Some (take i buf @ take n (drop (i + 1) buf) @ drop (i + n) buf)"
proof (induction n arbitrary: buf i)
  case (Suc n)
  let ?b = "buf[i := buf ! (i + 1)]"
  have "buffer_left buf (int i) (Suc n) = buffer_left ?b (int (i + 1)) n"
    using Suc.prems nth_int_nat [of "i + 1" buf] update_int_nat [of i buf] by (simp add: add.commute)
  also have "\<dots> = Some (take (i + 1) ?b @ take n (drop (i + 2) ?b) @ drop (i + 1 + n) ?b)"
    using Suc.prems Suc.IH [of "i + 1" ?b] by simp
  also have "take (i + 1) ?b = take i buf @ [buf ! (i + 1)]"
    using Suc.prems by (simp add: take_Suc_conv_app_nth)
  also have "take n (drop (i + 2) ?b) = take n (drop (i + 2) buf)" by simp
  also have "drop (i + 1 + n) ?b = drop (i + Suc n) buf" by simp
  also have "(take i buf @ [buf ! (i + 1)]) @ take n (drop (i + 2) buf) @ drop (i + Suc n) buf
     = take i buf @ take (Suc n) (drop (i + 1) buf) @ drop (i + Suc n) buf"
    using Suc.prems by (simp add: Cons_nth_drop_Suc [symmetric])
  finally show ?case .
qed simp

section \<open>Insertion and deletion\<close>

lemma line_nat [simp]:
  "line_ok buf (int i) (int s + 1) \<longleftrightarrow> i \<le> s \<and> s < length buf \<and> buf ! s = CHR 0x00"
  "line_of buf (int i) (int s + 1) = (take s buf, i)"
  by (auto simp: line_ok_def line_of_def nat_add_distrib)

lemma line_ok_cases:
  assumes "line_ok buf index sz"
  obtains i s where "index = int i" and "sz = int s + 1" and "i \<le> s" and "s < length buf"
    and "buf ! s = CHR 0x00"
proof (rule that [of "nat index" "nat (sz - 1)"])
qed (use assms in \<open>auto simp: line_ok_def\<close>)

lemma buffer_insert_eq:
  assumes "i \<le> s" and "s + 1 < length buf"
  shows "buffer_insert buf (int i) (int s + 1) c
    = Some (take i buf @ c # drop i (take s buf) @ CHR 0x00 # drop (s + 2) buf, int i + 1, int s + 2)"
proof -
  have n: "nat (int s + 1 - int i) = s + 1 - i" using assms by linarith
  define b1 where "b1 = (if i = s then buf else take (i + 1) buf @ drop i (take (s + 1) buf) @ drop (s + 2) buf)"
  have room: "(if int i \<noteq> int s + 1 - 1 then buffer_right buf (int s + 1) (nat (int s + 1 - int i)) else Some buf)
      = Some b1"
    unfolding n b1_def using assms buffer_right_shifts [of "s + 1 - i" "s + 1" buf] by (auto simp: algebra_simps)
  obtain x y where b1: "b1 = take i buf @ x # drop i (take s buf) @ y # drop (s + 2) buf"
  proof (cases "i = s")
    case True
    then show thesis
      using assms that [of "buf ! s" "buf ! (s + 1)"] by (simp add: b1_def Cons_nth_drop_Suc)
  next
    case False
    then show thesis
      using assms that [of "buf ! i" "buf ! s"] by (simp add: b1_def take_Suc_conv_app_nth)
  qed
  have "b1[i := c, s + 1 := CHR 0x00] = take i buf @ c # drop i (take s buf) @ CHR 0x00 # drop (s + 2) buf"
    using assms by (simp add: b1 list_update_append Suc_diff_le)
  moreover have "length b1 = length buf" using assms by (simp add: b1)
  ultimately show ?thesis
    using assms room unfolding buffer_insert_def by (simp add: update_int_def nat_add_distrib)
qed

lemma buffer_delete_eq:
  assumes "0 < i" and "i \<le> s" and "s < length buf"
  shows "buffer_delete buf (int i) (int s + 1)
    = Some (take (i - 1) buf @ drop i (take s buf) @ CHR 0x00 # drop s buf, int i - 1, int s)"
proof -
  have n: "nat (int s - (int i - 1)) = s + 1 - i" using assms by linarith
  define b1 where "b1 = (if i = s then buf else take (i - 1) buf @ take (s + 1 - i) (drop i buf) @ drop s buf)"
  have "buffer_left buf (int i - 1) (s + 1 - i) = Some b1" if "i \<noteq> s"
    using assms that buffer_left_shifts [of "i - 1" "s + 1 - i" buf] by (simp add: b1_def of_nat_diff)
  then have shift: "(if int i \<noteq> int s + 1 - 1 then buffer_left buf (int i - 1) (nat (int s + 1 - 1 - (int i - 1))) else Some buf)
      = Some b1"
    by (simp add: n) (simp add: b1_def)
  obtain y where b1: "b1 = take (i - 1) buf @ drop i (take s buf) @ y # drop s buf"
  proof (cases "i = s")
    case True
    then have "drop (s - 1) buf = buf ! (s - 1) # drop s buf"
      using assms Cons_nth_drop_Suc [of "s - 1" buf] by simp
    then show thesis
      using assms True that [of "buf ! (s - 1)"] append_take_drop_id [of "s - 1" buf] by (simp add: b1_def)
  next
    case False
    have "take (s + 1 - i) (drop i buf) = drop i (take s buf) @ [buf ! s]"
      using assms by (simp add: take_drop take_Suc_conv_app_nth)
    then show thesis using False that [of "buf ! s"] by (simp add: b1_def)
  qed
  have "b1[s - 1 := CHR 0x00] = take (i - 1) buf @ drop i (take s buf) @ CHR 0x00 # drop s buf"
    using assms by (auto simp: b1 list_update_append)
  moreover have "length b1 = length buf" using assms by (simp add: b1)
  moreover have "nat (int s - 1) = s - 1" by simp
  ultimately show ?thesis
    using assms shift unfolding buffer_delete_def by (simp add: update_int_def Let_def)
qed

lemma buffer_insert_full:
  assumes "i \<le> s" and "s + 1 = length buf"
  shows "buffer_insert buf (int i) (int s + 1) c = None"
proof (cases "i = s")
  case True
  then show ?thesis using assms by (simp add: buffer_insert_def update_int_def nat_add_distrib)
next
  case False
  then obtain n where "nat (int s + 1 - int i) = Suc n" using assms by (cases "nat (int s + 1 - int i)") auto
  then show ?thesis
    using assms False by (simp add: buffer_insert_def update_int_def nat_add_distrib nth_int_def)
qed

lemma line_insert_refines:
  assumes "line_ok buf index sz" and "buffer_insert buf index sz c = Some (buf', index', sz')"
  shows "line_ok buf' index' sz' \<and> length buf' = length buf
    \<and> line_of buf' index' sz' = line_insert c (line_of buf index sz)"
proof -
  obtain i s where l: "index = int i" "sz = int s + 1" "i \<le> s" "s < length buf"
    using assms(1) by (elim line_ok_cases)
  have room: "s + 1 < length buf" using l buffer_insert_full [of i s buf c] assms(2) by fastforce
  have e: "buf' = take i buf @ c # drop i (take s buf) @ CHR 0x00 # drop (s + 2) buf"
    "index' = int (i + 1)" "sz' = int (s + 1) + 1"
    using assms(2) l buffer_insert_eq [OF l(3) room] by simp_all
  have len: "length buf' = length buf" and z: "buf' ! (s + 1) = CHR 0x00"
    and t: "take (s + 1) buf' = take i buf @ c # drop i (take s buf)"
    using l room by (simp_all add: e nth_append Suc_diff_le)
  show ?thesis unfolding e(2,3) line_nat l(1,2) line_insert_def t
    using l room len z by (simp add: min_def)
qed

lemma line_delete_refines:
  assumes "line_ok buf index sz" and "0 < index"
  obtains buf' index' sz' where "buffer_delete buf index sz = Some (buf', index', sz')"
    and "line_ok buf' index' sz'" and "length buf' = length buf"
    and "line_of buf' index' sz' = line_delete (line_of buf index sz)"
proof -
  obtain i s where l: "index = int i" "sz = int s + 1" "i \<le> s" "s < length buf"
    using assms(1) by (elim line_ok_cases)
  define buf' where "buf' = take (i - 1) buf @ drop i (take s buf) @ CHR 0x00 # drop s buf"
  have i: "0 < i" using assms(2) l by simp
  have e: "int i - 1 = int (i - 1)" "int s = int (s - 1) + 1" using i l by simp_all
  have d: "buffer_delete buf index sz = Some (buf', int (i - 1), int (s - 1) + 1)"
    using buffer_delete_eq [OF i l(3,4)] unfolding buf'_def e l(1,2) by simp
  have len: "length buf' = length buf" and z: "buf' ! (s - 1) = CHR 0x00"
    and t: "take (s - 1) buf' = take (i - 1) buf @ drop i (take s buf)"
    using l i by (auto simp: buf'_def nth_append)
  show thesis
  proof (rule that [OF d _ len])
    show "line_ok buf' (int (i - 1)) (int (s - 1) + 1)" unfolding line_nat using l i len z by auto
    show "line_of buf' (int (i - 1)) (int (s - 1) + 1) = line_delete (line_of buf index sz)"
      unfolding line_nat l(1,2) line_delete_def t using l i by (auto simp: min_def)
  qed
qed

section \<open>One key\<close>

lemma line_point_moves:
  "line_ok buf index sz \<Longrightarrow> 0 \<le> j \<Longrightarrow> j < sz \<Longrightarrow>
   line_ok buf j sz \<and> fst (line_of buf j sz) = fst (line_of buf index sz)"
  by (simp add: line_ok_def line_of_def)

lemma edit_key_moves:
  assumes "line_ok buf index sz" and "\<not> printable key" and "mapped_code key \<noteq> KEY_BACKSPACE"
    and "edit_key k buf index sz key = Some (k', buf', index', sz')"
  shows "buf' = buf \<and> sz' = sz \<and> 0 \<le> index' \<and> index' < sz \<and> \<bar>index' - index\<bar> \<le> 1"
  using assms unfolding edit_key_def line_ok_def
  by (auto simp: Let_def split: if_splits prod.splits bind_splits)

lemma edit_key_backspace:
  assumes "line_ok buf index sz" and "\<not> printable key" and "mapped_code key = KEY_BACKSPACE"
    and "edit_key k buf index sz key = Some (k', buf', index', sz')"
  shows "line_ok buf' index' sz' \<and> length buf' = length buf \<and> line_of buf' index' sz'
    = (if index \<le> 0 then line_of buf index sz else line_delete (line_of buf index sz))"
proof (cases "index \<le> 0")
  case True
  then show ?thesis
    using assms by (auto simp: edit_key_def KEY_BACKSPACE_def KEY_ARROW_LEFT_def KEY_ARROW_RIGHT_def
        KEY_ARROW_UP_def KEY_ARROW_DOWN_def)
next
  case False
  then have "0 < index" by simp
  from line_delete_refines [OF assms(1) this] obtain b i s
    where d: "buffer_delete buf index sz = Some (b, i, s)" "line_ok b i s" "length b = length buf"
      "line_of b i s = line_delete (line_of buf index sz)" by metis
  then have "buf' = b \<and> index' = i \<and> sz' = s"
    using assms(2-4) False
    by (auto simp: edit_key_def KEY_BACKSPACE_def KEY_ARROW_LEFT_def KEY_ARROW_RIGHT_def
        KEY_ARROW_UP_def KEY_ARROW_DOWN_def split: bind_splits)
  then show ?thesis using d False by simp
qed

lemma edit_key_printable:
  assumes "line_ok buf index sz" and "printable key"
    and "edit_key k buf index sz key = Some (k', buf', index', sz')"
  shows "\<exists>c. key_char key = Some c \<and> line_ok buf' index' sz' \<and> length buf' = length buf
    \<and> line_of buf' index' sz' = line_insert c (line_of buf index sz)"
proof -
  obtain c where c: "key_char key = Some c" "buffer_insert buf index sz c = Some (buf', index', sz')"
    using assms(2,3) by (auto simp: edit_key_def split: bind_splits)
  then show ?thesis using line_insert_refines [OF assms(1) c(2)] by blast
qed

section \<open>Properties\<close>



section \<open>A line, from the interrupts to the buffer\<close>

text \<open>Codes whose keys edit nothing: in the tables, and not backspace, enter or the keypad's 0.\<close>

definition plain_code :: "u8 \<Rightarrow> bool" where
  "plain_code c \<longleftrightarrow> in_tables c \<and> code_key c \<noteq> 0x0e \<and> code_key c \<noteq> 0x1c \<and> code_key c \<noteq> 0x52"

definition typed_line :: "modifiers \<Rightarrow> u8 list \<Rightarrow> string" where
  "typed_line m codes = map the (filter (\<lambda>c. c \<noteq> None) (typed m codes))"

lemma plain_check:
  "list_all (\<lambda>n. (scancode_set1ToMapped ! n = KEY_ENTER \<longleftrightarrow> n = 0x1c \<or> n = 0x52)
     \<and> (scancode_set1 ! n = CHR ''?'' \<longrightarrow> (scancode_set1ToMapped ! n = KEY_BACKSPACE \<longleftrightarrow> n = 0x0e)
       \<and> scancode_set1ToMapped ! n \<notin> {KEY_ARROW_LEFT, KEY_ARROW_RIGHT, KEY_ARROW_UP, KEY_ARROW_DOWN})) [0..<88]"
  by code_simp

lemma printable_check:
  "list_all (\<lambda>n. scancode_set1 ! n \<notin> {CHR 0x00, CHR 0x0A, CHR 0x0D}
     \<and> uppercase_scancode_set1 ! n \<notin> {CHR 0x00, CHR 0x0A, CHR 0x0D}) [0..<88]"
  by code_simp

lemma plain_mapped:
  assumes "plain_code c"
  shows "scancode_set1ToMapped ! code_key c \<noteq> KEY_ENTER"
    and "scancode_set1 ! code_key c = CHR ''?'' \<Longrightarrow>
      scancode_set1ToMapped ! code_key c \<notin> {KEY_BACKSPACE, KEY_ARROW_LEFT, KEY_ARROW_RIGHT, KEY_ARROW_UP, KEY_ARROW_DOWN}"
  using plain_check assms by (auto simp: list_all_iff plain_code_def in_tables_def)

lemma typed_char_not_control:
  "in_tables c \<Longrightarrow> typed_char m c = Some ch \<Longrightarrow> ch \<noteq> CHR 0x00"
  using printable_check by (auto simp: typed_char_def in_tables_def list_all_iff split: if_splits)

lemma kprintf_char: "ch \<noteq> CHR 0x00 \<Longrightarrow> kprintf ''%c'' [Va_int (of_char ch)] = Some [ch]"
proof -
  assume c: "ch \<noteq> CHR 0x00"
  have "(of_char ch :: nat) < 4294967296" using nat_of_char_less_256 [of ch] by linarith
  then have "unat (of_nat (of_char ch) :: u32) = of_char ch" by (rule unat_of_nat_32)
  then have "unat (of_char ch :: u32) mod 256 = of_char ch" by (simp add: of_nat_of_char)
  then show ?thesis using c by (simp add: kprintf_def kvprintf_def kvsprintf_def)
qed

lemma tio_cpu_irrelevant [simp]:
  "tio_ok (t\<lparr>tio_cpu := m\<rparr>) = tio_ok t" "tio_pos (t\<lparr>tio_cpu := m\<rparr>) = tio_pos t"
  by (simp_all add: tio_ok_def tio_pos_def)

lemma kb_interrupt_tio [simp]:
  "tio_ok (kb_tio (kb_interrupt c k)) = tio_ok (kb_tio k)"
  "tio_pos (kb_tio (kb_interrupt c k)) = tio_pos (kb_tio k)"
  "pages (kb_tio (kb_interrupt c k)) = pages (kb_tio k)"
  by (simp_all add: kb_interrupt_def kb_set_machine_def enqueue_def)

lemma kb_interrupt_initialized: "keyboard_initialized (kb_interrupt c k) = keyboard_initialized k"
  by (simp add: kb_interrupt_def kb_set_machine_def enqueue_def)

text \<open>A terminal on which \<open>line\<close> has been typed since it was \<open>t\<close>.\<close>

definition shows_line :: "tio \<Rightarrow> string \<Rightarrow> tio \<Rightarrow> bool" where
  "shows_line t line t' \<longleftrightarrow> tio_ok t'
     \<and> (tio_pos t', pages t') = type_text VGA_COLOR_WHITE (tio_pos t, pages t) line"

text \<open>Typing at the end of the line, with room in the buffer and on the terminal.\<close>

lemma edit_key_types:
  assumes "printable key" and "key_char key = Some ch" and "ch \<noteq> CHR 0x00"
    and "s + 1 < length buf" and "tio_ok (kb_tio k)"
    and "text_fits VGA_COLOR_WHITE (tio_pos (kb_tio k), pages (kb_tio k)) [ch]"
  obtains t where "edit_key k buf (int s) (int s + 1) key
      = Some (k\<lparr>kb_tio := t\<rparr>, take s buf @ ch # CHR 0x00 # drop (s + 2) buf, int (s + 1), int (s + 1) + 1)"
    and "shows_line (kb_tio k) [ch] t"
proof -
  obtain t where t: "tio_write_color (kb_tio k) [ch] VGA_COLOR_WHITE = Some t" "tio_ok t"
    "(tio_pos t, pages t) = type_text VGA_COLOR_WHITE (tio_pos (kb_tio k), pages (kb_tio k)) [ch]"
    using write_refines [OF assms(5), of VGA_COLOR_WHITE "[ch]"] assms(6) by (metis (full_types))
  have "buffer_insert buf (int s) (int s + 1) ch
      = Some (take s buf @ ch # CHR 0x00 # drop (s + 2) buf, int (s + 1), int (s + 1) + 1)"
    using buffer_insert_eq [of s s buf ch] assms(4) by simp
  then have "edit_key k buf (int s) (int s + 1) key
      = Some (k\<lparr>kb_tio := t\<rparr>, take s buf @ ch # CHR 0x00 # drop (s + 2) buf, int (s + 1), int (s + 1) + 1)"
    using assms(1-3) t(1)
    by (simp add: edit_key_def kb_print_def kprintf_char tio_write_def del: tio_write_color.simps)
  then show thesis using that t by (simp add: shows_line_def del: type_text.simps)
qed

lemma edit_key_ignores:
  "\<not> printable key \<Longrightarrow>
   mapped_code key \<notin> {KEY_BACKSPACE, KEY_ARROW_LEFT, KEY_ARROW_RIGHT, KEY_ARROW_UP, KEY_ARROW_DOWN} \<Longrightarrow>
   edit_key k buf index sz key = Some (k, buf, index, sz)"
  by (simp add: edit_key_def)

text \<open>One turn of the loop that takes one code.\<close>

lemma kbGetLine_loop_turn:
  assumes "keyboard_ok k" and "pending k = []" and "in_tables c"
    and "\<not> (down_stroke key \<and> mapped_code key = KEY_ENTER)"
  obtains key' k2 where "kbGetLine_loop k buf index sz key ([c] # turns) =
        (if \<not> code_down c then kbGetLine_loop k2 buf index sz key' turns
         else do { (k3, buf', index', sz') \<leftarrow> edit_key k2 buf index sz key';
                   kbGetLine_loop k3 buf' index' sz' key' turns })"
    and "pending k2 = []" and "keyboard_ok k2" and "kb_tio k2 = kb_tio (kb_interrupt c k)"
    and "key_types key' = typed_char (modifiers_of k) c"
    and "modifiers_of k2 = after_code (modifiers_of k) c"
    and "mapped_code key' = scancode_set1ToMapped ! code_key c" and "down_stroke key' = code_down c"
    and "printable key' \<longleftrightarrow> scancode_set1 ! code_key c \<noteq> CHR ''?''"
    and "keyboard_initialized k2 = keyboard_initialized k"
proof -
  let ?k = "kb_interrupt c k"
  have q: "queue_ok k" using assms(1) by (simp add: keyboard_ok_def)
  have ok: "keyboard_ok ?k" using assms(1) kbq.enq_ok [OF q] by (simp add: keyboard_ok_def)
  have p: "pending ?k = [c]" using pending_interrupt [OF q] assms(2) by simp
  have m: "modifiers_of ?k = modifiers_of k" by (simp add: modifiers_of_def key_down_def)
  from kbNextMappedKey_decodes [OF ok p assms(3)] obtain key' k2
    where n: "kbNextMappedKey ?k = Some (key', k2)" and f: "pending k2 = []" "keyboard_ok k2"
      "kb_tio k2 = kb_tio ?k" "key_types key' = typed_char (modifiers_of ?k) c"
      "modifiers_of k2 = after_code (modifiers_of ?k) c"
      "mapped_code key' = scancode_set1ToMapped ! code_key c" "down_stroke key' = code_down c"
      "printable key' \<longleftrightarrow> scancode_set1 ! code_key c \<noteq> CHR ''?''" "keyboard_initialized k2 = keyboard_initialized k"
    by (metis kb_interrupt_initialized)
  have i: "kbHasNewInput ?k" using p has_input_pending by simp
  have "kbGetLine_loop k buf index sz key ([c] # turns) =
        (if \<not> code_down c then kbGetLine_loop k2 buf index sz key' turns
         else do { (k3, buf', index', sz') \<leftarrow> edit_key k2 buf index sz key';
                   kbGetLine_loop k3 buf' index' sz' key' turns })"
    using assms(4) i n f(7) by (auto simp: Let_def)
  then show thesis using that f unfolding m by blast
qed

text \<open>Any number of plain codes, each taken before a turn of its own.\<close>

abbreviation after_codes :: "modifiers \<Rightarrow> u8 list \<Rightarrow> modifiers" where
  "after_codes m codes \<equiv> fold (\<lambda>c m. after_code m c) codes m"

definition typed_so_far :: "keyboard \<Rightarrow> string \<Rightarrow> nat \<Rightarrow> string \<Rightarrow> keyboard \<Rightarrow> string \<Rightarrow> nat \<Rightarrow> MappedKey \<Rightarrow> bool" where
  "typed_so_far k buf s line k' buf' s' key' \<longleftrightarrow>
     s' = s + length line \<and> take s' buf' = take s buf @ line \<and> buf' ! s' = CHR 0x00
     \<and> length buf' = length buf \<and> keyboard_ok k' \<and> pending k' = []
     \<and> shows_line (kb_tio k) line (kb_tio k') \<and> \<not> (down_stroke key' \<and> mapped_code key' = KEY_ENTER)"

lemma kbGetLine_loop_types:
  "keyboard_ok k \<Longrightarrow> pending k = [] \<Longrightarrow> list_all plain_code codes \<Longrightarrow> tio_ok (kb_tio k) \<Longrightarrow>
   text_fits VGA_COLOR_WHITE (tio_pos (kb_tio k), pages (kb_tio k)) (typed_line (modifiers_of k) codes) \<Longrightarrow>
   s + length (typed_line (modifiers_of k) codes) < length buf \<Longrightarrow> buf ! s = CHR 0x00 \<Longrightarrow>
   \<not> (down_stroke key \<and> mapped_code key = KEY_ENTER) \<Longrightarrow>
   \<exists>buf' s' key' k'. kbGetLine_loop k buf (int s) (int s + 1) key (map (\<lambda>c. [c]) codes @ turns)
       = kbGetLine_loop k' buf' (int s') (int s' + 1) key' turns
     \<and> typed_so_far k buf s (typed_line (modifiers_of k) codes) k' buf' s' key'
     \<and> modifiers_of k' = after_codes (modifiers_of k) codes \<and> keyboard_initialized k' = keyboard_initialized k"
proof (induction codes arbitrary: k s buf key)
  case Nil
  have "shows_line (kb_tio k) [] (kb_tio k)" using Nil.prems(4) by (simp add: shows_line_def)
  then have "typed_so_far k buf s (typed_line (modifiers_of k) []) k buf s key"
    using Nil.prems by (simp add: typed_so_far_def typed_line_def)
  then show ?case by (intro exI [of _ buf] exI [of _ s] exI [of _ key] exI [of _ k]) simp
next
  case (Cons c codes)
  note P = Cons.prems
  let ?m = "modifiers_of k" and ?t = "kb_tio k"
  let ?turns = "map (\<lambda>c. [c]) codes @ turns"
  have pc: "plain_code c" "in_tables c" using P(3) by (simp_all add: plain_code_def)
  obtain key1 k1
    where e: "kbGetLine_loop k buf (int s) (int s + 1) key ([c] # ?turns) =
        (if \<not> code_down c then kbGetLine_loop k1 buf (int s) (int s + 1) key1 ?turns
         else do { (k3, buf', index', sz') \<leftarrow> edit_key k1 buf (int s) (int s + 1) key1;
                   kbGetLine_loop k3 buf' index' sz' key1 ?turns })"
      and f: "pending k1 = []" "keyboard_ok k1" "kb_tio k1 = kb_tio (kb_interrupt c k)"
      "key_types key1 = typed_char ?m c" "modifiers_of k1 = after_code ?m c"
      "mapped_code key1 = scancode_set1ToMapped ! code_key c" "down_stroke key1 = code_down c"
      "printable key1 \<longleftrightarrow> scancode_set1 ! code_key c \<noteq> CHR ''?''"
      "keyboard_initialized k1 = keyboard_initialized k"
    by (rule kbGetLine_loop_turn [OF P(1,2) pc(2) P(8)])
  have ne: "\<not> (down_stroke key1 \<and> mapped_code key1 = KEY_ENTER)" using plain_mapped(1) [OF pc(1)] f(6) by simp
  have tio: "tio_ok (kb_tio k1)" "tio_pos (kb_tio k1) = tio_pos ?t" "pages (kb_tio k1) = pages ?t"
    using P(4) f(3) by simp_all
  show ?case
  proof (cases "typed_char ?m c")
    case None
    have line: "typed_line ?m (c # codes) = typed_line (modifiers_of k1) codes"
      by (simp add: typed_line_def None f(5))
    have "kbGetLine_loop k buf (int s) (int s + 1) key ([c] # ?turns)
        = kbGetLine_loop k1 buf (int s) (int s + 1) key1 ?turns"
    proof (cases "code_down c")
      case True
      then have np: "\<not> printable key1" using None f(8) by (simp add: typed_char_def split: if_splits)
      then have "edit_key k1 buf (int s) (int s + 1) key1 = Some (k1, buf, int s, int s + 1)"
        using plain_mapped(2) [OF pc(1)] f(6,8) by (intro edit_key_ignores) simp_all
      then show ?thesis using e True by simp
    qed (use e in simp)
    moreover obtain buf' s' key' k' where ih: "kbGetLine_loop k1 buf (int s) (int s + 1) key1 ?turns
        = kbGetLine_loop k' buf' (int s') (int s' + 1) key' turns"
      "typed_so_far k1 buf s (typed_line (modifiers_of k1) codes) k' buf' s' key'"
      "modifiers_of k' = after_codes (modifiers_of k1) codes" "keyboard_initialized k' = keyboard_initialized k1"
      using Cons.IH [OF f(2,1) _ tio(1) _ _ P(7) ne] P(3,5,6) unfolding line tio by auto
    moreover have "typed_so_far k buf s (typed_line ?m (c # codes)) k' buf' s' key'"
      using ih(2) unfolding typed_so_far_def shows_line_def line tio .
    ultimately show ?thesis using ih(3,4) f(5,9)
      by (intro exI [of _ buf'] exI [of _ s'] exI [of _ key'] exI [of _ k']) simp
  next
    case (Some ch)
    have line: "typed_line ?m (c # codes) = ch # typed_line (modifiers_of k1) codes"
      by (simp add: typed_line_def Some f(5))
    have d: "code_down c" "printable key1" using Some f(8) by (auto simp: typed_char_def split: if_splits)
    have kc: "key_char key1 = Some ch" using f(4,7) d Some by (simp add: key_types_def)
    have fits: "text_fits VGA_COLOR_WHITE (tio_pos (kb_tio k1), pages (kb_tio k1)) [ch]"
      using P(5) by (simp add: line tio)
    have room: "s + 1 < length buf" using P(6) by (simp add: line)
    from edit_key_types [OF d(2) kc typed_char_not_control [OF pc(2) Some] room tio(1) fits] obtain t
      where t: "edit_key k1 buf (int s) (int s + 1) key1 = Some (k1\<lparr>kb_tio := t\<rparr>,
          take s buf @ ch # CHR 0x00 # drop (s + 2) buf, int (s + 1), int (s + 1) + 1)"
        "shows_line (kb_tio k1) [ch] t" by metis
    let ?b = "take s buf @ ch # CHR 0x00 # drop (s + 2) buf" and ?k = "k1\<lparr>kb_tio := t\<rparr>"
    have b: "?b ! (s + 1) = CHR 0x00" "length ?b = length buf" "take (s + 1) ?b = take s buf @ [ch]"
      using room by (simp_all add: nth_append)
    have sl: "tio_ok t" "(tio_pos t, pages t) = type_char VGA_COLOR_WHITE (tio_pos ?t, pages ?t) ch"
      using t(2) by (simp_all add: shows_line_def tio)
    have k: "keyboard_ok ?k" "pending ?k = []" "modifiers_of ?k = modifiers_of k1"
      using f(1,2) by (simp_all add: keyboard_ok_def queue_ok_def pending_def modifiers_of_def key_down_def)
    have "kbGetLine_loop k buf (int s) (int s + 1) key ([c] # ?turns)
        = kbGetLine_loop ?k ?b (int (s + 1)) (int (s + 1) + 1) key1 ?turns"
      using e d(1) t(1) by simp
    moreover obtain buf' s' key' k' where ih: "kbGetLine_loop ?k ?b (int (s + 1)) (int (s + 1) + 1) key1 ?turns
        = kbGetLine_loop k' buf' (int s') (int s' + 1) key' turns"
      "typed_so_far ?k ?b (s + 1) (typed_line (modifiers_of ?k) codes) k' buf' s' key'"
      "modifiers_of k' = after_codes (modifiers_of k1) codes" "keyboard_initialized k' = keyboard_initialized k1"
      using Cons.IH [of ?k "s + 1" ?b key1, OF k(1,2) _ _ _ _ b(1) ne] P(3,5,6) sl
      unfolding k(3) line b(2) by (auto simp del: kbGetLine_loop.simps)
    moreover have "typed_so_far k buf s (typed_line ?m (c # codes)) k' buf' s' key'"
      using ih(2) sl(2) unfolding typed_so_far_def shows_line_def line b k(3) by auto
    ultimately show ?thesis using ih(3,4) f(5,9)
      by (intro exI [of _ buf'] exI [of _ s'] exI [of _ key'] exI [of _ k']) simp
  qed
qed

lemma kbGetLine_returns:
  assumes "keyboard_ok k" and "pending k = []" and "keyboard_initialized k" and "tio_ok (kb_tio k)"
    and "list_all plain_code codes" and "line = typed_line (modifiers_of k) codes"
    and "length line < length buf" and "buf ! 0 = CHR 0x00"
    and "text_fits VGA_COLOR_WHITE (tio_pos (kb_tio k), pages (kb_tio k)) line"
  shows "\<exists>buf' k'. kbGetLine dev k buf (map (\<lambda>c. [c]) codes @ [[0x1c]]) = Some (buf', k')
    \<and> take (length line) buf' = line \<and> buf' ! length line = CHR 0x00 \<and> length buf' = length buf
    \<and> pending k' = [] \<and> keyboard_ok k' \<and> keyboard_initialized k' \<and> shows_line (kb_tio k) line (kb_tio k')
    \<and> modifiers_of k' = after_codes (modifiers_of k) codes"
proof -
  have s0: "\<not> (down_stroke no_key \<and> mapped_code no_key = KEY_ENTER)" by (simp add: no_key_def)
  obtain buf1 s key1 k1 where l: "kbGetLine_loop k buf (int 0) (int 0 + 1) no_key (map (\<lambda>c. [c]) codes @ [[0x1c]])
       = kbGetLine_loop k1 buf1 (int s) (int s + 1) key1 [[0x1c]]"
     "typed_so_far k buf 0 line k1 buf1 s key1" "modifiers_of k1 = after_codes (modifiers_of k) codes"
     "keyboard_initialized k1 = keyboard_initialized k"
    using kbGetLine_loop_types [OF assms(1,2,5,4) _ _ _ s0, of 0 buf "[[0x1c]]"] assms(6-9)
    unfolding assms(6) [symmetric] by auto
  note ty = l(2) [unfolded typed_so_far_def]
  then have k1: "keyboard_ok k1" "pending k1 = []" "\<not> (down_stroke key1 \<and> mapped_code key1 = KEY_ENTER)"
    by simp_all
  have enter: "in_tables 0x1c" "code_key 0x1c = 0x1c" "code_down 0x1c"
    "scancode_set1ToMapped ! 0x1c = KEY_ENTER" "scancode_set1 ! 0x1c = CHR ''?''"
    by code_simp+
  obtain key2 k2 where e: "kbGetLine_loop k1 buf1 (int s) (int s + 1) key1 ([0x1c] # []) =
        (if \<not> code_down 0x1c then kbGetLine_loop k2 buf1 (int s) (int s + 1) key2 []
         else do { (k3, buf', index', sz') \<leftarrow> edit_key k2 buf1 (int s) (int s + 1) key2;
                   kbGetLine_loop k3 buf' index' sz' key2 [] })"
      and f: "pending k2 = []" "keyboard_ok k2" "kb_tio k2 = kb_tio (kb_interrupt 0x1c k1)"
      "key_types key2 = typed_char (modifiers_of k1) 0x1c"
      "modifiers_of k2 = after_code (modifiers_of k1) 0x1c"
      "mapped_code key2 = scancode_set1ToMapped ! code_key 0x1c" "down_stroke key2 = code_down 0x1c"
      "printable key2 \<longleftrightarrow> scancode_set1 ! code_key 0x1c \<noteq> CHR ''?''"
      "keyboard_initialized k2 = keyboard_initialized k1"
    by (rule kbGetLine_loop_turn [OF k1(1,2) enter(1) k1(3)])
  have "edit_key k2 buf1 (int s) (int s + 1) key2 = Some (k2, buf1, int s, int s + 1)"
    using f(6,8) unfolding enter
    by (intro edit_key_ignores) (simp_all add: KEY_ENTER_def KEY_BACKSPACE_def KEY_ARROW_LEFT_def
        KEY_ARROW_RIGHT_def KEY_ARROW_UP_def KEY_ARROW_DOWN_def)
  then have "kbGetLine dev k buf (map (\<lambda>c. [c]) codes @ [[0x1c]]) = Some (buf1, k2)"
    using assms(3) l(1) e f(6,7) enter(3) unfolding enter(2,4) kbGetLine_def
    by (simp del: kbGetLine_loop.simps(2))
  moreover have "after_code m 0x1c = m" for m by (simp add: after_code_def enter(2) KEY_L_SHIFT_def)
  ultimately show ?thesis
    using ty f(1-3,5,9) l(3,4) assms(3) by (intro exI [of _ buf1] exI [of _ k2]) (auto simp: shows_line_def)
qed

text \<open>
  A line typed at the keyboard. Codes of plain keys that come in one interrupt per turn of
  the loop, and then the code of enter, make \<open>kbGetLine\<close> return with the typed line at the
  start of the buffer, terminated, and with exactly that line typed on the terminal, when the
  buffer has room for it and its terminator and the terminal for the characters. The line is
  the text the modifiers give: shift held, released and caps lock within the line included.
\<close>

theorem kbGetLine_types_line:
  assumes "keyboard_ok k" and "pending k = []" and "keyboard_initialized k" and "tio_ok (kb_tio k)"
    and "list_all plain_code codes" and "line = typed_line (modifiers_of k) codes"
    and "length line < length buf" and "buf ! 0 = CHR 0x00"
    and "text_fits VGA_COLOR_WHITE (tio_pos (kb_tio k), pages (kb_tio k)) line"
  shows "\<exists>buf' k'. kbGetLine dev k buf (map (\<lambda>c. [c]) codes @ [[0x1c]]) = Some (buf', k')
    \<and> take (length line) buf' = line \<and> buf' ! length line = CHR 0x00 \<and> length buf' = length buf
    \<and> \<not> kbHasNewInput k' \<and> shows_line (kb_tio k) line (kb_tio k')"
  using kbGetLine_returns [OF assms, of dev] by (auto simp: has_input_pending)

lemma boot_modifiers: "modifiers_of boot_keyboard = \<lparr>l_shift = False, r_shift = False, caps_lock = False\<rparr>"
  by (simp add: modifiers_of_def key_down_def boot_keyboard_def KEY_L_SHIFT_def KEY_R_SHIFT_def KEY_CAPS_def)

text \<open>\<open>h\<close> pressed and released, shift, \<open>i\<close>, shift released.\<close>

theorem kbGetLine_types_line_witness:
  "\<exists>buf' k'. kbGetLine (constant_device 0) boot_keyboard (replicate 512 (CHR 0x00))
      (map (\<lambda>c. [c]) [0x23, 0xa3, 0x2a, 0x17, 0xaa] @ [[0x1c]]) = Some (buf', k')
      \<and> take 2 buf' = ''hI'' \<and> tio_pos (kb_tio k') = 2"
proof -
  let ?codes = "[0x23, 0xa3, 0x2a, 0x17, 0xaa] :: u8 list"
  have c: "list_all plain_code ?codes" by code_simp
  have l: "''hI'' = typed_line (modifiers_of boot_keyboard) ?codes" unfolding boot_modifiers by code_simp
  have t: "kb_tio boot_keyboard = boot_tio" "keyboard_initialized boot_keyboard"
    by (simp_all add: boot_keyboard_def)
  have f: "text_fits VGA_COLOR_WHITE (tio_pos (kb_tio boot_keyboard), pages (kb_tio boot_keyboard)) ''hI''"
    unfolding t boot_tio_ok by (simp add: type_char_def last_position_def)
  have p: "fst (type_text VGA_COLOR_WHITE (tio_pos boot_tio, pages boot_tio) ''hI'') = 2"
    unfolding boot_tio_ok by (simp add: type_char_def)
  have r: "length ''hI'' < length (replicate 512 (CHR 0x00))" "replicate 512 (CHR 0x00) ! 0 = CHR 0x00" by simp_all
  obtain buf' k' where "kbGetLine (constant_device 0) boot_keyboard (replicate 512 (CHR 0x00))
      (map (\<lambda>c. [c]) ?codes @ [[0x1c]]) = Some (buf', k')" "take (length ''hI'') buf' = ''hI''"
    "shows_line (kb_tio boot_keyboard) ''hI'' (kb_tio k')"
    using kbGetLine_types_line [OF boot_keyboard_ok boot_keyboard_queue(1) t(2) boot_tio_ok(1) [folded t(1)] c l r f]
    by metis
  moreover from this(3) have "tio_pos (kb_tio k') = 2" using p unfolding shows_line_def t by (metis fst_conv)
  ultimately show ?thesis by (auto simp: numeral_2_eq_2)
qed

end
