(* ===== verification/Tio_Edit.thy ===== *)
theory Tio_Edit
  imports Tio_Props Keyboard_Line
begin

text \<open>
  Editing on the terminal: moving the cursor back, opening and closing a gap in the text on the
  screen, and what the backspace key does to the screen as against the line it edits.
\<close>

section \<open>Gaps\<close>

text \<open>The buffer with the cells \<open>p + 1\<close> to \<open>e\<close> taking their left neighbour's entry, and the converse.\<close>

definition opened :: "u16 list \<Rightarrow> nat \<Rightarrow> nat \<Rightarrow> u16 list" where
  "opened ps p e = map (\<lambda>i. if p < i \<and> i \<le> e then ps ! (i - 1) else ps ! i) [0..<length ps]"

definition closed_up :: "u16 list \<Rightarrow> nat \<Rightarrow> nat \<Rightarrow> u16 list" where
  "closed_up ps p e = map (\<lambda>i. if p \<le> i \<and> i < e then ps ! (i + 1) else ps ! i) [0..<length ps]"

lemma gap_lengths [simp]: "length (opened ps p e) = length ps" "length (closed_up ps p e) = length ps"
  by (simp_all add: opened_def closed_up_def)

lemma gap_nth:
  "i < length ps \<Longrightarrow> opened ps p e ! i = (if p < i \<and> i \<le> e then ps ! (i - 1) else ps ! i)"
  "i < length ps \<Longrightarrow> closed_up ps p e ! i = (if p \<le> i \<and> i < e then ps ! (i + 1) else ps ! i)"
  by (simp_all add: opened_def closed_up_def)

lemma gap_empty: "opened ps p p = ps" "closed_up ps p p = ps"
  by (rule nth_equalityI; auto simp: gap_nth)+

lemma shift_right_loop_opens:
  "n \<le> j \<Longrightarrow> j < length (pages t) \<Longrightarrow>
   shift_right_loop t (int j) n = Some (t\<lparr>pages := opened (pages t) (j - n) j\<rparr>)"
proof (induction n arbitrary: j t)
  case 0
  then show ?case by (simp add: gap_empty)
next
  case (Suc n)
  let ?ps = "pages t" and ?t = "t\<lparr>pages := (pages t)[j := pages t ! (j - 1)]\<rparr>"
  have j: "0 < j" "nat (int j - 1) = j - 1" "int j - 1 = int (j - 1)" using Suc.prems by auto
  have v: "vb_get_value t (int j - 1) = Some (?ps ! (j - 1))" "vb_set_value t (int j) (?ps ! (j - 1)) = Some ?t"
    using Suc.prems j(1,2) by (simp_all add: vb_get_value_def nth_int_def vb_set_value_def update_int_def)
  have "opened (pages ?t) (j - 1 - n) (j - 1) = opened ?ps (j - Suc n) j"
    using Suc.prems j(1) by (intro nth_equalityI) (auto simp: gap_nth nth_list_update)
  moreover have "shift_right_loop ?t (int (j - 1)) n = Some (?t\<lparr>pages := opened (pages ?t) (j - 1 - n) (j - 1)\<rparr>)"
    using Suc.prems by (intro Suc.IH) auto
  moreover have "shift_right_loop t (int j) (Suc n) = shift_right_loop ?t (int j - 1) n"
    by (simp only: shift_right_loop.simps v bind.bind_lunit)
  ultimately show ?case unfolding j(3) by simp
qed

lemma shift_left_loop_closes:
  "j + n < length (pages t) \<Longrightarrow>
   shift_left_loop t (int j) n = Some (t\<lparr>pages := closed_up (pages t) j (j + n)\<rparr>)"
proof (induction n arbitrary: j t)
  case 0
  then show ?case by (simp add: gap_empty)
next
  case (Suc n)
  let ?ps = "pages t" and ?t = "t\<lparr>pages := (pages t)[j := pages t ! (j + 1)]\<rparr>"
  have v: "vb_get_value t (int j + 1) = Some (?ps ! (j + 1))" "vb_set_value t (int j) (?ps ! (j + 1)) = Some ?t"
    using Suc.prems by (simp_all add: vb_get_value_def nth_int_def vb_set_value_def update_int_def nat_add_distrib)
  have "closed_up (pages ?t) (j + 1) (j + 1 + n) = closed_up ?ps j (j + Suc n)"
    using Suc.prems by (intro nth_equalityI) (auto simp: gap_nth nth_list_update)
  then show ?case using Suc.IH [of "j + 1" ?t] Suc.prems v by (simp add: add.commute)
qed

section \<open>The operations\<close>

text \<open>The first position below the view.\<close>

definition view_end :: "tio \<Rightarrow> nat" where "view_end t = nat (view_row t + 24) * 80"

lemma view_positions:
  assumes "tio_ok t"
  shows "view_get_buffer_end_index t = int (view_end t)" and "cursor_get_index_in_buffer t = int (tio_pos t)"
    and "tio_pos t < view_end t" and "view_end t < 19200"
    and "cursor_get_index t = int (tio_pos t) - view_row t * 80" and "0 \<le> cursor_get_index t" and "cursor_get_index t < 1920"
  using assms tio_pos_int [OF assms]
  by (auto simp: tio_ok_def view_end_def view_get_buffer_end_index_def cursor_get_index_in_buffer_def
      cursor_get_index_def TERM_WIDTH_def nat_less_iff zless_nat_eq_int_zless)

text \<open>Drawing the screen after a change of the buffer.\<close>

lemma render_ok:
  assumes "tio_ok t" and "length ps = 19200"
  obtains t' where "render_screen (t\<lparr>pages := ps\<rparr>) = Some t'" and "tio_ok t'" and "tio_pos t' = tio_pos t"
    and "pages t' = ps" and "mirrors t'" and "cursor_x t' = cursor_x t" and "cursor_y t' = cursor_y t" and "view_row t' = view_row t"
proof -
  obtain vb where "render_screen (t\<lparr>pages := ps\<rparr>) = Some (t\<lparr>pages := ps, platform_vb := vb\<rparr>)"
    "length vb = length (platform_vb t)" "\<forall>i < 1920. vb ! i = ps ! (nat (view_row t) * 80 + i)"
    using render_screen_copies [of "t\<lparr>pages := ps\<rparr>"] assms by (auto simp: tio_ok_def)
  then show thesis
    using assms by (intro that [of "t\<lparr>pages := ps, platform_vb := vb\<rparr>"]) (simp_all add: tio_ok_def tio_pos_def mirrors_def)
qed

lemma mirrors_cursor:
  assumes "tio_ok t" and "mirrors t"
  shows "nth_int (platform_vb t) (cursor_get_index t) = Some (pages t ! tio_pos t)"
proof -
  note p = view_positions [OF assms(1)]
  have "nat (cursor_get_index t) < 1920" using p(6,7) by simp
  moreover have "int (nat (view_row t) * 80 + nat (cursor_get_index t)) = int (tio_pos t)"
    using p(5,6) assms(1) by (simp add: tio_ok_def)
  then have "nat (view_row t) * 80 + nat (cursor_get_index t) = tio_pos t" by (simp only: of_nat_eq_iff)
  ultimately show ?thesis
    using assms p(6) by (simp add: nth_int_def mirrors_def tio_ok_def nth_opt_def)
qed

lemma tio_shift_right_opens:
  assumes "tio_ok t" and "mirrors t"
  obtains t' where "tio_shift_right t = Some t'" and "tio_ok t'" and "tio_pos t' = tio_pos t" and "mirrors t'"
    and "pages t' = opened (pages t) (tio_pos t) (view_end t)" and "cursor_x t' = cursor_x t"
proof -
  note p = view_positions [OF assms(1)]
  let ?ps = "opened (pages t) (tio_pos t) (view_end t)"
  have len: "length (pages t) = 19200" using assms(1) by (simp add: tio_ok_def)
  have loop: "shift_right_loop t (view_get_buffer_end_index t)
      (nat (view_get_buffer_end_index t - cursor_get_index_in_buffer t)) = Some (t\<lparr>pages := ?ps\<rparr>)"
    using shift_right_loop_opens [of "view_end t - tio_pos t" "view_end t" t] p(1-4) len by (simp add: nat_diff_distrib')
  have same: "?ps[tio_pos t := pages t ! tio_pos t] = ?ps"
    using p(3,4) len by (simp add: list_eq_iff_nth_eq nth_list_update gap_nth)
  have set: "vb_set_value (t\<lparr>pages := ?ps\<rparr>) (cursor_get_index_in_buffer t) (pages t ! tio_pos t) = Some (t\<lparr>pages := ?ps\<rparr>)"
    using p(2-4) len same by (simp add: vb_set_value_def update_int_def update_opt_def)
  obtain t' where t': "render_screen (t\<lparr>pages := ?ps\<rparr>) = Some t'" "tio_ok t'" "tio_pos t' = tio_pos t"
    "pages t' = ?ps" "mirrors t'" "cursor_x t' = cursor_x t"
    by (rule render_ok [OF assms(1), of ?ps]) (use len in auto)
  have "tio_shift_right t = Some t'"
    using loop set t'(1) mirrors_cursor [OF assms] by (simp add: tio_shift_right_def Let_def cursor_get_index_def)
  from that [OF this t'(2,3,5,4,6)] show thesis .
qed

lemma tio_shift_left_closes:
  assumes "tio_ok t" and "0 < cursor_x t"
  obtains t' where "tio_shift_left t = Some t'" and "tio_ok t'" and "tio_pos t' = tio_pos t" and "mirrors t'"
    and "pages t' = closed_up (pages t) (tio_pos t) (view_end t)" and "cursor_x t' = cursor_x t" and "view_row t' = view_row t"
proof -
  note p = view_positions [OF assms(1)]
  let ?ps = "closed_up (pages t) (tio_pos t) (view_end t)"
  have len: "length (pages t) = 19200" using assms(1) by (simp add: tio_ok_def)
  have loop: "shift_left_loop t (cursor_get_index_in_buffer t)
      (nat (view_get_buffer_end_index t - cursor_get_index_in_buffer t)) = Some (t\<lparr>pages := ?ps\<rparr>)"
    using shift_left_loop_closes [of "tio_pos t" "view_end t - tio_pos t" t] p(1-4) len by (simp add: nat_diff_distrib')
  obtain t' where t': "render_screen (t\<lparr>pages := ?ps\<rparr>) = Some t'" "tio_ok t'" "tio_pos t' = tio_pos t"
    "pages t' = ?ps" "mirrors t'" "cursor_x t' = cursor_x t" "view_row t' = view_row t"
    by (rule render_ok [OF assms(1), of ?ps]) (use len in auto)
  have "tio_shift_left t = Some t'"
    using assms(2) loop t'(1) by (simp add: tio_shift_left_def Let_def)
  from that [OF this t'(2,3,5,4,6,7)] show thesis .
qed

text \<open>The cursor one back: at the left margin to the line above, in the first line to its end.\<close>

definition pos_before :: "tio \<Rightarrow> nat" where
  "pos_before t = (if cursor_x t = 0 \<and> cursor_y t = 0 then tio_pos t + 79 else tio_pos t - 1)"

lemma tio_cursor_dec_ok:
  assumes "tio_ok t"
  shows "tio_ok (tio_cursor_dec t)" and "tio_pos (tio_cursor_dec t) = pos_before t"
    and "pages (tio_cursor_dec t) = pages t" and "mirrors (tio_cursor_dec t) = mirrors t" and "view_row (tio_cursor_dec t) = view_row t"
proof -
  define t3 where "t3 = (if 0 < cursor_x t then t\<lparr>cursor_x := cursor_x t - 1\<rparr>
    else t\<lparr>cursor_y := (if cursor_y t = 0 then 0 else cursor_y t - 1), cursor_x := 79\<rparr>)"
  have b: "0 \<le> cursor_x t" "cursor_x t < 80" "0 \<le> cursor_y t" "cursor_y t \<le> 22" "0 \<le> view_row t"
    using assms by (simp_all add: tio_ok_def)
  have dec: "tio_cursor_dec t = render_cursor t3"
    using b by (cases t) (auto simp: tio_cursor_dec_def t3_def Let_def TERM_WIDTH_def)
  show "tio_ok (tio_cursor_dec t)" "pages (tio_cursor_dec t) = pages t" "mirrors (tio_cursor_dec t) = mirrors t"
    "view_row (tio_cursor_dec t) = view_row t"
    using assms by (auto simp: dec t3_def tio_ok_def mirrors_def)
  have "int (tio_pos t3) = int (pos_before t)"
    using b tio_pos_int [OF assms] by (auto simp: t3_def pos_before_def tio_pos_def algebra_simps of_nat_diff)
  then show "tio_pos (tio_cursor_dec t) = pos_before t" by (simp add: dec)
qed

lemma tio_backspace_moves:
  assumes "tio_ok t" and "mirrors t"
  obtains t' where "tio_backspace t = Some t'" and "tio_ok t'" and "tio_pos t' = pos_before t" and "mirrors t'"
    and "pages t' = pages t"
proof -
  let ?t = "tio_cursor_dec t"
  note d = tio_cursor_dec_ok [OF assms(1)]
  have m: "mirrors ?t" using d(4) assms(2) by simp
  have "update_int (pages ?t) (cursor_get_index_in_buffer ?t) (pages ?t ! tio_pos ?t) = Some (pages ?t)"
    using view_positions(2-4) [OF d(1)] d(1) by (simp add: update_int_def update_opt_def tio_ok_def)
  then have "tio_backspace t = Some ?t"
    using mirrors_cursor [OF d(1) m] by (simp add: tio_backspace_def Let_def vb_set_value_def)
  from that [OF this d(1,2) m d(3)] show thesis .
qed

section \<open>Every operation keeps a terminal in working order\<close>

lemma cursor_entry:
  assumes "tio_ok t"
  obtains v where "nth_int (platform_vb t) (cursor_get_index t) = Some v"
  using view_positions(6,7) [OF assms] assms that
  by (auto simp: nth_int_def nth_opt_def tio_ok_def nat_less_iff)

lemma vb_set_value_ok:
  assumes "tio_ok t" and "p < 19200"
  shows "vb_set_value t (int p) v = Some (t\<lparr>pages := (pages t)[p := v]\<rparr>)"
  using assms by (simp add: vb_set_value_def update_int_def update_opt_def tio_ok_def)

lemma tio_backspace_ok:
  assumes "tio_ok t"
  obtains t' where "tio_backspace t = Some t'" and "tio_ok t'"
proof -
  let ?t = "tio_cursor_dec t"
  note d = tio_cursor_dec_ok(1) [OF assms]
  obtain v where v: "nth_int (platform_vb ?t) (cursor_get_index ?t) = Some v" by (rule cursor_entry [OF d])
  have "tio_backspace t = Some (?t\<lparr>pages := (pages ?t)[tio_pos ?t := v]\<rparr>)"
    using v vb_set_value_ok [OF d, of "tio_pos ?t"] view_positions(2-4) [OF d]
    by (simp add: tio_backspace_def Let_def)
  then show thesis using that d by (simp add: tio_ok_def)
qed

lemma tio_shift_right_ok:
  assumes "tio_ok t"
  obtains t' where "tio_shift_right t = Some t'" and "tio_ok t'"
proof -
  note p = view_positions [OF assms]
  let ?t = "t\<lparr>pages := opened (pages t) (tio_pos t) (view_end t)\<rparr>"
  obtain v where v: "nth_int (platform_vb t) (cursor_get_index t) = Some v" by (rule cursor_entry [OF assms])
  have len: "length (pages t) = 19200" using assms by (simp add: tio_ok_def)
  have ok: "tio_ok ?t" using assms by (simp add: tio_ok_def)
  have loop: "shift_right_loop t (view_get_buffer_end_index t)
      (nat (view_get_buffer_end_index t - cursor_get_index_in_buffer t)) = Some ?t"
    using shift_right_loop_opens [of "view_end t - tio_pos t" "view_end t" t] p(1-4) len by (simp add: nat_diff_distrib')
  let ?ps = "(pages ?t)[tio_pos t := v]"
  have set: "vb_set_value ?t (cursor_get_index_in_buffer t) v = Some (t\<lparr>pages := ?ps\<rparr>)"
    using vb_set_value_ok [OF ok, of "tio_pos t"] p(2-4) by simp
  obtain t' where "render_screen (t\<lparr>pages := ?ps\<rparr>) = Some t'" "tio_ok t'"
    by (rule render_ok [OF assms, of ?ps]) (use len in auto)
  moreover have "cursor_get_index ?t = cursor_get_index t" by (simp add: cursor_get_index_def)
  ultimately show thesis using that loop set v by (simp add: tio_shift_right_def Let_def)
qed

lemma tio_shift_left_ok:
  assumes "tio_ok t"
  obtains t' where "tio_shift_left t = Some t'" and "tio_ok t'"
proof -
  note p = view_positions [OF assms]
  define j where "j = (if cursor_x t = 0 then tio_pos t + 1 else tio_pos t)"
  have j: "(if cursor_x t = 0 then cursor_get_index_in_buffer t + 1 else cursor_get_index_in_buffer t) = int j"
    "j \<le> view_end t" using p(2,3) by (simp_all add: j_def)
  have len: "length (pages t) = 19200" using assms by (simp add: tio_ok_def)
  let ?ps = "closed_up (pages t) j (view_end t)"
  have loop: "shift_left_loop t (int j) (nat (view_get_buffer_end_index t - int j)) = Some (t\<lparr>pages := ?ps\<rparr>)"
    using shift_left_loop_closes [of j "view_end t - j" t] j(2) p(1,4) len by (simp add: nat_diff_distrib')
  obtain t' where "render_screen (t\<lparr>pages := ?ps\<rparr>) = Some t'" "tio_ok t'"
    by (rule render_ok [OF assms, of ?ps]) (use len in auto)
  then show thesis using that loop unfolding tio_shift_left_def Let_def j(1) by simp
qed

text \<open>The operations that draw and move the cursor, and the states in which the first two are at the end of the buffer.\<close>

datatype tio_op = Put char u8 | Forward | Back | Erase | Open_gap | Close_gap

fun tio_do :: "tio_op \<Rightarrow> tio \<Rightarrow> tio option" where
  "tio_do (Put c vc) t = tio_write_char_color t c vc"
| "tio_do Forward t = tio_cursor_inc t"
| "tio_do Back t = Some (tio_cursor_dec t)"
| "tio_do Erase t = tio_backspace t"
| "tio_do Open_gap t = tio_shift_right t"
| "tio_do Close_gap t = tio_shift_left t"

fun tio_run :: "tio_op list \<Rightarrow> tio \<Rightarrow> tio option" where
  "tio_run [] t = Some t"
| "tio_run (x # xs) t = Option.bind (tio_do x t) (tio_run xs)"

fun at_end :: "tio_op \<Rightarrow> tio \<Rightarrow> bool" where
  "at_end (Put c vc) t \<longleftrightarrow> last_position \<le> fst (type_char vc (tio_pos t, pages t) c)"
| "at_end Forward t \<longleftrightarrow> last_position \<le> tio_pos t + 1"
| "at_end x t \<longleftrightarrow> False"

lemma tio_do_ok:
  assumes "tio_ok t"
  shows "if at_end x t then tio_do x t = None else \<exists>t'. tio_do x t = Some t' \<and> tio_ok t'"
proof (cases x)
  case (Put c vc)
  then show ?thesis using write_char_refines [OF assms, of vc c] by (auto split: if_splits)
next
  case Forward
  then show ?thesis using cursor_inc_ok [OF assms] by (auto split: if_splits)
next
  case Back
  then show ?thesis using tio_cursor_dec_ok(1) [OF assms] by simp
next
  case Erase
  then show ?thesis using tio_backspace_ok [OF assms] by (simp, metis)
next
  case Open_gap
  then show ?thesis using tio_shift_right_ok [OF assms] by (simp, metis)
next
  case Close_gap
  then show ?thesis using tio_shift_left_ok [OF assms] by (simp, metis)
qed

text \<open>A sequence that goes well up to an operation at the end of the buffer.\<close>

definition runs_to_end :: "tio_op list \<Rightarrow> tio \<Rightarrow> bool" where
  "runs_to_end xs t \<longleftrightarrow>
     (\<exists>pre x post t'. xs = pre @ x # post \<and> tio_run pre t = Some t' \<and> tio_ok t' \<and> at_end x t')"

lemma runs_to_end_now: "tio_ok t \<Longrightarrow> at_end x t \<Longrightarrow> runs_to_end (x # xs) t"
  unfolding runs_to_end_def by (rule exI [of _ "[]"]) simp

lemma runs_to_end_later:
  assumes "runs_to_end xs t1" and "tio_do x t = Some t1"
  shows "runs_to_end (x # xs) t"
proof -
  obtain pre y post t' where "xs = pre @ y # post" "tio_run pre t1 = Some t'" "tio_ok t'" "at_end y t'"
    using assms(1) by (auto simp: runs_to_end_def)
  then have "x # xs = (x # pre) @ y # post \<and> tio_run (x # pre) t = Some t' \<and> tio_ok t' \<and> at_end y t'"
    using assms(2) by simp
  then show ?thesis unfolding runs_to_end_def by blast
qed

lemma tio_run_ok:
  "tio_ok t \<Longrightarrow> case tio_run xs t of Some t' \<Rightarrow> tio_ok t' | None \<Rightarrow> runs_to_end xs t"
proof (induction xs arbitrary: t)
  case (Cons x xs)
  show ?case
  proof (cases "at_end x t")
    case True
    then show ?thesis using tio_do_ok [OF Cons.prems, of x] runs_to_end_now [OF Cons.prems True] by simp
  next
    case False
    then obtain t1 where t1: "tio_do x t = Some t1" "tio_ok t1" using tio_do_ok [OF Cons.prems, of x] by auto
    have "tio_run (x # xs) t = tio_run xs t1" using t1(1) by simp
    then show ?thesis
      using Cons.IH [OF t1(2)] runs_to_end_later [OF _ t1(1), of xs] by (simp split: option.splits)
  qed
qed simp

text \<open>
  C24: The operations of the terminal are closed on terminals in working order. From one, any
  sequence of writing characters, moving the cursor on and back, erasing, and opening and closing
  a gap either returns, and the terminal is in working order again (the buffers at their sizes,
  the view inside the buffer, the cursor on the screen); or it leaves its buffers at one
  operation, which comes after a part of the sequence that went well and is a character written
  or a cursor moved on to line 238 of the buffer or beyond. No other operation can fail.
\<close>

theorem terminal_operations_closed:
  assumes "tio_ok t"
  shows "case tio_run xs t of Some t' \<Rightarrow> tio_ok t' | None \<Rightarrow> runs_to_end xs t"
  by (rule tio_run_ok [OF assms])

theorem terminal_operations_closed_witness:
  "\<exists>t'. tio_run [Put (CHR ''a'') VGA_COLOR_WHITE, Erase, Back, Close_gap, Open_gap] boot_tio = Some t' \<and> tio_ok t'"
proof -
  obtain t1 where t1: "tio_run [Put (CHR ''a'') VGA_COLOR_WHITE] boot_tio = Some t1" "tio_ok t1"
    using write_char_refines [OF boot_tio_ok(1), of VGA_COLOR_WHITE "CHR ''a''"]
    by (auto simp: boot_tio_ok type_char_def last_position_def)
  have "\<not> runs_to_end [Erase, Back, Close_gap, Open_gap] t1"
    by (auto simp: runs_to_end_def Cons_eq_append_conv)
  then obtain t2 where "tio_run [Erase, Back, Close_gap, Open_gap] t1 = Some t2" "tio_ok t2"
    using terminal_operations_closed [OF t1(2), of "[Erase, Back, Close_gap, Open_gap]"] by (auto split: option.splits)
  with t1(1) show ?thesis by (auto simp del: tio_do.simps split: bind_splits)
qed

section \<open>The keys and the screen\<close>

lemma backspace_screen:
  assumes "tio_ok t" and "0 < cursor_x t"
  obtains t1 t2 where "tio_shift_left t = Some t1" and "tio_backspace t1 = Some t2" and "tio_ok t2"
    and "mirrors t2" and "tio_pos t2 = tio_pos t - 1" and "pages t2 = closed_up (pages t) (tio_pos t) (view_end t)"
proof -
  obtain t1 where t1: "tio_shift_left t = Some t1" "tio_ok t1" "tio_pos t1 = tio_pos t" "mirrors t1"
    "pages t1 = closed_up (pages t) (tio_pos t) (view_end t)" "cursor_x t1 = cursor_x t"
    by (rule tio_shift_left_closes [OF assms]) blast
  obtain t2 where t2: "tio_backspace t1 = Some t2" "tio_ok t2" "tio_pos t2 = pos_before t1" "mirrors t2" "pages t2 = pages t1"
    by (rule tio_backspace_moves [OF t1(2,4)]) blast
  show thesis
    using that [OF t1(1) t2(1,2,4)] t2(3,5) t1(3,5,6) assms(2) by (simp add: pos_before_def)
qed

text \<open>
  C32: Backspace takes one character from the line and another from the screen. With the cursor
  past the left margin and a character before the point, the key returns, the line loses the
  character before the point and the cursor moves back by one; but on the screen it is the cell
  under the cursor that goes and what follows it that moves up, so that the entry before the
  cursor, where the deleted character was written, stays where it is, now under the cursor.
\<close>

theorem backspace_screen_differs:
  assumes "tio_ok (kb_tio k)" and "0 < cursor_x (kb_tio k)" and "line_ok buf index sz" and "0 < index"
    and "\<not> printable key" and "mapped_code key = KEY_BACKSPACE"
  shows "\<exists>k' buf' index' sz'. edit_key k buf index sz key = Some (k', buf', index', sz')
    \<and> line_of buf' index' sz' = line_delete (line_of buf index sz)
    \<and> tio_ok (kb_tio k') \<and> mirrors (kb_tio k') \<and> tio_pos (kb_tio k') = tio_pos (kb_tio k) - 1
    \<and> pages (kb_tio k') = closed_up (pages (kb_tio k)) (tio_pos (kb_tio k)) (view_end (kb_tio k))
    \<and> pages (kb_tio k') ! tio_pos (kb_tio k') = pages (kb_tio k) ! (tio_pos (kb_tio k) - 1)"
proof -
  obtain t1 t2 where t: "tio_shift_left (kb_tio k) = Some t1" "tio_backspace t1 = Some t2" "tio_ok t2" "mirrors t2"
    "tio_pos t2 = tio_pos (kb_tio k) - 1" "pages t2 = closed_up (pages (kb_tio k)) (tio_pos (kb_tio k)) (view_end (kb_tio k))"
    by (rule backspace_screen [OF assms(1,2)])
  obtain b i s where d: "buffer_delete buf index sz = Some (b, i, s)" "line_of b i s = line_delete (line_of buf index sz)"
    by (rule line_delete_refines [OF assms(3,4)]) blast
  have pos: "0 < tio_pos (kb_tio k)" "tio_pos (kb_tio k) < 19200"
    using tio_pos_int [OF assms(1)] assms(1,2) view_positions(3,4) [OF assms(1)] by (auto simp: tio_ok_def)
  then have "pages t2 ! tio_pos t2 = pages (kb_tio k) ! (tio_pos (kb_tio k) - 1)"
    using assms(1) by (auto simp: t(5,6) gap_nth tio_ok_def)
  moreover have "edit_key k buf index sz key = Some (k\<lparr>kb_tio := t2\<rparr>, b, i, s)"
    using assms(4-6) t(1,2) d(1) by (simp add: edit_key_def KEY_BACKSPACE_def KEY_ARROW_LEFT_def
        KEY_ARROW_RIGHT_def KEY_ARROW_UP_def KEY_ARROW_DOWN_def)
  ultimately show ?thesis using t d(2) by auto
qed

text \<open>A terminal with \<open>a\<close> typed on its first line, and the line editor behind it.\<close>

definition typed_keyboard :: keyboard where
  "typed_keyboard = boot_keyboard\<lparr>kb_tio := boot_tio\<lparr>cursor_x := 1,
     pages := (pages boot_tio)[0 := create_vga_entry 0x61 VGA_COLOR_WHITE]\<rparr>\<rparr>"

theorem backspace_screen_differs_witness:
  "\<exists>k' buf' index' sz'. edit_key typed_keyboard (''a'' @ [CHR 0x00]) 1 2 (no_key\<lparr>mapped_code := KEY_BACKSPACE\<rparr>)
      = Some (k', buf', index', sz')
    \<and> line_of buf' index' sz' = ([], 0) \<and> pages (kb_tio k') ! 0 = create_vga_entry 0x61 VGA_COLOR_WHITE"
proof -
  let ?key = "no_key\<lparr>mapped_code := KEY_BACKSPACE\<rparr>" and ?buf = "''a'' @ [CHR 0x00]" and ?k = typed_keyboard
  have b: "view_row boot_tio = 0" "cursor_y boot_tio = 0"
    by (simp_all add: boot_tio_def tio_init_def Let_def)
  have t: "tio_ok (kb_tio ?k)" "0 < cursor_x (kb_tio ?k)" "tio_pos (kb_tio ?k) = 1"
    "pages (kb_tio ?k) ! 0 = create_vga_entry 0x61 VGA_COLOR_WHITE"
    using boot_tio_ok(1) b by (simp_all add: typed_keyboard_def tio_ok_def tio_pos_def boot_tio_ok(3))
  have l: "line_ok ?buf 1 2" "line_delete (line_of ?buf 1 2) = ([], 0)"
    by (simp_all add: line_ok_def line_of_def line_delete_def)
  have key: "\<not> printable ?key" "mapped_code ?key = KEY_BACKSPACE" by (simp_all add: no_key_def)
  show ?thesis
    using backspace_screen_differs [OF t(1,2) l(1) zero_less_one key] unfolding l(2) t(3)
    by (auto simp: t(4))
qed

text \<open>
  C31: A character typed inside the line is inserted on the screen as it is in the line. On a
  screen that shows the buffer, a printable key with the point before the end of the line, room in
  the line's buffer and on the terminal, inserts the character at the point of the line; and in
  the terminal's buffer every entry from the cursor to the end of the view moves up by one and the
  character takes the place at the cursor, which is then behind it.
\<close>

theorem insertion_on_screen:
  assumes "tio_ok (kb_tio k)" and "mirrors (kb_tio k)" and "tio_pos (kb_tio k) + 1 < last_position"
    and "line_ok buf index sz" and "index < sz - 1" and "nat sz < length buf"
    and "printable key" and "key_char key = Some c" and "c \<notin> {CHR 0x00, CHR 0x0A, CHR 0x0D}"
  shows "\<exists>k' buf' index' sz'. edit_key k buf index sz key = Some (k', buf', index', sz')
    \<and> line_of buf' index' sz' = line_insert c (line_of buf index sz)
    \<and> tio_ok (kb_tio k') \<and> mirrors (kb_tio k') \<and> tio_pos (kb_tio k') = tio_pos (kb_tio k) + 1
    \<and> pages (kb_tio k') = (opened (pages (kb_tio k)) (tio_pos (kb_tio k)) (view_end (kb_tio k)))
        [tio_pos (kb_tio k) := create_vga_entry (of_char c) VGA_COLOR_WHITE]"
proof -
  let ?t = "kb_tio k"
  obtain t1 where t1: "tio_shift_right ?t = Some t1" "tio_ok t1" "tio_pos t1 = tio_pos ?t" "mirrors t1"
    "pages t1 = opened (pages ?t) (tio_pos ?t) (view_end ?t)"
    by (rule tio_shift_right_opens [OF assms(1,2)]) blast
  obtain t2 where t2: "tio_write_char_color t1 c VGA_COLOR_WHITE = Some t2" "tio_ok t2" "mirrors t2"
    "tio_pos t2 = tio_pos ?t + 1" "pages t2 = (pages t1)[tio_pos ?t := create_vga_entry (of_char c) VGA_COLOR_WHITE]"
    using write_char_printable [OF t1(2), of c VGA_COLOR_WHITE] assms(3,9) t1(3,4) by auto
  obtain i s where l: "index = int i" "sz = int s + 1" "i \<le> s" "s < length buf"
    using assms(4) by (elim line_ok_cases)
  have "s + 1 < length buf" using assms(6) l(2) by (simp add: nat_add_distrib)
  from buffer_insert_eq [OF l(3) this, of c] obtain b j z where b: "buffer_insert buf index sz c = Some (b, j, z)"
    using l(1,2) by simp
  have "edit_key k buf index sz key = Some (k\<lparr>kb_tio := t2\<rparr>, b, j, z)"
    using assms(5,7-9) t1(1) t2(1) b by (simp add: edit_key_def kb_print_def kprintf_char tio_write_def)
  then show ?thesis using line_insert_refines [OF assms(4) b] t2 t1(5) by auto
qed

definition shown_keyboard :: keyboard where
  "shown_keyboard = boot_keyboard\<lparr>kb_tio := boot_tio\<lparr>platform_vb := replicate 2000 (create_vga_entry 32 VGA_COLOR_BLACK)\<rparr>\<rparr>"

text \<open>\<open>a\<close> typed before \<open>b\<close>.\<close>

theorem insertion_on_screen_witness:
  "\<exists>k' buf' index' sz'. edit_key shown_keyboard (''b'' @ [CHR 0x00, CHR 0x00]) 0 2 (no_key\<lparr>printable := True, scancode := 0x1e\<rparr>)
      = Some (k', buf', index', sz')
    \<and> line_of buf' index' sz' = (''ab'', 1) \<and> tio_pos (kb_tio k') = 1"
proof -
  let ?key = "no_key\<lparr>printable := True, scancode := 0x1e\<rparr>" and ?buf = "''b'' @ [CHR 0x00, CHR 0x00]" and ?k = shown_keyboard
  have b: "view_row boot_tio = 0" by (simp add: boot_tio_def tio_init_def Let_def)
  have t: "tio_ok (kb_tio ?k)" "mirrors (kb_tio ?k)" "tio_pos (kb_tio ?k) = 0"
    using boot_tio_ok(1,2) b by (simp_all add: shown_keyboard_def tio_ok_def tio_pos_def mirrors_def boot_tio_ok(3))
  have l: "line_ok ?buf 0 2" "line_insert (CHR ''a'') (line_of ?buf 0 2) = (''ab'', 1)" "(0::int) < 2 - 1" "nat 2 < length ?buf"
    by (simp_all add: line_ok_def line_of_def line_insert_def)
  have key: "printable ?key" "key_char ?key = Some (CHR ''a'')" "CHR ''a'' \<notin> {CHR 0x00, CHR 0x0A, CHR 0x0D}"
    by (simp_all add: no_key_def key_char_def) (simp_all add: scancode_set1_def)
  have room: "tio_pos (kb_tio ?k) + 1 < last_position" by (simp add: t(3) last_position_def)
  show ?thesis
    using insertion_on_screen [OF t(1,2) room l(1,3,4) key] unfolding l(2) t(3) by auto
qed

end
