(* ===== verification/Tio_Scroll.thy ===== *)
theory Tio_Scroll
  imports Tio_Props
begin

text \<open>
  Scrolling by hand: the view moves over the buffer and back, and the cursor keeps its place in
  the text, on the screen or off it.
\<close>

lemma scroll_down_loop:
  "int n \<le> view_row t \<Longrightarrow>
   view_shift_loop SHIFT_DIRECTION_DOWN n t = Inr (t\<lparr>view_row := view_row t - int n, cursor_y := cursor_y t + int n\<rparr>)"
proof (induction n arbitrary: t)
  case (Suc n)
  let ?t = "t\<lparr>view_row := view_row t - 1, cursor_y := cursor_y t + 1\<rparr>"
  have "view_shift_once SHIFT_DIRECTION_DOWN t = Inr ?t"
    using Suc.prems by (simp add: view_shift_once_def Let_def)
  moreover have "view_shift_loop SHIFT_DIRECTION_DOWN n ?t
      = Inr (?t\<lparr>view_row := view_row ?t - int n, cursor_y := cursor_y ?t + int n\<rparr>)"
    using Suc.prems by (intro Suc.IH) simp
  ultimately show ?case by (simp add: algebra_simps)
qed simp

lemma scroll_up_loop:
  "int n \<le> cursor_y t \<Longrightarrow> 0 \<le> view_row t \<Longrightarrow> view_row t + int n \<le> 215 \<Longrightarrow> num_pages t = 10 \<Longrightarrow> view_height t = 24 \<Longrightarrow>
   view_shift_loop SHIFT_DIRECTION_UP n t = Inr (t\<lparr>view_row := view_row t + int n, cursor_y := cursor_y t - int n\<rparr>)"
proof (induction n arbitrary: t)
  case (Suc n)
  let ?t = "t\<lparr>view_row := view_row t + 1, cursor_y := cursor_y t - 1\<rparr>"
  have "view_shift_once SHIFT_DIRECTION_UP t = Inr ?t"
    using Suc.prems by (simp add: view_shift_once_def Let_def TERM_HEIGHT_def)
  moreover have "view_shift_loop SHIFT_DIRECTION_UP n ?t
      = Inr (?t\<lparr>view_row := view_row ?t + int n, cursor_y := cursor_y ?t - int n\<rparr>)"
    using Suc.prems by (intro Suc.IH) simp_all
  ultimately show ?case by (simp add: algebra_simps)
qed simp

text \<open>A finished move: the screen is drawn, and the cursor counts as on the screen in rows 1 to 23.\<close>

lemma view_shift_moved:
  assumes "view_shift_loop dir (unat amt) t = Inr t1" and "0 \<le> view_row t1" and "view_row t1 \<le> 216"
    and "length (pages t1) = 19200" and "1920 \<le> length (platform_vb t1)"
  obtains t2 where "view_shift t dir amt = Some t2" and "mirrors t2" and "length (platform_vb t2) = length (platform_vb t1)"
    and "pages t2 = pages t1" and "view_row t2 = view_row t1" and "cursor_x t2 = cursor_x t1" and "cursor_y t2 = cursor_y t1"
    and "num_pages t2 = num_pages t1" and "view_height t2 = view_height t1"
    and "on_screen t2 \<longleftrightarrow> 0 < cursor_y t1 \<and> cursor_y t1 < 24"
proof -
  let ?t = "t1\<lparr>on_screen := (0 < cursor_y t1 \<and> cursor_y t1 < 24)\<rparr>"
  obtain vb where vb: "render_screen ?t = Some (?t\<lparr>platform_vb := vb\<rparr>)" "length vb = length (platform_vb t1)"
    "\<forall>i < 1920. vb ! i = pages t1 ! (nat (view_row t1) * 80 + i)"
    using render_screen_copies [of ?t] assms(2-5) by auto
  have "view_shift t dir amt = Some (render_cursor (?t\<lparr>platform_vb := vb\<rparr>))"
    using assms(1) vb(1) by (simp add: view_shift_def TERM_HEIGHT_def)
  moreover have "mirrors (?t\<lparr>platform_vb := vb\<rparr>)" using vb(3) by (simp add: mirrors_def)
  ultimately show thesis using vb(2) by (intro that [of "render_cursor (?t\<lparr>platform_vb := vb\<rparr>)"]) simp_all
qed

lemma scroll_there_and_back:
  assumes ok: "tio_ok t" and n: "int n \<le> view_row t"
  obtains t1 t2 where "tio_shift_view t SHIFT_DIRECTION_DOWN (of_nat n) = Some t1"
    and "view_row t1 = view_row t - int n" and "mirrors t1" and "tio_pos t1 = tio_pos t"
    and "tio_shift_view t1 SHIFT_DIRECTION_UP (of_nat n) = Some t2"
    and "view_row t2 = view_row t" and "cursor_x t2 = cursor_x t" and "cursor_y t2 = cursor_y t"
    and "pages t2 = pages t" and "mirrors t2" and "on_screen t2 \<longleftrightarrow> 0 < cursor_y t" and "0 < cursor_y t \<longrightarrow> tio_ok t2"
proof -
  have b: "0 \<le> view_row t" "view_row t \<le> 215" "0 \<le> cursor_x t" "0 \<le> cursor_y t" "cursor_y t \<le> 22" "num_pages t = 10"
    "view_height t = 24" "length (pages t) = 19200" "1920 \<le> length (platform_vb t)" "cursor_x t < 80"
    using ok by (simp_all add: tio_ok_def)
  have amt: "unat (of_nat n :: u32) = n" using n b(2) by (simp add: unat_of_nat take_bit_nat_eq_self_iff)
  have down: "view_shift_loop SHIFT_DIRECTION_DOWN (unat (of_nat n :: u32)) t
      = Inr (t\<lparr>view_row := view_row t - int n, cursor_y := cursor_y t + int n\<rparr>)"
    unfolding amt by (rule scroll_down_loop [OF n])
  obtain t1 where t1: "view_shift t SHIFT_DIRECTION_DOWN (of_nat n) = Some t1" "mirrors t1"
    "length (platform_vb t1) = length (platform_vb t)" "pages t1 = pages t" "view_row t1 = view_row t - int n"
    "cursor_x t1 = cursor_x t" "cursor_y t1 = cursor_y t + int n" "num_pages t1 = 10" "view_height t1 = 24"
    by (rule view_shift_moved [OF down]) (use n b in auto)
  have up: "view_shift_loop SHIFT_DIRECTION_UP (unat (of_nat n :: u32)) t1
      = Inr (t1\<lparr>view_row := view_row t, cursor_y := cursor_y t\<rparr>)"
    unfolding amt using scroll_up_loop [of n t1] t1 n b by simp
  obtain t2 where t2: "view_shift t1 SHIFT_DIRECTION_UP (of_nat n) = Some t2" "mirrors t2"
    "length (platform_vb t2) = length (platform_vb t)" "pages t2 = pages t" "view_row t2 = view_row t"
    "cursor_x t2 = cursor_x t" "cursor_y t2 = cursor_y t" "num_pages t2 = 10" "view_height t2 = 24"
    "on_screen t2 \<longleftrightarrow> 0 < cursor_y t \<and> cursor_y t < 24"
    by (rule view_shift_moved [OF up]) (use t1 b in auto)
  have "tio_pos t1 = tio_pos t" using t1 by (simp add: tio_pos_def)
  moreover have "on_screen t2 \<longleftrightarrow> 0 < cursor_y t" using t2(10) b by auto
  moreover have "0 < cursor_y t \<longrightarrow> tio_ok t2" using t2 b by (simp add: tio_ok_def)
  ultimately show thesis using that t1 t2 unfolding tio_shift_view_def by blast
qed

text \<open>
  C25: Looking back in the text and returning. From a terminal in working order, shifting down by
  any number of lines that the view has above it and then up by the same number returns both
  times; the screen shows the buffer each time, the cursor keeps its place in the text while the
  view is away, and the view, the cursor and the text are in the end as before. The terminal is
  then in working order again, except that a cursor in the first row counts as off the screen.
\<close>

theorem scroll_roundtrip:
  assumes "tio_ok t" and "int n \<le> view_row t"
  shows "\<exists>t1 t2. tio_shift_view t SHIFT_DIRECTION_DOWN (of_nat n) = Some t1
    \<and> view_row t1 = view_row t - int n \<and> mirrors t1 \<and> tio_pos t1 = tio_pos t
    \<and> tio_shift_view t1 SHIFT_DIRECTION_UP (of_nat n) = Some t2
    \<and> view_row t2 = view_row t \<and> cursor_x t2 = cursor_x t \<and> cursor_y t2 = cursor_y t
    \<and> pages t2 = pages t \<and> mirrors t2 \<and> (on_screen t2 \<longleftrightarrow> 0 < cursor_y t) \<and> (0 < cursor_y t \<longrightarrow> tio_ok t2)"
  by (rule scroll_there_and_back [OF assms]) blast

text \<open>A terminal that has scrolled ten lines, with the cursor in the first row.\<close>

theorem scroll_roundtrip_witness:
  "\<exists>t1 t2. tio_shift_view (boot_tio\<lparr>view_row := 10\<rparr>) SHIFT_DIRECTION_DOWN 3 = Some t1 \<and> view_row t1 = 7
     \<and> tio_shift_view t1 SHIFT_DIRECTION_UP 3 = Some t2 \<and> view_row t2 = 10 \<and> \<not> on_screen t2"
proof -
  let ?t = "boot_tio\<lparr>view_row := 10\<rparr>"
  have y: "cursor_y boot_tio = 0" by (simp add: boot_tio_def tio_init_def Let_def)
  have "tio_ok ?t" using boot_tio_ok(1) by (simp add: tio_ok_def)
  moreover have "int 3 \<le> view_row ?t" by simp
  ultimately obtain t1 t2 where "tio_shift_view ?t SHIFT_DIRECTION_DOWN (of_nat 3) = Some t1"
    "view_row t1 = view_row ?t - int 3" "tio_shift_view t1 SHIFT_DIRECTION_UP (of_nat 3) = Some t2"
    "view_row t2 = view_row ?t" "on_screen t2 \<longleftrightarrow> 0 < cursor_y ?t"
    using scroll_roundtrip by blast
  then show ?thesis using y by auto
qed

section \<open>Typing while the cursor is off the screen\<close>

text \<open>A terminal whose view stands above the line \<open>l\<close> of the cursor, by 23 rows or more.\<close>

definition looks_back :: "tio \<Rightarrow> int \<Rightarrow> bool" where
  "looks_back t l \<longleftrightarrow> length (pages t) = 19200 \<and> 1920 \<le> length (platform_vb t) \<and> num_pages t = 10 \<and> view_height t = 24
     \<and> 0 \<le> view_row t \<and> view_row t \<le> 215 \<and> 23 \<le> cursor_y t \<and> view_row t + cursor_y t = l \<and> l \<le> 237
     \<and> 0 \<le> cursor_x t \<and> cursor_x t < 80 \<and> (on_screen t \<longleftrightarrow> cursor_y t < 24)"

lemma looks_back_pos: "looks_back t l \<Longrightarrow> tio_pos t = nat (l * 80 + cursor_x t)"
  by (auto simp: looks_back_def tio_pos_def)

text \<open>The view goes down until the cursor is in the last row but one.\<close>

lemma shift_to_cursor:
  assumes "looks_back t l"
  obtains t1 where "view_shift t SHIFT_DIRECTION_UP (word_of_int (cursor_y t - 23)) = Some t1" and "looks_back t1 l"
    and "cursor_y t1 = 23" and "pages t1 = pages t" and "cursor_x t1 = cursor_x t"
proof -
  have b: "0 \<le> view_row t" "view_row t \<le> 215" "23 \<le> cursor_y t" "view_row t + cursor_y t = l" "l \<le> 237" "num_pages t = 10"
    "view_height t = 24" "length (pages t) = 19200" "1920 \<le> length (platform_vb t)" "0 \<le> cursor_x t" "cursor_x t < 80"
    using assms by (simp_all add: looks_back_def)
  define k where "k = nat (cursor_y t - 23)"
  have k: "int k = cursor_y t - 23" using b(3) by (simp add: k_def)
  have "k < 4294967296" using b k by linarith
  then have "unat (of_nat k :: u32) = k" by (simp add: unat_of_nat take_bit_nat_eq_self_iff)
  moreover have "(word_of_int (cursor_y t - 23) :: u32) = of_nat k" unfolding k [symmetric] by simp
  moreover have "view_shift_loop SHIFT_DIRECTION_UP k t = Inr (t\<lparr>view_row := view_row t + int k, cursor_y := cursor_y t - int k\<rparr>)"
    by (rule scroll_up_loop) (use b k in linarith)+
  ultimately have up: "view_shift_loop SHIFT_DIRECTION_UP (unat (word_of_int (cursor_y t - 23) :: u32)) t
      = Inr (t\<lparr>view_row := view_row t + int k, cursor_y := cursor_y t - int k\<rparr>)" by (simp only:)
  obtain t1 where t1: "view_shift t SHIFT_DIRECTION_UP (word_of_int (cursor_y t - 23)) = Some t1"
    "length (platform_vb t1) = length (platform_vb t)" "pages t1 = pages t" "view_row t1 = view_row t + int k"
    "cursor_x t1 = cursor_x t" "cursor_y t1 = cursor_y t - int k" "num_pages t1 = 10" "view_height t1 = 24"
    "on_screen t1 \<longleftrightarrow> 0 < cursor_y t - int k \<and> cursor_y t - int k < 24"
    by (rule view_shift_moved [OF up]) (use b k in auto)
  have "looks_back t1 l" "cursor_y t1 = 23" using t1 b k by (simp_all add: looks_back_def)
  then show thesis using that t1(1,3,5) by blast
qed

text \<open>With the cursor there, moving it on within its line shifts the view one row more.\<close>

lemma cursor_inc_shifts:
  assumes "looks_back t l" and "cursor_y t = 23" and "cursor_x t < 79"
  obtains t1 where "tio_cursor_inc t = Some t1" and "tio_ok t1" and "mirrors t1" and "pages t1 = pages t"
    and "tio_pos t1 = tio_pos t + 1"
proof -
  have b: "0 \<le> view_row t" "view_row t + 23 = l" "l \<le> 237" "num_pages t = 10"
    "view_height t = 24" "length (pages t) = 19200" "1920 \<le> length (platform_vb t)" "0 \<le> cursor_x t"
    using assms by (simp_all add: looks_back_def)
  let ?t = "t\<lparr>cursor_x := cursor_x t + 1\<rparr>"
  have up: "view_shift_loop SHIFT_DIRECTION_UP (unat (1 :: u32)) ?t = Inr (?t\<lparr>view_row := view_row t + 1, cursor_y := 22\<rparr>)"
    using scroll_up_loop [of 1 ?t] b assms(2) by simp
  obtain t1 where t1: "view_shift ?t SHIFT_DIRECTION_UP 1 = Some t1" "mirrors t1" "length (platform_vb t1) = length (platform_vb t)"
    "pages t1 = pages t" "view_row t1 = view_row t + 1" "cursor_x t1 = cursor_x t + 1" "cursor_y t1 = 22" "num_pages t1 = 10"
    "view_height t1 = 24" "on_screen t1"
    by (rule view_shift_moved [OF up]) (use b in auto)
  have "tio_cursor_inc t = Some (render_cursor t1)"
    using t1(1) assms(2,3) by (simp add: tio_cursor_inc_def Let_def TERM_WIDTH_def TERM_HEIGHT_def)
  moreover have "tio_ok t1" using t1 b assms(3) by (simp add: tio_ok_def)
  moreover have "tio_pos t1 = tio_pos t + 1" using t1 b assms(2) by (simp add: tio_pos_def nat_add_distrib)
  ultimately show thesis using that t1(2,4) by (metis render_cursor_ok(1,2,3) render_cursor_simps(1))
qed

lemma type_looking_back:
  assumes "looks_back t l" and "c \<noteq> CHR 0x0A" and "c \<noteq> CHR 0x0D" and "cursor_x t < 79"
    and "cursor_y t * 80 + cursor_x t < int (length (platform_vb t))"
  obtains t1 where "tio_write_char_color t c vc = Some t1" and "tio_ok t1" and "mirrors t1"
    and "(tio_pos t1, pages t1) = type_char vc (tio_pos t, pages t) c"
proof -
  let ?e = "create_vga_entry (of_char c) vc"
  have b: "23 \<le> cursor_y t" "0 \<le> cursor_x t" "l \<le> 237" "on_screen t \<longleftrightarrow> cursor_y t < 24"
    "view_row t + cursor_y t = l" "0 \<le> view_row t"
    using assms(1) by (simp_all add: looks_back_def)
  define vb where "vb = (platform_vb t)[nat (cursor_y t * 80 + cursor_x t) := ?e]"
  have w: "update_int (platform_vb t) (cursor_get_index t) ?e = Some vb"
    using b assms(5) by (simp add: update_int_def cursor_get_index_def TERM_WIDTH_def vb_def)
  have lb: "looks_back (t\<lparr>platform_vb := vb\<rparr>) l" using assms(1) by (simp add: looks_back_def vb_def)
  obtain t1 where t1: "(if \<not> on_screen t then view_shift (t\<lparr>platform_vb := vb\<rparr>) SHIFT_DIRECTION_UP (word_of_int (cursor_y t - 23))
      else Some (t\<lparr>platform_vb := vb\<rparr>)) = Some t1" "looks_back t1 l" "cursor_y t1 = 23" "pages t1 = pages t" "cursor_x t1 = cursor_x t"
  proof (cases "on_screen t")
    case True
    then show ?thesis using that [of "t\<lparr>platform_vb := vb\<rparr>"] lb b by simp
  next
    case False
    then show ?thesis by (rule_tac shift_to_cursor [OF lb]) (use that in simp)
  qed
  have pos: "tio_pos t1 = tio_pos t" "tio_pos t = nat (l * 80 + cursor_x t)"
    using looks_back_pos [OF t1(2)] looks_back_pos [OF assms(1)] t1(5) by simp_all
  let ?t2 = "t1\<lparr>pages := (pages t)[tio_pos t := ?e]\<rparr>"
  have "cursor_get_index_in_buffer t1 = l * 80 + cursor_x t"
    using t1(2,3,5) by (simp add: cursor_get_index_in_buffer_def looks_back_def TERM_WIDTH_def)
  then have set: "vb_set_value t1 (cursor_get_index_in_buffer t1) ?e = Some ?t2"
    using t1(2,4) b assms(4) pos(2) by (simp add: vb_set_value_def update_int_def looks_back_def)
  have lb2: "looks_back ?t2 l" "cursor_y ?t2 = 23" "cursor_x ?t2 < 79"
    using t1(2-5) assms(4) by (simp_all add: looks_back_def)
  obtain t3 where t3: "tio_cursor_inc ?t2 = Some t3" "tio_ok t3" "mirrors t3" "pages t3 = pages ?t2" "tio_pos t3 = tio_pos ?t2 + 1"
    by (rule cursor_inc_shifts [OF lb2])
  have "tio_write_char_color t c vc = Some (render_cursor t3)"
    using assms(2,3) w t1(1) set t3(1) by (simp add: tio_write_char_color_def Let_def TERM_HEIGHT_def algebra_simps split: if_splits)
  moreover have "tio_pos ?t2 = tio_pos t" using pos(1) by (simp add: tio_pos_def)
  ultimately show thesis
    using that [of "render_cursor t3"] t3 assms(2,3) by (simp add: type_char_def)
qed

text \<open>A line feed moves the view by one row only.\<close>

lemma newline_looking_back:
  assumes "looks_back t l" and "view_row t \<le> 214"
  obtains t1 where "tio_write_char_color t (CHR 0x0A) vc = Some t1" and "mirrors t1" and "view_row t1 = view_row t + 1"
    and "cursor_y t1 = cursor_y t" and "(tio_pos t1, pages t1) = type_char vc (tio_pos t, pages t) (CHR 0x0A)"
    and "on_screen t1 \<longleftrightarrow> cursor_y t < 24"
proof -
  have b: "0 \<le> view_row t" "23 \<le> cursor_y t" "view_row t + cursor_y t = l" "l \<le> 237" "num_pages t = 10"
    "view_height t = 24" "length (pages t) = 19200" "1920 \<le> length (platform_vb t)" "0 \<le> cursor_x t" "cursor_x t < 80"
    using assms(1) by (simp_all add: looks_back_def)
  let ?t = "t\<lparr>cursor_y := cursor_y t + 1, cursor_x := 0\<rparr>"
  have up: "view_shift_loop SHIFT_DIRECTION_UP (unat (1 :: u32)) ?t = Inr (?t\<lparr>view_row := view_row t + 1, cursor_y := cursor_y t\<rparr>)"
    using scroll_up_loop [of 1 ?t] b assms(2) by simp
  obtain t1 where t1: "view_shift ?t SHIFT_DIRECTION_UP 1 = Some t1" "mirrors t1" "pages t1 = pages t" "view_row t1 = view_row t + 1"
    "cursor_x t1 = 0" "cursor_y t1 = cursor_y t" "on_screen t1 \<longleftrightarrow> 0 < cursor_y t \<and> cursor_y t < 24"
    by (rule view_shift_moved [OF up]) (use b assms(2) in auto)
  have "(l * 80 + cursor_x t) div 80 = l" using b by (simp add: div_add1_eq)
  moreover have "int (tio_pos t) = l * 80 + cursor_x t" using looks_back_pos [OF assms(1)] b by simp
  ultimately have "int (tio_pos t div 80) = l" by (simp add: zdiv_int)
  moreover have "int (tio_pos t1) = (l + 1) * 80" using t1 b by (simp add: tio_pos_def)
  ultimately have "int (tio_pos t1) = int ((tio_pos t div 80 + 1) * 80)" by simp
  then have "tio_pos t1 = (tio_pos t div 80 + 1) * 80" by (simp only: of_nat_eq_iff)
  moreover have "tio_write_char_color t (CHR 0x0A) vc = Some t1"
    using t1(1) b by (simp add: tio_write_char_color_def Let_def TERM_HEIGHT_def)
  ultimately show thesis using that t1 b by (simp add: type_char_def)
qed

text \<open>
  C26: Typing while looking back. When the view of a terminal in working order has been shifted down by
  any number of lines, a printable character typed, unless in the last column, goes where it would have gone without
  shifting: the view returns to the cursor, the screen shows the buffer and the terminal is in working
  order. (If the cursor is below the screen the code first stores the character that far behind
  the screen, so video memory must reach that far.) A line feed does not bring the view back: from a cursor in row 23 or
  below, the text goes on in the next line, but the view moves by one row and the cursor stays as far below the screen as it was.
\<close>

theorem typing_while_looking_back:
  assumes "tio_ok t" and "0 < n" and "int n \<le> view_row t" and "cursor_x t < 79"
    and "(cursor_y t + int n) * 80 + cursor_x t < int (length (platform_vb t))"
    and "c \<noteq> CHR 0x0A" and "c \<noteq> CHR 0x0D"
  shows "\<exists>t1. tio_shift_view t SHIFT_DIRECTION_DOWN (of_nat n) = Some t1
    \<and> (\<exists>t2. tio_write_char t1 c = Some t2 \<and> tio_ok t2 \<and> mirrors t2
        \<and> (tio_pos t2, pages t2) = type_char VGA_COLOR_WHITE (tio_pos t, pages t) c)
    \<and> (23 \<le> cursor_y t + int n \<longrightarrow> (\<exists>t2. tio_write_char t1 (CHR 0x0A) = Some t2 \<and> mirrors t2
        \<and> (tio_pos t2, pages t2) = type_char VGA_COLOR_WHITE (tio_pos t, pages t) (CHR 0x0A)
        \<and> view_row t2 = view_row t - int n + 1 \<and> cursor_y t2 = cursor_y t + int n))"
proof -
  have b: "0 \<le> view_row t" "view_row t \<le> 215" "0 \<le> cursor_x t" "cursor_x t < 80" "0 \<le> cursor_y t" "cursor_y t \<le> 22"
    "num_pages t = 10" "view_height t = 24" "length (pages t) = 19200" "1920 \<le> length (platform_vb t)"
    using assms(1) by (simp_all add: tio_ok_def)
  have amt: "unat (of_nat n :: u32) = n" using assms(3) b(2) by (simp add: unat_of_nat take_bit_nat_eq_self_iff)
  have down: "view_shift_loop SHIFT_DIRECTION_DOWN (unat (of_nat n :: u32)) t
      = Inr (t\<lparr>view_row := view_row t - int n, cursor_y := cursor_y t + int n\<rparr>)"
    unfolding amt by (rule scroll_down_loop [OF assms(3)])
  obtain t1 where t1: "view_shift t SHIFT_DIRECTION_DOWN (of_nat n) = Some t1" "mirrors t1"
    "length (platform_vb t1) = length (platform_vb t)" "pages t1 = pages t" "view_row t1 = view_row t - int n"
    "cursor_x t1 = cursor_x t" "cursor_y t1 = cursor_y t + int n" "num_pages t1 = 10" "view_height t1 = 24"
    "on_screen t1 \<longleftrightarrow> 0 < cursor_y t + int n \<and> cursor_y t + int n < 24"
    by (rule view_shift_moved [OF down]) (use assms(3) b in auto)
  have pos: "tio_pos t1 = tio_pos t" using t1 by (simp add: tio_pos_def)
  have lb: "looks_back t1 (view_row t + cursor_y t)" if "23 \<le> cursor_y t + int n"
    using t1 b that assms(3) by (auto simp: looks_back_def)
  have "\<exists>t2. tio_write_char t1 c = Some t2 \<and> tio_ok t2 \<and> mirrors t2
      \<and> (tio_pos t2, pages t2) = type_char VGA_COLOR_WHITE (tio_pos t1, pages t1) c"
  proof (cases "cursor_y t + int n < 23")
    case True
    then have "tio_ok t1" using t1 b assms(2,3) by (simp add: tio_ok_def)
    moreover have "tio_pos t1 + 1 < last_position"
      using b assms(4) unfolding pos by (simp add: tio_pos_def last_position_def nat_less_iff)
    ultimately show ?thesis
      using write_char_printable [of t1 c VGA_COLOR_WHITE] assms(6,7) t1(2) by (auto simp: tio_write_char_def type_char_def)
  next
    case False
    then obtain t2 where "tio_write_char_color t1 c VGA_COLOR_WHITE = Some t2" "tio_ok t2" "mirrors t2"
      "(tio_pos t2, pages t2) = type_char VGA_COLOR_WHITE (tio_pos t1, pages t1) c"
      using type_looking_back [OF lb assms(6,7), of VGA_COLOR_WHITE] t1 assms(4,5) by auto
    then show ?thesis by (auto simp: tio_write_char_def)
  qed
  moreover have "\<exists>t2. tio_write_char t1 (CHR 0x0A) = Some t2 \<and> mirrors t2
      \<and> (tio_pos t2, pages t2) = type_char VGA_COLOR_WHITE (tio_pos t1, pages t1) (CHR 0x0A)
      \<and> view_row t2 = view_row t - int n + 1 \<and> cursor_y t2 = cursor_y t + int n" if "23 \<le> cursor_y t + int n"
    using newline_looking_back [OF lb [OF that], of VGA_COLOR_WHITE] t1 b assms(2)
    by (auto simp: tio_write_char_def)
  ultimately show ?thesis using t1(1,4) pos by (intro exI [of _ t1]) (simp add: tio_shift_view_def)
qed

text \<open>The view 24 lines up, so that the cursor is off the screen.\<close>

theorem typing_while_looking_back_witness:
  "\<exists>t1 t2. tio_shift_view (boot_tio\<lparr>view_row := 30\<rparr>) SHIFT_DIRECTION_DOWN 24 = Some t1
     \<and> tio_write_char t1 (CHR ''x'') = Some t2 \<and> tio_ok t2 \<and> tio_pos t2 = 2401"
proof -
  let ?t = "boot_tio\<lparr>view_row := 30\<rparr>"
  have b: "cursor_x boot_tio = 0" "cursor_y boot_tio = 0" "length (platform_vb boot_tio) = 2000"
    by (simp_all add: boot_tio_def tio_init_def Let_def)
  have "tio_ok ?t" using boot_tio_ok(1) by (simp add: tio_ok_def)
  then have "\<exists>t1. tio_shift_view ?t SHIFT_DIRECTION_DOWN (of_nat 24) = Some t1
    \<and> (\<exists>t2. tio_write_char t1 (CHR ''x'') = Some t2 \<and> tio_ok t2 \<and> mirrors t2
        \<and> (tio_pos t2, pages t2) = type_char VGA_COLOR_WHITE (tio_pos ?t, pages ?t) (CHR ''x''))"
    using typing_while_looking_back [of ?t 24 "CHR ''x''"] b by (simp del: of_nat_numeral) blast
  moreover have "tio_pos ?t = 2400" using b by (simp add: tio_pos_def)
  ultimately show ?thesis by (auto simp: type_char_def)
qed

end
