(* ===== verification/Kshell.thy ===== *)
theory Kshell
  imports Keyboard_Line
begin

text \<open>
  The shell (\<open>src/kshell.c\<close>): its loop, one line after the other, and the key handler that scrolls
  the terminal, which has no caller. A session is the list of its lines, each a list of the
  scancodes that arrive before the turns of \<open>kbGetLine\<close>'s loop.
\<close>

section \<open>Model\<close>

definition PAGE_UP :: u8 where "PAGE_UP = 0x30"
definition PAGE_DOWN :: u8 where "PAGE_DOWN = 0x50"

definition kshell_handleE0Key :: "tio \<Rightarrow> MappedKey \<Rightarrow> tio option" where
  "kshell_handleE0Key t key =
     (if mapped_code key = KEY_ARROW_UP then tio_shift_view t SHIFT_DIRECTION_UP 1
      else if mapped_code key = KEY_ARROW_DOWN then tio_shift_view t SHIFT_DIRECTION_DOWN 1
      else if mapped_code key = PAGE_UP then tio_shift_view t SHIFT_DIRECTION_UP 12
      else if mapped_code key = PAGE_DOWN then tio_shift_view t SHIFT_DIRECTION_DOWN 12
      else Some t)"

text \<open>The loop after as many lines as the session has, and the shell with its initialisation.\<close>

fun kshell_turns :: "device \<Rightarrow> keyboard \<Rightarrow> u8 list list list \<Rightarrow> keyboard option" where
  "kshell_turns dev k [] = Some k"
| "kshell_turns dev k (turns # session) =
     do { k1 \<leftarrow> kshell_turn dev k turns; kshell_turns dev k1 session }"

definition kShellStart :: "device \<Rightarrow> keyboard \<Rightarrow> u8 list list list \<Rightarrow> keyboard option" where
  "kShellStart dev k session = do { k1 \<leftarrow> kbInit dev k; kshell_turns dev k1 session }"

section \<open>Texts typed one after the other\<close>

lemma type_text_append: "type_text vc s (xs @ ys) = type_text vc (type_text vc s xs) ys"
  by (induction xs arbitrary: s) simp_all

lemma text_fits_append:
  "text_fits vc s (xs @ ys) \<longleftrightarrow> text_fits vc s xs \<and> text_fits vc (type_text vc s xs) ys"
  by (induction xs arbitrary: s) auto

lemma shows_line_append:
  "shows_line t xs t1 \<Longrightarrow> shows_line t1 ys t2 \<Longrightarrow> shows_line t (xs @ ys) t2"
  unfolding shows_line_def type_text_append by metis

lemma shows_line_fits:
  "shows_line t xs t1 \<Longrightarrow> text_fits VGA_COLOR_WHITE (tio_pos t, pages t) (xs @ ys) \<Longrightarrow>
     text_fits VGA_COLOR_WHITE (tio_pos t1, pages t1) ys"
  unfolding shows_line_def text_fits_append by metis

section \<open>A session\<close>

text \<open>A keyboard between two lines, and the text a session leaves on the terminal.\<close>

definition shell_ready :: "keyboard \<Rightarrow> bool" where
  "shell_ready k \<longleftrightarrow> keyboard_ok k \<and> pending k = [] \<and> keyboard_initialized k \<and> tio_ok (kb_tio k)"

fun transcript :: "modifiers \<Rightarrow> u8 list list \<Rightarrow> string" where
  "transcript m [] = []"
| "transcript m (codes # lines) =
     (let line = typed_line m codes
      in ''> '' @ line @ ''\<newline>'' @ line @ ''\<newline>'' @ transcript (after_codes m codes) lines)"

definition with_enter :: "u8 list \<Rightarrow> u8 list list" where
  "with_enter codes = map (\<lambda>c. [c]) codes @ [[0x1c]]"

lemma kb_print_shows:
  assumes "kprintf fmt args = Some line" and "shell_ready k"
    and "text_fits VGA_COLOR_WHITE (tio_pos (kb_tio k), pages (kb_tio k)) line"
  shows "\<exists>k'. kb_print k fmt args = Some k' \<and> shell_ready k' \<and> shows_line (kb_tio k) line (kb_tio k')
    \<and> modifiers_of k' = modifiers_of k"
proof -
  obtain t where t: "tio_write (kb_tio k) line = Some t" "tio_ok t"
    "(tio_pos t, pages t) = type_text VGA_COLOR_WHITE (tio_pos (kb_tio k), pages (kb_tio k)) line"
    using write_refines [of "kb_tio k" VGA_COLOR_WHITE line] assms(2,3) by (auto simp: tio_write_def shell_ready_def)
  have "shell_ready (k\<lparr>kb_tio := t\<rparr>)" "modifiers_of (k\<lparr>kb_tio := t\<rparr>) = modifiers_of k"
    using assms(2) t(2) by (simp_all add: shell_ready_def keyboard_ok_def queue_ok_def pending_def modifiers_of_def key_down_def)
  then show ?thesis using t assms(1) by (simp add: kb_print_def shows_line_def)
qed

lemma typed_line_no_NUL: "list_all plain_code codes \<Longrightarrow> CHR 0x00 \<notin> set (typed_line m codes)"
proof (induction codes arbitrary: m)
  case (Cons c codes)
  have line: "typed_line m (c # codes) = (case typed_char m c of None \<Rightarrow> [] | Some ch \<Rightarrow> [ch]) @ typed_line (after_code m c) codes"
    by (simp add: typed_line_def split: option.split)
  have "typed_char m c \<noteq> Some (CHR 0x00)"
    using Cons.prems typed_char_not_control by (auto simp: plain_code_def)
  then show ?case using Cons by (auto simp: line split: option.splits)
qed (simp add: typed_line_def)

lemma kprintf_echo:
  assumes "CHR 0x00 \<notin> set line" and "length line < 512"
  shows "kprintf ''\<newline>%s\<newline>'' [Va_str line] = Some (''\<newline>'' @ line @ ''\<newline>'')"
proof -
  have "kvsprintf ''\<newline>%s\<newline>'' [Va_str line] = Some (''\<newline>'' @ line @ ''\<newline>'', True)"
    by (simp add: kvsprintf_def render_string_append)
  moreover have "takeWhile (\<lambda>c. c \<noteq> CHR 0x00) (''\<newline>'' @ line @ ''\<newline>'') = ''\<newline>'' @ line @ ''\<newline>''"
    using assms(1) by auto
  ultimately show ?thesis
    using kprintf_terminated [of "''\<newline>%s\<newline>''" "[Va_str line]"] assms(2) by simp
qed

lemma kshell_turn_shows:
  assumes "shell_ready k" and "list_all plain_code codes" and "line = typed_line (modifiers_of k) codes" and "length line < 512"
    and "text_fits VGA_COLOR_WHITE (tio_pos (kb_tio k), pages (kb_tio k)) (''> '' @ line @ ''\<newline>'' @ line @ ''\<newline>'')"
  shows "\<exists>k'. kshell_turn dev k (with_enter codes) = Some k' \<and> shell_ready k'
    \<and> shows_line (kb_tio k) (''> '' @ line @ ''\<newline>'' @ line @ ''\<newline>'') (kb_tio k')
    \<and> modifiers_of k' = after_codes (modifiers_of k) codes"
proof -
  have prompt: "kprintf ''> '' [] = Some ''> ''"
    by (simp add: kprintf_def kvprintf_def kvsprintf_def)
  obtain k1 where k1: "kb_print k ''> '' [] = Some k1" "shell_ready k1" "shows_line (kb_tio k) ''> '' (kb_tio k1)"
    "modifiers_of k1 = modifiers_of k"
    using kb_print_shows [OF prompt assms(1)] assms(5) unfolding text_fits_append [of _ _ "''> ''"] by blast
  have fits1: "text_fits VGA_COLOR_WHITE (tio_pos (kb_tio k1), pages (kb_tio k1)) (line @ ''\<newline>'' @ line @ ''\<newline>'')"
    by (rule shows_line_fits [OF k1(3) assms(5)])
  let ?buf = "replicate 512 (CHR 0x00)"
  obtain buf k2 where get: "kbGetLine dev k1 ?buf (with_enter codes) = Some (buf, k2)"
    and buf: "take (length line) buf = line" "buf ! length line = CHR 0x00" "length buf = 512"
    and k2: "shell_ready k2" "shows_line (kb_tio k1) line (kb_tio k2)" "modifiers_of k2 = after_codes (modifiers_of k) codes"
    using kbGetLine_returns [of k1 codes line ?buf dev] k1 assms(2-4) fits1
    unfolding text_fits_append [of _ _ line] with_enter_def shell_ready_def by (auto simp: shows_line_def)
  have nul: "CHR 0x00 \<notin> set line" using typed_line_no_NUL [OF assms(2)] assms(3) by simp
  have "buf = line @ CHR 0x00 # drop (Suc (length line)) buf"
    using buf assms(4) id_take_nth_drop [of "length line" buf] by simp
  then have stop: "takeWhile (\<lambda>c. c \<noteq> CHR 0x00) buf = line"
    using nul takeWhile_append2 [of line "\<lambda>c. c \<noteq> CHR 0x00" "CHR 0x00 # drop (Suc (length line)) buf"] by force
  have fits2: "text_fits VGA_COLOR_WHITE (tio_pos (kb_tio k2), pages (kb_tio k2)) (''\<newline>'' @ line @ ''\<newline>'')"
    by (rule shows_line_fits [OF k2(2) fits1])
  obtain k3 where k3: "kb_print k2 ''\<newline>%s\<newline>'' [Va_str line] = Some k3" "shell_ready k3"
    "shows_line (kb_tio k2) (''\<newline>'' @ line @ ''\<newline>'') (kb_tio k3)" "modifiers_of k3 = modifiers_of k2"
    using kb_print_shows [OF kprintf_echo [OF nul assms(4)] k2(1) fits2] by blast
  have "shows_line (kb_tio k) (''> '' @ line @ ''\<newline>'' @ line @ ''\<newline>'') (kb_tio k3)"
    by (rule shows_line_append [OF k1(3) shows_line_append [OF k2(2) k3(3)]])
  moreover have "kshell_turn dev k (with_enter codes) = Some k3"
    unfolding kshell_turn_def by (simp only: k1(1) get stop k3(1) Option.bind.simps prod.case)
  ultimately show ?thesis using k2(3) k3(2,4) by auto
qed

lemma kshell_turns_show:
  "shell_ready k \<Longrightarrow> list_all (list_all plain_code) lines \<Longrightarrow>
   list_all (\<lambda>codes. length codes < 512) lines \<Longrightarrow>
   text_fits VGA_COLOR_WHITE (tio_pos (kb_tio k), pages (kb_tio k)) (transcript (modifiers_of k) lines) \<Longrightarrow>
   \<exists>k'. kshell_turns dev k (map with_enter lines) = Some k' \<and> shell_ready k'
     \<and> shows_line (kb_tio k) (transcript (modifiers_of k) lines) (kb_tio k')"
proof (induction lines arbitrary: k)
  case Nil
  then show ?case by (simp add: shows_line_def shell_ready_def)
next
  case (Cons codes lines)
  let ?line = "typed_line (modifiers_of k) codes"
  let ?first = "''> '' @ ?line @ ''\<newline>'' @ ?line @ ''\<newline>''"
  have tr: "transcript (modifiers_of k) (codes # lines) = ?first @ transcript (after_codes (modifiers_of k) codes) lines"
    by (simp add: Let_def)
  have typed_len: "length (typed m cs) = length cs" for m cs by (induction cs arbitrary: m) simp_all
  have len: "length ?line < 512"
    using Cons.prems(3) length_filter_le [of "\<lambda>c. c \<noteq> None" "typed (modifiers_of k) codes"]
    by (simp add: typed_line_def typed_len)
  have fits: "text_fits VGA_COLOR_WHITE (tio_pos (kb_tio k), pages (kb_tio k)) ?first"
    using Cons.prems(4) unfolding tr text_fits_append [of _ _ ?first] by blast
  obtain k1 where k1: "kshell_turn dev k (with_enter codes) = Some k1" "shell_ready k1"
    "shows_line (kb_tio k) ?first (kb_tio k1)" "modifiers_of k1 = after_codes (modifiers_of k) codes"
    using kshell_turn_shows [OF Cons.prems(1) _ refl len fits] Cons.prems(2) by auto
  have fits1: "text_fits VGA_COLOR_WHITE (tio_pos (kb_tio k1), pages (kb_tio k1)) (transcript (modifiers_of k1) lines)"
    using shows_line_fits [OF k1(3)] Cons.prems(4) unfolding tr k1(4) by blast
  obtain k2 where k2: "kshell_turns dev k1 (map with_enter lines) = Some k2" "shell_ready k2"
    "shows_line (kb_tio k1) (transcript (modifiers_of k1) lines) (kb_tio k2)"
    using Cons.IH [OF k1(2) _ _ fits1] Cons.prems(2,3) by auto
  have "shows_line (kb_tio k) (transcript (modifiers_of k) (codes # lines)) (kb_tio k2)"
    unfolding tr using shows_line_append [OF k1(3) k2(3)] unfolding k1(4) .
  then show ?case using k1(1) k2 by simp
qed


text \<open>Where the cursor goes depends on the text alone, not on what the pages hold.\<close>

definition next_pos :: "nat \<Rightarrow> char \<Rightarrow> nat" where
  "next_pos p c = fst (type_char VGA_COLOR_WHITE (p, []) c)"

fun pos_fits :: "nat \<Rightarrow> string \<Rightarrow> bool" where
  "pos_fits p [] \<longleftrightarrow> True"
| "pos_fits p (c # cs) \<longleftrightarrow> next_pos p c < last_position \<and> pos_fits (next_pos p c) cs"

lemma next_pos_simp:
  "next_pos p c = (if c = CHR 0x0A then (p div 80 + 1) * 80 else if c = CHR 0x0D then p div 80 * 80 else p + 1)"
  by (simp add: next_pos_def type_char_def)

lemma fst_type_char: "fst (type_char VGA_COLOR_WHITE s c) = next_pos (fst s) c"
  by (simp add: next_pos_def type_char_def split: prod.split)

lemma text_fits_pos: "text_fits VGA_COLOR_WHITE s cs \<longleftrightarrow> pos_fits (fst s) cs"
  by (induction cs arbitrary: s) (simp_all add: fst_type_char)

lemma type_text_pos: "fst (type_text VGA_COLOR_WHITE s cs) = foldl next_pos (fst s) cs"
  by (induction cs arbitrary: s) (simp_all add: fst_type_char)


end
