(* ===== verification/Ide.thy ===== *)
theory Ide
  imports Ata_Props
begin

text \<open>
  \<open>src/ide.c\<close>, the copy of the disk driver that the build leaves out. Its types and constants are
  word for word those of \<open>src/ata.c\<close> and are taken from theory \<open>Ata\<close>; its functions are
  translated here statement by statement, the transfers in one piece each, and compared with the
  functions of the driver that is built.
\<close>

section \<open>Buses and identification\<close>

definition ide_isFloatingBus :: "device \<Rightarrow> machine \<Rightarrow> bool \<times> machine" where
  "ide_isFloatingBus dev m =
     (let (init_read_primary, m1) = inb dev m (PBUS + ATA_REG_STATUS);
          (init_read_secondary, m2) = inb dev m1 (SBUS + ATA_REG_STATUS)
      in if init_read_primary = 0xFF \<and> init_read_secondary = 0xFF then (True, m2) else (False, m2))"

definition ide_resetBus :: "ata \<Rightarrow> ATA_Drive \<Rightarrow> ata" where
  "ide_resetBus st drive =
     (let st1 = ata_out st (command_port drive) (lsh1 2) in ata_out st1 (command_port drive) (lsh1 1))"

text \<open>The rest of the function follows its first \<open>return\<close>.\<close>

definition ide_atapiSetup :: "ata \<Rightarrow> (bool \<times> ata) option" where
  "ide_atapiSetup st = do { st1 \<leftarrow> ata_print st ''ATAPI SETUP not implemented\<newline>'' []; Some (False, st1) }"

definition ide_ataSetNoInterrupts :: "ata \<Rightarrow> ATA_Drive \<Rightarrow> ata" where
  "ide_ataSetNoInterrupts st drive = ata_out st (command_port drive) 0x02"

text \<open>The message of a drive in error has a conversion and no argument.\<close>

definition ide_ataIdentify :: "device \<Rightarrow> ata \<Rightarrow> ATA_Drive \<Rightarrow> (bool \<times> ATA_Drive \<times> ata) option" where
  "ide_ataIdentify dev st drive =
     (let drive_str = (if drive_type drive = PRIMARY then ''Primary'' else ''Secondary'');
          bus = io_port drive;
          alt_status = command_port drive;
          st1 = ide_ataSetNoInterrupts (ata_out st (bus + ATA_REG_DRIVESELECT) 0xA0) drive;
          st2 = ata_out (ata_out st1 (bus + ATA_REG_SECCOUNT) 0x00) (bus + ATA_REG_LBALOW) 0x00;
          st3 = ata_out (ata_out st2 (bus + ATA_REG_LBAMID) 0x00) (bus + ATA_REG_LBAHIGH) 0x00;
          st4 = ata_out st3 (bus + ATA_REG_STATUS) ATA_CMD_IDENTIFY;
          (status, m5) = inb dev (ata_cpu st4) (bus + ATA_REG_STATUS);
          st5 = ata_io (\<lambda>_. m5) st4
      in if status = 0x00 then do {
           st6 \<leftarrow> ata_print st5 ''Error: %s drive does not exist\<newline>'' [Va_str drive_str];
           Some (False, drive, st6)
         } else do {
           (_, st6) \<leftarrow> ata_wait dev (\<lambda>s. \<not> st_busy s) alt_status st5;
           let (lbamid, m7) = inb dev (ata_cpu st6) (bus + ATA_REG_LBAMID);
           let (lbahigh, m8) = inb dev m7 (bus + ATA_REG_LBAHIGH);
           let st8 = ata_io (\<lambda>_. m8) st6;
           (if lbamid = 0x14 \<and> lbahigh = 0xEB then do {
              st9 \<leftarrow> ata_print st8 ''%s bus is ATAPI\<newline>'' [Va_str drive_str];
              (ok, st10) \<leftarrow> ide_atapiSetup st9;
              Some (ok, drive\<lparr>ata_type := ATAPI, uses_packets := True\<rparr>, st10)
            } else do {
              st9 \<leftarrow> ata_print st8 ''%s bus is ATA\<newline>'' [Va_str drive_str];
              (poll, st10) \<leftarrow> ata_wait dev (\<lambda>s. st_data_transfer_requested s \<or> st_error s) alt_status st9;
              (if st_error poll then do {
                 st11 \<leftarrow> ata_print st10 ''Error: Bus %s is ATA, but gave status of error\<newline>'' [];
                 Some (False, drive, st11)
               } else do {
                 let (identify_data, m11) = read_words dev bus 256 (ata_cpu st10);
                 let st11 = ata_io (\<lambda>_. m11) st10;
                 st12 \<leftarrow> (if push_bit 10 (ucast (identify_data ! 83) :: u32) AND 1 \<noteq> 0
                          then ata_print st11 ''%s supports lba48 mode\<newline>'' [Va_str drive_str] else Some st11);
                 let num_lba28_sectors = ucast (identify_data ! 60) OR push_bit 16 (ucast (identify_data ! 61));
                 st13 \<leftarrow> ata_print st12 ''num_lba28_sectors: 0x%x\<newline>'' [Va_int num_lba28_sectors];
                 (let drive1 = drive\<lparr>num_sectors := num_lba28_sectors\<rparr>
                  in if num_lba28_sectors = 0 then Some (False, drive1, st13) else Some (True, drive1, st13))
               })
            })
         })"

definition ide_idePoll :: "device \<Rightarrow> ATA_Drive \<Rightarrow> ata \<Rightarrow> ata option" where
  "ide_idePoll dev drive st = do { (_, st1) \<leftarrow> ata_wait dev (\<lambda>s. \<not> st_busy s) (command_port drive) st; Some st1 }"

section \<open>Transfers\<close>

definition ide_ataRead ::
    "device \<Rightarrow> ATA_Drive \<Rightarrow> addr \<Rightarrow> u32 \<Rightarrow> u32 \<Rightarrow> nat list \<times> nat list \<Rightarrow> ata \<Rightarrow> (u32 \<times> ata) option" where
  "ide_ataRead dev drive data n sector_num ticks st =
     (if ata_type drive = ATAPI then do {
        st1 \<leftarrow> ata_print st ''ATAPI Writing not implemented\<newline>'' [];
        Some (0, st1)
      } else if sector_num > num_sectors drive then do {
        st1 \<leftarrow> ata_print st ''ERROR: sector num too high for ATA\<newline>'' [];
        st2 \<leftarrow> ata_print st1 ''    max: 0x%x\<newline>'' [Va_int (num_sectors drive)];
        Some (0, st2)
      } else if sector_num + n > num_sectors drive then do {
        st1 \<leftarrow> ata_print st ''ERROR: ATA write aborted, would write off end of disk\<newline>'' [];
        st2 \<leftarrow> ata_print st1 ''    max: 0x%x\<newline>'' [Va_int (num_sectors drive)];
        Some (0, st2)
      } else do {
        let lba = (sector_num * SECTOR_SIZE) AND 0x0FFFFFFF;
        let lba_high_ext = (ucast (drop_bit 24 lba AND 0x0F) :: u8);
        let select = (if drive_type drive = PRIMARY then ATA_PRIMARY_SELECT else ATA_SECONDARY_SELECT) OR lba_high_ext;
        st1 \<leftarrow> ata_sleep 1 (fst ticks) (ata_out st (io_port drive + ATA_REG_DRIVESELECT) select);
        (_, st2) \<leftarrow> ata_wait dev (\<lambda>s. \<not> st_busy s \<and> \<not> st_data_transfer_requested s) (command_port drive)
          (ide_resetBus st1 drive);
        let st3 = ata_out st2 (io_port drive + ATA_REG_SECCOUNT) (ucast n);
        let st4 = ata_out st3 (io_port drive + ATA_REG_LBALOW) (ucast (lba AND 0xFF));
        let st5 = ata_out st4 (io_port drive + ATA_REG_LBAMID) (ucast (drop_bit 8 lba AND 0xFF));
        let st6 = ata_out st5 (io_port drive + ATA_REG_LBAHIGH) (ucast (drop_bit 16 lba AND 0xFF));
        st7 \<leftarrow> ata_sleep 1 (snd ticks) (ata_out st6 (io_port drive + ATA_REG_COMMAND) ATA_CMD_READ_PIO);
        (_, st8) \<leftarrow> ata_wait dev (\<lambda>s. \<not> st_busy s \<and> st_data_transfer_requested s) (command_port drive) st7;
        let (mem, m) = ataRead_loop dev (io_port drive + ATA_REG_DATA) (unat (n * (SECTOR_SIZE div 2))) data
              (ata_mem st8) (ata_cpu st8);
        let st9 = ata_io (\<lambda>_. m) (st8\<lparr>ata_mem := mem\<rparr>);
        let st10 = ide_resetBus (ata_out st9 (io_port drive + ATA_REG_COMMAND) ATA_CMD_CACHE_FLUSH) drive;
        (poll, st11) \<leftarrow> ata_wait dev (\<lambda>s. \<not> st_busy s) (command_port drive) st10;
        (if st_error poll then do { st12 \<leftarrow> ata_print st11 ''ERROR: Error writing to disk\<newline>'' []; Some (0, st12) }
         else Some (n * SECTOR_SIZE, st11))
      })"

definition ide_ataWrite_drive ::
    "device \<Rightarrow> ATA_Drive \<Rightarrow> addr \<Rightarrow> u32 \<Rightarrow> u32 \<Rightarrow> nat list \<times> nat list \<Rightarrow> ata \<Rightarrow> (u32 \<times> ata) option" where
  "ide_ataWrite_drive dev drive data n sector_num ticks st =
     (if ata_type drive = ATAPI then do {
        st1 \<leftarrow> ata_print st ''ATAPI Writing not implemented\<newline>'' [];
        Some (0, st1)
      } else if sector_num > num_sectors drive then do {
        st1 \<leftarrow> ata_print st ''ERROR: sector num too high for ATA\<newline>'' [];
        st2 \<leftarrow> ata_print st1 ''    max: 0x%x\<newline>'' [Va_int (num_sectors drive)];
        Some (0, st2)
      } else if sector_num + n > num_sectors drive then do {
        st1 \<leftarrow> ata_print st ''ERROR: ATA write aborted, would write off end of disk\<newline>'' [];
        st2 \<leftarrow> ata_print st1 ''    max: 0x%x\<newline>'' [Va_int (num_sectors drive)];
        Some (0, st2)
      } else do {
        let lba = (sector_num * SECTOR_SIZE) AND 0x0FFFFFFF;
        let lba_high_ext = (ucast (drop_bit 24 lba AND 0x0F) :: u8);
        let select = (if drive_type drive = PRIMARY then ATA_PRIMARY_SELECT else ATA_SECONDARY_SELECT) OR lba_high_ext;
        st1 \<leftarrow> ata_sleep 1 (fst ticks) (ata_out st (io_port drive + ATA_REG_DRIVESELECT) select);
        (_, st2) \<leftarrow> ata_wait dev (\<lambda>s. \<not> st_busy s \<and> \<not> st_data_transfer_requested s) (command_port drive)
          (ide_ataSetNoInterrupts st1 drive);
        let st3 = ata_out st2 (io_port drive + ATA_REG_SECCOUNT) (ucast n);
        let st4 = ata_out st3 (io_port drive + ATA_REG_LBALOW) (ucast (lba AND 0xFF));
        let st5 = ata_out st4 (io_port drive + ATA_REG_LBAMID) (ucast (drop_bit 8 lba AND 0xFF));
        let st6 = ata_out st5 (io_port drive + ATA_REG_LBAHIGH) (ucast (drop_bit 16 lba AND 0xFF));
        st7 \<leftarrow> ata_sleep 1 (snd ticks) (ata_out st6 (io_port drive + ATA_REG_COMMAND) ATA_CMD_WRITE_PIO);
        (_, st8) \<leftarrow> ata_wait dev (\<lambda>s. \<not> st_busy s \<and> st_data_transfer_requested s) (command_port drive) st7;
        let m = ataWrite_loop (io_port drive + ATA_REG_DATA) (unat (n * (SECTOR_SIZE div 2))) data (ata_mem st8) (ata_cpu st8);
        let st9 = ata_io (\<lambda>_. m) st8;
        let st10 = ide_resetBus (ata_out st9 (io_port drive + ATA_REG_COMMAND) ATA_CMD_CACHE_FLUSH) drive;
        (poll, st11) \<leftarrow> ata_wait dev (\<lambda>s. \<not> st_data_transfer_requested s \<and> \<not> st_busy s) (command_port drive) st10;
        (if st_error poll then do { st12 \<leftarrow> ata_print st11 ''ERROR: Error writing to disk\<newline>'' []; Some (0, st12) }
         else Some (n * SECTOR_SIZE, st11))
      })"

definition ide_ataWrite ::
    "device \<Rightarrow> addr \<Rightarrow> u32 \<Rightarrow> u32 \<Rightarrow> nat list \<times> nat list \<Rightarrow> ata \<Rightarrow> (u32 \<times> ata) option" where
  "ide_ataWrite dev data n sector_num ticks st =
     do { drive \<leftarrow> nth_opt (ata_drives st) 0; ide_ataWrite_drive dev drive data n sector_num ticks st }"

section \<open>Interrupt and initialisation\<close>

text \<open>\<open>interrupt_recieved\<close> is declared in neither this file nor its headers; it is taken to be the driver's.\<close>

definition ide_ideIRQHandler :: "ata \<Rightarrow> ata option" where
  "ide_ideIRQHandler st = ata_print (st\<lparr>interrupt_recieved := True\<rparr>) ''written!!!!!!!!!!!!!!!!!!!!!\<newline>'' []"

definition ide_ideInit :: "device \<Rightarrow> (bool \<times> u32) \<times> (bool \<times> u32) \<Rightarrow> ata \<Rightarrow> (bool \<times> ata) option" where
  "ide_ideInit dev garbage st =
     (let (floating, m1) = ide_isFloatingBus dev (ata_cpu st); st1 = ata_io (\<lambda>_. m1) st
      in if floating then do {
           st2 \<leftarrow> ata_print st1 ''Error: Floating Buses, No Drives Connected\<newline>'' [];
           Some (False, st2)
         } else do {
           let primary_drive = \<lparr>ata_type = ATA, drive_type = PRIMARY, io_port = PBUS, command_port = PBUSC,
                 uses_packets = fst (fst garbage), num_sectors = snd (fst garbage)\<rparr>;
           let secondary_drive = \<lparr>ata_type = ATA, drive_type = SECONDARY, io_port = SBUS, command_port = PBUSC,
                 uses_packets = fst (snd garbage), num_sectors = snd (snd garbage)\<rparr>;
           let st2 = st1\<lparr>ata_drives := [primary_drive, secondary_drive]\<rparr>;
           (b1, _, st3) \<leftarrow> ide_ataIdentify dev st2 primary_drive;
           st4 \<leftarrow> (if b1 then ata_print st3 ''Primary Bus is setup and read to read/write\<newline>'' [] else Some st3);
           (b2, _, st5) \<leftarrow> ide_ataIdentify dev st4 secondary_drive;
           st6 \<leftarrow> (if b2 then ata_print st5 ''Secondary Bus is setup and ready to read/write\<newline>'' [] else Some st5);
           Some (True, st6)
         })"

section \<open>Against the driver that is built\<close>

lemma ide_small [simp]:
  "ide_isFloatingBus = isFloatingBus" "ide_resetBus = resetBus" "ide_atapiSetup = atapiSetup"
  "ide_ataSetNoInterrupts = ataSetNoInterrupts" "ide_idePoll = idePoll" "ide_ideIRQHandler = ideIRQHandler"
  by (auto simp: fun_eq_iff ide_isFloatingBus_def isFloatingBus_def ide_resetBus_def resetBus_def ide_atapiSetup_def
      atapiSetup_def ide_ataSetNoInterrupts_def ataSetNoInterrupts_def ide_idePoll_def idePoll_def
      ide_ideIRQHandler_def ideIRQHandler_def Let_def case_prod_unfold map_conv_bind_option comp_def)

lemma ide_ataIdentify_eq: "ide_ataIdentify dev st drive = ataIdentify dev st drive"
  by (auto simp: ide_ataIdentify_def ataIdentify_def Let_def case_prod_unfold map_conv_bind_option comp_def
      intro!: Option.bind_cong)

lemmas transfer_parts = ata_check_def ata_request_def ata_finish_def ata_lba_def drive_select_and_high_bits_def

lemma ide_ataRead_eq: "ide_ataRead dev drive data n sector_num ticks st = ataRead_drive dev drive data n sector_num ticks st"
  unfolding ide_ataRead_def ataRead_drive_def
  by (auto simp: transfer_parts Let_def case_prod_unfold map_conv_bind_option comp_def Option.bind_assoc
      intro!: Option.bind_cong)

lemma ide_ataWrite_drive_eq:
  "ide_ataWrite_drive dev drive data n sector_num ticks st = ataWrite_drive dev drive data n sector_num ticks st"
  unfolding ide_ataWrite_drive_def ataWrite_drive_def
  by (auto simp: transfer_parts Let_def case_prod_unfold map_conv_bind_option comp_def Option.bind_assoc
      intro!: Option.bind_cong)

lemma not_setup_message:
  "ata_print st ''Secondary Bus is NOT setup\<newline>'' []
     = Some (st\<lparr>ata_console := ata_console st @ ''Secondary Bus is NOT setup\<newline>''\<rparr>)"
proof -
  have "kvsprintf ''Secondary Bus is NOT setup\<newline>'' [] = Some (''Secondary Bus is NOT setup\<newline>'', True)"
    by (simp add: kvsprintf_def)
  from kprintf_terminated [OF this] show ?thesis by (simp add: ata_print_def)
qed

lemma ide_ideInit_cases:
  "case ide_ideInit dev garbage st of
     None \<Rightarrow> ideInit dev garbage st = None
   | Some (b, s) \<Rightarrow> ideInit dev garbage st \<in> {Some (b, s),
       Some (b, s\<lparr>ata_console := ata_console s @ ''Secondary Bus is NOT setup\<newline>''\<rparr>)}"
  unfolding ide_ideInit_def ideInit_def ide_ataIdentify_eq
  by (auto simp: Let_def case_prod_unfold map_conv_bind_option comp_def not_setup_message split: bind_splits option.splits)


end
