(* ===== verification/Acpi.thy ===== *)
theory Acpi
  imports Kstdlib Kstdio "HOL-Library.Monad_Syntax"
begin

text \<open>
  The search for the ACPI root pointer in the BIOS area (\<open>src/rsdp.c\<close>, \<open>src/acpi.c\<close>). The
  memory is the machine's; the literal \<open>"RSD PTR "\<close> the search compares with is a block of that
  memory too, at the address \<open>lit\<close>.
\<close>

section \<open>Model\<close>

definition sizeof_RSDPDescriptor :: nat where
  "sizeof_RSDPDescriptor = 8 + 1 + 6 + 1 + 4"

text \<open>\<open>sum += ((char* )p)[i]\<close>, the sum a byte.\<close>

fun checksum_loop :: "mem \<Rightarrow> addr \<Rightarrow> nat \<Rightarrow> u8 \<Rightarrow> u8" where
  "checksum_loop m p 0 acc = acc"
| "checksum_loop m p (Suc n) acc = checksum_loop m (p + 1) n (acc + m p)"

definition evalRSDPChecksum :: "mem \<Rightarrow> addr \<Rightarrow> bool" where
  "evalRSDPChecksum m rsdp \<longleftrightarrow> checksum_loop m rsdp sizeof_RSDPDescriptor 0 = 0"

lemma getRSDP_advances: "(loc :: addr) \<le> 0x000FFFFF \<Longrightarrow> unat (loc + 16) = unat loc + 16"
  using unat_add_nowrap [of loc 16] by (simp add: word_le_nat_alt)

text \<open>The loop of \<open>getRSDP\<close>; the result 0 is \<open>NULL\<close>.\<close>

function getRSDP_loop :: "mem \<Rightarrow> addr \<Rightarrow> addr \<Rightarrow> addr" where
  "getRSDP_loop m lit loc =
     (if loc \<le> 0x000FFFFF then
        if kmemcmp m lit loc 8 = 0 \<and> evalRSDPChecksum m loc then loc
        else getRSDP_loop m lit (loc + 16)
      else 0)"
  by pat_completeness auto
termination
  by (relation "measure (\<lambda>(m, lit, loc). 0x100000 - unat loc)")
    (auto simp: getRSDP_advances word_le_nat_alt)

declare getRSDP_loop.simps [simp del]

definition getRSDP :: "mem \<Rightarrow> addr \<Rightarrow> addr" where
  "getRSDP m lit = getRSDP_loop m lit 0x000E0000"

definition sdt_length :: "mem \<Rightarrow> addr \<Rightarrow> u32" where
  "sdt_length m header = rd32 m (header + 4)"

definition acpiEvalHeaderChecksum :: "mem \<Rightarrow> addr \<Rightarrow> bool" where
  "acpiEvalHeaderChecksum m header \<longleftrightarrow> checksum_loop m header (unat (sdt_length m header)) 0 = 0"

text \<open>The lines \<open>acpiTesting\<close> adds to the terminal.\<close>

definition acpiTesting :: "mem \<Rightarrow> addr \<Rightarrow> string option" where
  "acpiTesting m lit =
     (let rsdp = getRSDP m lit
      in if rsdp = 0 then kprintf ''Unable to locate RSDP :(\<newline>'' [] else Some [])"

section \<open>Checksums\<close>

lemma checksum_loop_sum:
  "checksum_loop m p n acc = acc + of_nat (\<Sum>i < n. unat (m (p + of_nat i)))"
proof (induction n arbitrary: p acc)
  case (Suc n)
  show ?case
    by (simp add: Suc.IH sum.lessThan_Suc_shift add.assoc del: sum.lessThan_Suc)
qed simp

lemma checksum_0_iff:
  "checksum_loop m p n 0 = 0 \<longleftrightarrow> (\<Sum>i < n. unat (m (p + of_nat i))) mod 256 = 0"
  using word_of_nat_eq_0_iff [of "\<Sum>i < n. unat (m (p + of_nat i))", where 'a = 8]
  by (simp add: checksum_loop_sum dvd_eq_mod_eq_0 del: of_nat_sum)

section \<open>The search\<close>

text \<open>
  What the ACPI specification asks of the root pointer: the signature, and bytes of the structure
  that sum to 0.
\<close>

definition RSD_PTR :: "u8 list" where
  "RSD_PTR = [0x52, 0x53, 0x44, 0x20, 0x50, 0x54, 0x52, 0x20]"

definition is_rsdp :: "mem \<Rightarrow> addr \<Rightarrow> bool" where
  "is_rsdp m p \<longleftrightarrow>
     map (\<lambda>i. m (p + of_nat i)) [0..<8] = RSD_PTR
     \<and> (\<Sum>i < 20. unat (m (p + of_nat i))) mod 256 = 0"

text \<open>The literal, and the paragraphs of the BIOS area in order.\<close>

definition holds_literal :: "mem \<Rightarrow> addr \<Rightarrow> bool" where
  "holds_literal m lit \<longleftrightarrow> map (\<lambda>i. m (lit + of_nat i)) [0..<8] = RSD_PTR"

definition bios_paragraphs :: "addr list" where
  "bios_paragraphs = map (\<lambda>i. of_nat (0xE0000 + 16 * i)) [0..<0x2000]"

lemma candidate_iff:
  assumes "holds_literal m lit"
  shows "kmemcmp m lit p 8 = 0 \<and> evalRSDPChecksum m p \<longleftrightarrow> is_rsdp m p"
proof -
  have "kmemcmp m lit p 8 = 0 \<longleftrightarrow> map (\<lambda>i. m (lit + of_nat i)) [0..<8] = map (\<lambda>i. m (p + of_nat i)) [0..<8]"
    by (auto simp: kmemcmp_eq_0_iff)
  moreover have "evalRSDPChecksum m p \<longleftrightarrow> (\<Sum>i < 20. unat (m (p + of_nat i))) mod 256 = 0"
    unfolding evalRSDPChecksum_def checksum_0_iff by (simp add: sizeof_RSDPDescriptor_def)
  ultimately show ?thesis using assms unfolding holds_literal_def is_rsdp_def by metis
qed

lemma getRSDP_loop_finds:
  assumes "holds_literal m lit" and "k \<le> 0x2000"
  shows "getRSDP_loop m lit (of_nat (0xE0000 + 16 * k)) =
    (case find (is_rsdp m) (map (\<lambda>i. of_nat (0xE0000 + 16 * i)) [k..<0x2000]) of None \<Rightarrow> 0 | Some p \<Rightarrow> p)"
  using assms(2)
proof (induction "0x2000 - k" arbitrary: k)
  case 0
  then have "k = 0x2000" by simp
  then show ?case by (subst getRSDP_loop.simps) (simp add: word_le_nat_alt)
next
  case (Suc d)
  then have k: "k < 0x2000" by simp
  let ?loc = "of_nat (0xE0000 + 16 * k) :: addr"
  have le: "?loc \<le> 0x000FFFFF" using k by (simp add: word_le_nat_alt unat_of_nat_32 del: of_nat_add of_nat_mult)
  have next_loc: "?loc + 16 = of_nat (0xE0000 + 16 * Suc k)" by (simp add: algebra_simps)
  have "getRSDP_loop m lit ?loc = (if is_rsdp m ?loc then ?loc else getRSDP_loop m lit (?loc + 16))"
    using le candidate_iff [OF assms(1), of ?loc] by (subst getRSDP_loop.simps) simp
  moreover have "getRSDP_loop m lit (?loc + 16) =
      (case find (is_rsdp m) (map (\<lambda>i. of_nat (0xE0000 + 16 * i)) [Suc k..<0x2000]) of None \<Rightarrow> 0 | Some p \<Rightarrow> p)"
    unfolding next_loc using Suc(2) k by (intro Suc(1)) simp_all
  ultimately show ?case by (simp add: upt_conv_Cons [OF k] del: of_nat_add of_nat_mult)
qed

lemma bios_paragraphs_in:
  assumes "p \<in> set bios_paragraphs"
  shows "0xE0000 \<le> unat p \<and> unat p \<le> 0xFFFF0 \<and> unat p mod 16 = 0"
proof -
  obtain i where i: "p = of_nat (0xE0000 + 16 * i)" "i < 0x2000"
    using assms unfolding bios_paragraphs_def by auto
  then have "unat p = 0xE0000 + 16 * i" by (simp add: unat_of_nat_32 del: of_nat_add of_nat_mult)
  then show ?thesis using i by (simp add: mod_add_eq)
qed

text \<open>
  C39: The search is the specification's: \<open>getRSDP\<close> returns the first paragraph of the BIOS
  area, in ascending order, that holds a root pointer with a good checksum, and \<open>NULL\<close> exactly
  when no paragraph does. The pointer returned is inside the area and aligned to 16 bytes.
\<close>

theorem getRSDP_first:
  assumes "holds_literal m lit"
  shows "getRSDP m lit = (case find (is_rsdp m) bios_paragraphs of None \<Rightarrow> 0 | Some p \<Rightarrow> p)
    \<and> (getRSDP m lit = 0 \<longleftrightarrow> (\<forall>p \<in> set bios_paragraphs. \<not> is_rsdp m p))
    \<and> (getRSDP m lit \<noteq> 0 \<longrightarrow> is_rsdp m (getRSDP m lit)
        \<and> 0xE0000 \<le> unat (getRSDP m lit) \<and> unat (getRSDP m lit) \<le> 0xFFFF0 \<and> unat (getRSDP m lit) mod 16 = 0)"
proof -
  have r: "getRSDP m lit = (case find (is_rsdp m) bios_paragraphs of None \<Rightarrow> 0 | Some p \<Rightarrow> p)"
    using getRSDP_loop_finds [OF assms, of 0] by (simp add: getRSDP_def bios_paragraphs_def)
  show ?thesis
  proof (cases "find (is_rsdp m) bios_paragraphs")
    case None
    then have "\<forall>p \<in> set bios_paragraphs. \<not> is_rsdp m p" by (simp add: find_None_iff)
    then show ?thesis using r None by simp
  next
    case (Some p)
    then have p: "p \<in> set bios_paragraphs" "is_rsdp m p" by (auto simp: find_Some_iff)
    then have "p \<noteq> 0" using bios_paragraphs_in [of p] by auto
    then show ?thesis using Some r p bios_paragraphs_in [OF p(1)] by auto
  qed
qed

text \<open>A memory with the literal at \<open>0x1000\<close> and a root pointer in the second paragraph.\<close>

definition bios_example :: mem where
  "bios_example a =
     (let s = [0x52, 0x53, 0x44, 0x20, 0x50, 0x54, 0x52, 0x20, 225]
      in if unat (a - 0x1000) < 9 then s ! unat (a - 0x1000)
         else if unat (a - 0xE0010) < 9 then s ! unat (a - 0xE0010) else 0)"

lemma upt_8: "[0..<8] = [0, 1, 2, 3, 4, 5, 6, 7 :: nat]"
  by (simp add: upt_rec)

theorem getRSDP_first_witness: "getRSDP bios_example 0x1000 = 0xE0010"
proof -
  have lit: "holds_literal bios_example 0x1000"
    by (simp add: holds_literal_def RSD_PTR_def bios_example_def Let_def upt_8)
  have paragraphs: "bios_paragraphs = 0xE0000 # 0xE0010 # map (\<lambda>i. of_nat (0xE0000 + 16 * i)) [2..<0x2000]"
  proof -
    have u: "[0..<0x2000] = 0 # 1 # [2..<0x2000]"
      using upt_conv_Cons [of 0 "0x2000"] upt_conv_Cons [of 1 "0x2000"] by (simp only: One_nat_def Suc_1 [symmetric])
    show ?thesis unfolding bios_paragraphs_def u list.map by (simp del: upt_rec_numeral)
  qed
  have "bios_example 0xE0000 \<noteq> 0x52" "bios_example 0xE0000 = 0"
    by (simp_all add: bios_example_def Let_def)
  then have "map (\<lambda>i. bios_example (0xE0000 + of_nat i)) [0..<8] \<noteq> RSD_PTR"
    unfolding upt_8 RSD_PTR_def by simp
  then have no: "\<not> is_rsdp bios_example 0xE0000" unfolding is_rsdp_def by blast
  have "map (\<lambda>i. bios_example (0xE0010 + of_nat i)) [0..<8] = RSD_PTR"
    unfolding upt_8 RSD_PTR_def by (simp add: bios_example_def Let_def)
  moreover have "(\<Sum>i < 20. unat (bios_example (0xE0010 + of_nat i))) mod 256 = 0"
    by (simp add: bios_example_def Let_def lessThan_nat_numeral)
  ultimately have yes: "is_rsdp bios_example 0xE0010" unfolding is_rsdp_def by blast
  have "find (is_rsdp bios_example) bios_paragraphs = Some 0xE0010"
    unfolding paragraphs by (simp add: no yes del: upt_rec_numeral)
  then show ?thesis using conjunct1 [OF getRSDP_first [OF lit]] by simp
qed

end
