(* ===== verification/Pci.thy ===== *)
theory Pci
  imports Kstdio "HOL-Library.Word" "HOL-Library.Monad_Syntax"
begin

text \<open>
  The enumeration of PCI devices (\<open>src/pci.c\<close>). The file begins in the middle of
  \<open>pciCheckFunction\<close>: that function, the access to the configuration space and the base address
  registers are not in the repository. They are the parameters \<open>pci_routines\<close>, which act on the
  machine and the console and may fail to return. The build defines no \<open>DEBUG\<close>.
\<close>

section \<open>Model\<close>

record PCIDevice =
  pci_bus :: u8
  pci_slot :: u8
  pci_function :: u8
  pci_vendor_id :: u16
  pci_device_id :: u16
  pci_command :: u16
  pci_status :: u16
  pci_revision_id :: u8
  pci_prog_if :: u8
  pci_sub_class :: u8
  pci_class_code :: u8
  pci_cache_line_size :: u8
  pci_latency_timer :: u8
  pci_header_type :: u8
  pci_bist :: u8
  pci_interrupt_pin :: u8
  pci_interrupt_line :: u8

record 's pci =
  pci_machine :: 's
  pci_console :: string

record 's pci_routines =
  pciGetDevice :: "u8 \<Rightarrow> u8 \<Rightarrow> u8 \<Rightarrow> 's pci \<Rightarrow> PCIDevice \<times> 's pci"
  pciCheckFunction :: "u8 \<Rightarrow> u8 \<Rightarrow> u8 \<Rightarrow> 's pci \<Rightarrow> 's pci option"
  pciReadBar :: "u8 \<Rightarrow> u8 \<Rightarrow> u8 \<Rightarrow> u8 \<Rightarrow> 's pci \<Rightarrow> u32 \<times> 's pci"
  getBarMemAmt :: "PCIDevice \<Rightarrow> u8 \<Rightarrow> 's pci \<Rightarrow> u32 \<times> 's pci"

definition pci_print :: "string \<Rightarrow> va_arg list \<Rightarrow> 's pci \<Rightarrow> 's pci option" where
  "pci_print fmt args st = map_option (\<lambda>line. st\<lparr>pci_console := pci_console st @ line\<rparr>) (kprintf fmt args)"

definition printBar :: "'s pci_routines \<Rightarrow> PCIDevice \<Rightarrow> u32 \<Rightarrow> u8 \<Rightarrow> string \<Rightarrow> 's pci \<Rightarrow> 's pci option" where
  "printBar R pd bar bar_num padding st =
     (let (amt_mem, st1) = getBarMemAmt R pd bar_num st
      in do {
        st2 \<leftarrow> (if bar AND 1 \<noteq> 0
          then pci_print ''%sI/O addr: 0x%x\<newline>'' [Va_str padding, Va_int (bar AND 0xFFFFFFFC)] st1
          else pci_print ''%sMem. Space addr: 0x%x\<newline>'' [Va_str padding, Va_int (bar AND 0xFFFFFFF0)] st1);
        pci_print ''%sAmt. Mem. Needed: 0x%x\<newline>'' [Va_str padding, Va_int amt_mem] st2
      })"

definition printDevice :: "PCIDevice \<Rightarrow> string \<Rightarrow> 's pci \<Rightarrow> 's pci option" where
  "printDevice pd padding st =
     do {
       st1 \<leftarrow> pci_print ''%sVendorID:      0x%x\<newline>'' [Va_str padding, Va_int (ucast (pci_vendor_id pd))] st;
       st2 \<leftarrow> pci_print ''%s  DeviceID:    0x%x\<newline>'' [Va_str padding, Va_int (ucast (pci_device_id pd))] st1;
       st3 \<leftarrow> pci_print ''%s  ProgIF:      0x%x\<newline>'' [Va_str padding, Va_int (ucast (pci_prog_if pd))] st2;
       st4 \<leftarrow> pci_print ''%s  Header Type: 0x%x\<newline>'' [Va_str padding, Va_int (ucast (pci_header_type pd))] st3;
       st5 \<leftarrow> pci_print ''%s  Class Code:  0x%x\<newline>'' [Va_str padding, Va_int (ucast (pci_class_code pd))] st4;
       st6 \<leftarrow> pci_print ''%s  Sub Class:   0x%x\<newline>'' [Va_str padding, Va_int (ucast (pci_sub_class pd))] st5;
       st7 \<leftarrow> pci_print ''%s  IRQ Pin:     0x%x\<newline>'' [Va_str padding, Va_int (ucast (pci_interrupt_pin pd))] st6;
       pci_print ''%s  IRQ Line:    0x%x\<newline>'' [Va_str padding, Va_int (ucast (pci_interrupt_line pd))] st7
     }"

text \<open>The six registers are read into a local array that nothing uses.\<close>

definition handleDistController :: "'s pci_routines \<Rightarrow> PCIDevice \<Rightarrow> 's pci \<Rightarrow> 's pci" where
  "handleDistController R pd st =
     fold (\<lambda>i s. snd (pciReadBar R (pci_bus pd) (pci_slot pd) (pci_function pd) i s)) [0, 1, 2, 3, 4, 5] st"

text \<open>One turn of the loop over the functions 1 to 7, and the loop.\<close>

definition pci_function_turn :: "'s pci_routines \<Rightarrow> u8 \<Rightarrow> u8 \<Rightarrow> u8 \<Rightarrow> 's pci \<Rightarrow> 's pci option" where
  "pci_function_turn R bus device function st =
     (let (tmp_pd, st1) = pciGetDevice R bus device function st
      in if pci_vendor_id tmp_pd \<noteq> 0xffff then
           do {
             st2 \<leftarrow> pci_print ''    Function %d:\<newline>'' [Va_int (ucast function)] st1;
             st3 \<leftarrow> printDevice tmp_pd ''    '' st2;
             st4 \<leftarrow> pciCheckFunction R bus device function st3;
             Some (if pci_class_code tmp_pd = 0x01 \<and> pci_sub_class tmp_pd = 0x01
                   then handleDistController R tmp_pd st4 else st4)
           }
         else Some st1)"

fun pciCheckDevice_loop :: "'s pci_routines \<Rightarrow> u8 \<Rightarrow> u8 \<Rightarrow> u8 list \<Rightarrow> 's pci \<Rightarrow> 's pci option" where
  "pciCheckDevice_loop R bus device [] st = Some st"
| "pciCheckDevice_loop R bus device (function # functions) st =
     do { st1 \<leftarrow> pci_function_turn R bus device function st; pciCheckDevice_loop R bus device functions st1 }"

definition pciCheckDevice :: "'s pci_routines \<Rightarrow> u8 \<Rightarrow> u8 \<Rightarrow> 's pci \<Rightarrow> 's pci option" where
  "pciCheckDevice R bus device st =
     (let (pd, st1) = pciGetDevice R bus device 0 st
      in do {
        st2 \<leftarrow> pciCheckFunction R bus device 0 st1;
        (if pci_header_type pd \<noteq> 0 then pciCheckDevice_loop R bus device [1, 2, 3, 4, 5, 6, 7] st2 else Some st2)
      })"

fun pciCheckBus_loop :: "'s pci_routines \<Rightarrow> u8 \<Rightarrow> u8 list \<Rightarrow> 's pci \<Rightarrow> 's pci option" where
  "pciCheckBus_loop R bus [] st = Some st"
| "pciCheckBus_loop R bus (device # devices) st =
     do { st1 \<leftarrow> pciCheckDevice R bus device st; pciCheckBus_loop R bus devices st1 }"

definition pciCheckBus :: "'s pci_routines \<Rightarrow> u8 \<Rightarrow> 's pci \<Rightarrow> 's pci option" where
  "pciCheckBus R bus st = pciCheckBus_loop R bus (map of_nat [0..<32]) st"

text \<open>The inner loop of \<open>pciCheckAllBuses\<close> is that of \<open>pciCheckBus\<close>; \<open>bus\<close> is an \<open>int\<close>.\<close>

fun pciCheckAllBuses_loop :: "'s pci_routines \<Rightarrow> nat list \<Rightarrow> 's pci \<Rightarrow> 's pci option" where
  "pciCheckAllBuses_loop R [] st = Some st"
| "pciCheckAllBuses_loop R (bus # buses) st =
     do { st1 \<leftarrow> pciCheckBus_loop R (of_nat bus) (map of_nat [0..<32]) st; pciCheckAllBuses_loop R buses st1 }"

definition pciCheckAllBuses :: "'s pci_routines \<Rightarrow> 's pci \<Rightarrow> 's pci option" where
  "pciCheckAllBuses R st = pciCheckAllBuses_loop R [0..<256] st"

section \<open>Messages\<close>

text \<open>A result that is defined and has checked a list of functions, one after the other.\<close>

definition has_checked :: "(u8 \<Rightarrow> u8 \<Rightarrow> u8 \<Rightarrow> 's \<Rightarrow> 's) \<Rightarrow> (u8 \<times> u8 \<times> u8) list \<Rightarrow> 's pci \<Rightarrow> 's pci option \<Rightarrow> bool" where
  "has_checked chk xs st r \<longleftrightarrow>
     (\<exists>st'. r = Some st' \<and> pci_machine st' = fold (\<lambda>(b, d, f). chk b d f) xs (pci_machine st))"

lemma has_checked_bind:
  assumes "has_checked chk xs st r" and "\<And>st1. has_checked chk ys st1 (g st1)"
  shows "has_checked chk (xs @ ys) st (r \<bind> g)"
proof -
  obtain st1 where st1: "r = Some st1" "pci_machine st1 = fold (\<lambda>(b, d, f). chk b d f) xs (pci_machine st)"
    using assms(1) by (auto simp: has_checked_def)
  then show ?thesis using assms(2) [of st1] by (simp add: has_checked_def)
qed

lemma has_checked_Nil: "has_checked chk [] st (Some st)"
  by (simp add: has_checked_def)

lemmas has_checked_bind_Nil = has_checked_bind [where xs = "[]" and ys = "[]", simplified]

lemma pci_print_returns:
  assumes "kvsprintf fmt args = Some (text, True)" and "length fmt + sum_list (map arg_width args) < 1024"
  shows "has_checked chk [] st (pci_print fmt args st)"
  using kprintf_terminated [OF assms] by (simp add: pci_print_def has_checked_def)

text \<open>A message of a padding, a label and a number, as all of those about a device are.\<close>

definition field_message :: "string \<Rightarrow> bool" where
  "field_message fmt \<longleftrightarrow> (let label = drop 2 (take (length fmt - 3) fmt)
     in fmt = ''%s'' @ label @ ''%x\<newline>'' \<and> CHR ''%'' \<notin> set label \<and> length label < 900)"

lemma pci_print_field:
  assumes "field_message fmt"
  shows "has_checked chk [] st (pci_print fmt [Va_str ''    '', Va_int w] st)"
proof -
  obtain label where fmt: "fmt = ''%s'' @ label @ ''%x\<newline>''" and label: "CHR ''%'' \<notin> set label" "length label < 900"
    using assms unfolding field_message_def Let_def by blast
  have "kvsprintf_loop padding (label @ ''%x\<newline>'') [Va_int w] = kvsprintf_loop (padding @ label) ''%x\<newline>'' [Va_int w]" for padding
    using label(1) by (induction label arbitrary: padding) auto
  then have "kvsprintf fmt [Va_str ''    '', Va_int w] = Some (render_hexadecimal (''    '' @ label) w @ ''\<newline>'', True)"
    by (simp add: kvsprintf_def render_string_append fmt)
  from pci_print_returns [OF this] show ?thesis using label(2) by (simp add: fmt)
qed

lemma printDevice_returns: "has_checked chk [] st (printDevice pd ''    '' st)"
  unfolding printDevice_def
  by (intro has_checked_bind_Nil pci_print_field) (simp_all add: field_message_def)

lemma pci_print_function: "has_checked chk [] st (pci_print ''    Function %d:\<newline>'' [Va_int w] st)"
proof -
  have "kvsprintf ''    Function %d:\<newline>'' [Va_int w] = Some (render_integer ''    Function '' w @ '':\<newline>'', True)"
    by (simp add: kvsprintf_def)
  from pci_print_returns [OF this] show ?thesis by simp
qed

section \<open>Which functions are checked\<close>

text \<open>
  Routines over a configuration space that only reading does not change: \<open>cfg\<close> is what
  \<open>pciGetDevice\<close> reads, \<open>chk\<close> what \<open>pciCheckFunction\<close> does to the machine, \<open>rd\<close> what
  reading a register leaves.
\<close>

definition quiet_routines ::
  "(u8 \<Rightarrow> u8 \<Rightarrow> u8 \<Rightarrow> PCIDevice) \<Rightarrow> (u8 \<Rightarrow> u8 \<Rightarrow> u8 \<Rightarrow> 's \<Rightarrow> 's) \<Rightarrow> 's pci_routines" where
  "quiet_routines cfg chk =
     \<lparr>pciGetDevice = \<lambda>b d f st. (cfg b d f, st),
      pciCheckFunction = \<lambda>b d f st. Some (st\<lparr>pci_machine := chk b d f (pci_machine st)\<rparr>),
      pciReadBar = \<lambda>b d f i st. (0, st),
      getBarMemAmt = \<lambda>pd i st. (0, st)\<rparr>"

type_synonym pci_config = "u8 \<Rightarrow> u8 \<Rightarrow> u8 \<Rightarrow> PCIDevice"

definition further_functions :: "pci_config \<Rightarrow> u8 \<Rightarrow> u8 \<Rightarrow> u8 list \<Rightarrow> u8 list" where
  "further_functions cfg b d fs = filter (\<lambda>f. pci_vendor_id (cfg b d f) \<noteq> 0xffff) fs"

definition device_functions :: "pci_config \<Rightarrow> u8 \<Rightarrow> u8 \<Rightarrow> (u8 \<times> u8 \<times> u8) list" where
  "device_functions cfg b d =
     map (\<lambda>f. (b, d, f)) (0 # (if pci_header_type (cfg b d 0) \<noteq> 0 then further_functions cfg b d [1, 2, 3, 4, 5, 6, 7] else []))"

definition bus_functions :: "pci_config \<Rightarrow> u8 list \<Rightarrow> u8 \<Rightarrow> (u8 \<times> u8 \<times> u8) list" where
  "bus_functions cfg ds b = concat (map (device_functions cfg b) ds)"

definition all_functions :: "pci_config \<Rightarrow> (u8 \<times> u8 \<times> u8) list" where
  "all_functions cfg = concat (map (bus_functions cfg (map of_nat [0..<32]) \<circ> of_nat) [0..<256])"

lemma quiet_simps [simp]:
  "pciGetDevice (quiet_routines cfg chk) b d f st = (cfg b d f, st)"
  "pciCheckFunction (quiet_routines cfg chk) b d f st = Some (st\<lparr>pci_machine := chk b d f (pci_machine st)\<rparr>)"
  "handleDistController (quiet_routines cfg chk) pd st = st"
  by (simp_all add: handleDistController_def quiet_routines_def)

lemma pci_function_turn_quiet:
  "has_checked chk (map (\<lambda>f. (b, d, f)) (further_functions cfg b d [f])) st
     (pci_function_turn (quiet_routines cfg chk) b d f st)"
proof (cases "pci_vendor_id (cfg b d f) = 0xffff")
  case True
  then show ?thesis
    by (simp add: pci_function_turn_def further_functions_def has_checked_Nil)
next
  case False
  let ?R = "quiet_routines cfg chk"
  let ?rest = "\<lambda>s. do { s4 \<leftarrow> pciCheckFunction ?R b d f s;
    Some (if pci_class_code (cfg b d f) = 1 \<and> pci_sub_class (cfg b d f) = 1 then handleDistController ?R (cfg b d f) s4 else s4) }"
  have "has_checked chk [(b, d, f)] s (?rest s)" for s
    by (simp add: has_checked_def)
  then have "has_checked chk ([] @ [] @ [(b, d, f)]) st
      (do { s2 \<leftarrow> pci_print ''    Function %d:\<newline>'' [Va_int (ucast f)] st; s3 \<leftarrow> printDevice (cfg b d f) ''    '' s2; ?rest s3 })"
    by (intro has_checked_bind pci_print_function printDevice_returns)
  then show ?thesis using False
    by (simp add: pci_function_turn_def further_functions_def)
qed

lemma pciCheckDevice_loop_quiet:
  "has_checked chk (map (\<lambda>f. (b, d, f)) (further_functions cfg b d fs)) st
     (pciCheckDevice_loop (quiet_routines cfg chk) b d fs st)"
proof (induction fs arbitrary: st)
  case Nil
  then show ?case by (simp add: further_functions_def has_checked_Nil)
next
  case (Cons f fs)
  have split: "map (\<lambda>f. (b, d, f)) (further_functions cfg b d (f # fs))
      = map (\<lambda>f. (b, d, f)) (further_functions cfg b d [f]) @ map (\<lambda>f. (b, d, f)) (further_functions cfg b d fs)"
    by (simp add: further_functions_def)
  show ?case unfolding split pciCheckDevice_loop.simps
    by (rule has_checked_bind [OF pci_function_turn_quiet Cons.IH])
qed

lemma pciCheckDevice_quiet:
  "has_checked chk (device_functions cfg b d) st (pciCheckDevice (quiet_routines cfg chk) b d st)"
proof -
  let ?R = "quiet_routines cfg chk"
  have first: "has_checked chk [(b, d, 0)] st (pciCheckFunction ?R b d 0 st)"
    by (simp add: has_checked_def)
  have rest: "has_checked chk (map (\<lambda>f. (b, d, f)) (if pci_header_type (cfg b d 0) \<noteq> 0 then further_functions cfg b d [1, 2, 3, 4, 5, 6, 7] else [])) st1
     (if pci_header_type (cfg b d 0) \<noteq> 0 then pciCheckDevice_loop ?R b d [1, 2, 3, 4, 5, 6, 7] st1 else Some st1)" for st1
    by (simp add: pciCheckDevice_loop_quiet has_checked_Nil del: pciCheckDevice_loop.simps)
  show ?thesis using has_checked_bind [OF first rest] by (simp add: pciCheckDevice_def device_functions_def)
qed

lemma pciCheckBus_loop_quiet:
  "has_checked chk (bus_functions cfg ds b) st (pciCheckBus_loop (quiet_routines cfg chk) b ds st)"
  by (induction ds arbitrary: st)
    (simp_all add: bus_functions_def has_checked_Nil has_checked_bind [OF pciCheckDevice_quiet])

lemma pciCheckAllBuses_loop_quiet:
  "has_checked chk (concat (map (bus_functions cfg (map of_nat [0..<32]) \<circ> of_nat) bs)) st
     (pciCheckAllBuses_loop (quiet_routines cfg chk) bs st)"
  by (induction bs arbitrary: st)
    (simp_all add: has_checked_Nil has_checked_bind [OF pciCheckBus_loop_quiet] del: upt_rec_numeral)

section \<open>The enumeration\<close>

lemma unat_of_nat_u8: "n < 256 \<Longrightarrow> unat (of_nat n :: u8) = n"
  by (simp add: unat_of_nat take_bit_nat_eq_self)

lemma of_nat_u8_inj: "inj_on (of_nat :: nat \<Rightarrow> u8) {0..<256}"
  by (rule inj_on_inverseI [where g = unat]) (simp add: unat_of_nat_u8)

lemma small_u8: "(of_nat :: nat \<Rightarrow> u8) ` {0..<32} = {d. d < 32}" "(of_nat :: nat \<Rightarrow> u8) ` {0..<256} = UNIV"
proof -
  have "d \<in> of_nat ` {0..<32}" if "d < 32" for d :: u8
    using that by (intro image_eqI [of _ _ "unat d"]) (simp_all add: word_less_nat_alt)
  then show "(of_nat :: nat \<Rightarrow> u8) ` {0..<32} = {d. d < 32}"
    by (auto simp: word_less_nat_alt unat_of_nat_u8)
  have "d \<in> of_nat ` {0..<256}" for d :: u8
    using unsigned_less [of d, where ?'a = nat] by (intro image_eqI [of _ _ "unat d"]) simp_all
  then show "(of_nat :: nat \<Rightarrow> u8) ` {0..<256} = UNIV" by blast
qed

lemma seven: "f \<in> set [1, 2, 3, 4, 5, 6, 7] \<longleftrightarrow> f \<noteq> 0 \<and> f < (8 :: u8)"
proof -
  have "unat f = 0 \<or> unat f = 1 \<or> unat f = 2 \<or> unat f = 3 \<or> unat f = 4 \<or> unat f = 5 \<or> unat f = 6 \<or> unat f = 7" if "f < 8"
    using that by (simp add: word_less_nat_alt) arith
  then show ?thesis by (auto simp: word_unat_eq_iff word_less_nat_alt)
qed

text \<open>The functions that are there: number 0 always counts, the others when they answer and number 0 has a header type.\<close>

definition enumerated :: "pci_config \<Rightarrow> u8 \<Rightarrow> u8 \<Rightarrow> u8 \<Rightarrow> bool" where
  "enumerated cfg b d f \<longleftrightarrow> d < 32 \<and> f < 8
     \<and> (f = 0 \<or> pci_header_type (cfg b d 0) \<noteq> 0 \<and> pci_vendor_id (cfg b d f) \<noteq> 0xffff)"

lemma device_functions_set: "(b', d', f) \<in> set (device_functions cfg b d) \<longleftrightarrow> b' = b \<and> d' = d
    \<and> (f = 0 \<or> (f \<noteq> 0 \<and> f < 8) \<and> pci_header_type (cfg b d 0) \<noteq> 0 \<and> pci_vendor_id (cfg b d f) \<noteq> 0xffff)"
proof -
  have "(b', d', f) \<in> set (map (\<lambda>f. (b, d, f)) (0 # (if h then filter P fs else [])))
      \<longleftrightarrow> b' = b \<and> d' = d \<and> (f = 0 \<or> f \<in> set fs \<and> h \<and> P f)" for h P fs by auto
  then show ?thesis unfolding device_functions_def further_functions_def seven [symmetric] .
qed

lemma all_functions_set: "(b, d, f) \<in> set (all_functions cfg) \<longleftrightarrow> enumerated cfg b d f"
proof -
  have "(b, d, f) \<in> set (concat (map (bus_functions cfg (map of_nat ds) \<circ> of_nat) bs))
      \<longleftrightarrow> b \<in> of_nat ` set bs \<and> d \<in> of_nat ` set ds \<and> (b, d, f) \<in> set (device_functions cfg b d)" for bs ds
    by (auto simp: bus_functions_def device_functions_set)
  from this [of "[0..<32]" "[0..<256]"] show ?thesis
    unfolding all_functions_def set_upt small_u8 device_functions_set enumerated_def by auto
qed

text \<open>Lists of lists that are told apart by a key have no element twice.\<close>

lemma distinct_concat_keys:
  assumes "distinct ks" and "\<And>k. k \<in> set ks \<Longrightarrow> distinct (g k)" and "\<And>k x. x \<in> set (g k) \<Longrightarrow> key x = k"
  shows "distinct (concat (map g ks))"
  using assms(1,2) by (induction ks) (auto dest: assms(3))

lemma device_functions_distinct: "distinct (device_functions cfg b d)"
proof -
  have "distinct (0 # fs) \<Longrightarrow> distinct (map (\<lambda>f. (b, d, f)) (0 # (if h then filter P fs else [])))" for h P and fs :: "u8 list"
    by (auto simp: distinct_map intro: inj_onI)
  moreover have "distinct (0 # [1, 2, 3, 4, 5, 6, 7] :: u8 list)" by simp
  ultimately show ?thesis unfolding device_functions_def further_functions_def by blast
qed

lemma all_functions_distinct: "distinct (all_functions cfg)"
proof -
  have ds: "distinct (map of_nat [0..<n] :: u8 list)" if "n \<le> 256" for n
    unfolding distinct_map using inj_on_subset [OF of_nat_u8_inj, of "{0..<n}"] that by simp
  have key_d: "fst (snd x) = d" if "x \<in> set (device_functions cfg b d)" for x b d
    using that device_functions_set [of "fst x" "fst (snd x)" "snd (snd x)"] by simp
  have key_b: "fst x = b" if "x \<in> set (bus_functions cfg ds b)" for x b ds
    using that device_functions_set [of "fst x" "fst (snd x)" "snd (snd x)"] unfolding bus_functions_def by auto
  have bus: "distinct (bus_functions cfg (map of_nat [0..<32]) b)" for b
    unfolding bus_functions_def
    by (rule distinct_concat_keys [where key = "\<lambda>x. fst (snd x)"]) (use ds [of 32] device_functions_distinct key_d in auto)
  have "distinct (concat (map (bus_functions cfg (map of_nat [0..<32])) (map of_nat [0..<256])))"
    by (rule distinct_concat_keys [where key = fst]) (use ds [of 256] bus key_b in auto)
  then show ?thesis by (simp only: all_functions_def map_map)
qed


end
