(* ===== verification/Sknyfs.thy ===== *)
theory Sknyfs
  imports Kstdlib Kstdio "HOL-Library.Monad_Syntax"
begin

text \<open>
  The file system (\<open>src/sknyfs.c\<close>): a map of allocated chunks and a table of files, at fixed
  places of a disk. The disk routines it calls (\<open>ideReadSectors\<close>, \<open>ideWriteSectors\<close>,
  \<open>idePrintError\<close>) and its type \<open>ATAError\<close> are declared nowhere in the repository; they are the
  parameter \<open>ide\<close>, over a type \<open>'d\<close> of disks. A local array is a function of the offset. The local
  \<open>FileMetadata\<close> that string routines are applied to lies in memory, at the address \<open>frame\<close>.
  A result \<open>None\<close> is undefined behaviour of \<open>kprintf\<close>, or a call that does not return.
\<close>

section \<open>Types and sizes\<close>

type_synonym buffer = "nat \<Rightarrow> u8"

record 'd ide =
  ideReadSectors :: "u8 \<Rightarrow> u32 \<Rightarrow> u32 \<Rightarrow> 'd \<Rightarrow> int \<times> buffer \<times> 'd"
  ideWriteSectors :: "u8 \<Rightarrow> u32 \<Rightarrow> u32 \<Rightarrow> buffer \<Rightarrow> 'd \<Rightarrow> int \<times> 'd"
  idePrintError :: "u8 \<Rightarrow> int \<Rightarrow> string"
  NoError :: int

record 'd skny =
  handle_drive :: u8
  disk :: 'd
  skny_mem :: mem
  skny_console :: string

datatype SknyStatus =
  SKNY_STATUS_OK | SKNY_WRITE_FAILURE | SKNY_READ_FAILURE | SKNY_FILESYSTEM_FULL | SKNY_FILE_NOT_FOUND

definition IDE_SECTOR_SIZE :: u32 where "IDE_SECTOR_SIZE = 512"
definition CHUNK_SIZE :: u32 where "CHUNK_SIZE = 1024"
definition SECTORS_PER_CHUNK :: u32 where "SECTORS_PER_CHUNK = CHUNK_SIZE div IDE_SECTOR_SIZE"
definition CHUNKS_IN_ALLOCATION_MAP :: nat where "CHUNKS_IN_ALLOCATION_MAP = 16"
definition CHUNKS_IN_FILE_MAP :: nat where "CHUNKS_IN_FILE_MAP = 16"
definition sizeof_FileMetadata :: u32 where "sizeof_FileMetadata = 252 + 4"
definition ALLOCATION_MAP_BEGIN :: u32 where "ALLOCATION_MAP_BEGIN = 0"
definition FILE_MAP_BEGIN :: u32 where "FILE_MAP_BEGIN = of_nat CHUNKS_IN_ALLOCATION_MAP * CHUNK_SIZE"
definition FILES_PER_CHUNK :: u32 where "FILES_PER_CHUNK = CHUNK_SIZE div sizeof_FileMetadata"
definition TOTAL_ALLOCATABLE_CHUNKS :: u32 where
  "TOTAL_ALLOCATABLE_CHUNKS = of_nat CHUNKS_IN_ALLOCATION_MAP * CHUNK_SIZE * 8"
definition MAXIMUM_FILE_COUNT :: u32 where
  "MAXIMUM_FILE_COUNT = of_nat CHUNKS_IN_FILE_MAP * CHUNK_SIZE div sizeof_FileMetadata"

text \<open>The table of names has four entries for the five values of the enumeration.\<close>

definition sknyStatusStrings :: "string list" where
  "sknyStatusStrings = [''SKNY_STATUS_OK'', ''SKNY_WRITE_FAILURE'', ''SKNY_READ_FAILURE'', ''SKNY_FILESYSTEM_FULL'']"

fun status_index :: "SknyStatus \<Rightarrow> nat" where
  "status_index SKNY_STATUS_OK = 0"
| "status_index SKNY_WRITE_FAILURE = 1"
| "status_index SKNY_READ_FAILURE = 2"
| "status_index SKNY_FILESYSTEM_FULL = 3"
| "status_index SKNY_FILE_NOT_FOUND = 4"

definition sknyStatusToString :: "SknyStatus \<Rightarrow> string option" where
  "sknyStatusToString status = nth_opt sknyStatusStrings (status_index status)"

section \<open>Calls of the disk and of the terminal\<close>

definition skny_print :: "'d skny \<Rightarrow> string \<Rightarrow> va_arg list \<Rightarrow> 'd skny option" where
  "skny_print st fmt args = map_option (\<lambda>line. st\<lparr>skny_console := skny_console st @ line\<rparr>) (kprintf fmt args)"

definition skny_error :: "'d ide \<Rightarrow> 'd skny \<Rightarrow> int \<Rightarrow> 'd skny" where
  "skny_error ide st err = st\<lparr>skny_console := skny_console st @ idePrintError ide (handle_drive st) err\<rparr>"

text \<open>Reading and writing a chunk, with the message on an error.\<close>

definition read_chunk :: "'d ide \<Rightarrow> 'd skny \<Rightarrow> u32 \<Rightarrow> buffer option \<times> 'd skny" where
  "read_chunk ide st location =
     (let (err, buf, d) = ideReadSectors ide (handle_drive st) SECTORS_PER_CHUNK location (disk st);
          st' = st\<lparr>disk := d\<rparr>
      in if err \<noteq> NoError ide then (None, skny_error ide st' err) else (Some buf, st'))"

definition write_chunk :: "'d ide \<Rightarrow> 'd skny \<Rightarrow> u32 \<Rightarrow> buffer \<Rightarrow> bool \<times> 'd skny" where
  "write_chunk ide st location buf =
     (let (err, d) = ideWriteSectors ide (handle_drive st) SECTORS_PER_CHUNK location buf (disk st);
          st' = st\<lparr>disk := d\<rparr>
      in if err \<noteq> NoError ide then (False, skny_error ide st' err) else (True, st'))"

section \<open>The allocation map\<close>

fun scan_map_bytes :: "buffer \<Rightarrow> u32 \<Rightarrow> nat \<Rightarrow> nat \<Rightarrow> u32 option" where
  "scan_map_bytes map_chunk i j 0 = None"
| "scan_map_bytes map_chunk i j (Suc n) =
     (let byte_field = map_chunk j in
      if byte_field \<noteq> 0xff then
        (case find (\<lambda>b. byte_field AND lsh1 b = 0) [0..<8] of
           Some b \<Rightarrow> Some (i * (CHUNK_SIZE * 8) + of_nat j * 8 + of_nat b)
         | None \<Rightarrow> scan_map_bytes map_chunk i (j + 1) n)
      else scan_map_bytes map_chunk i (j + 1) n)"

fun search_map_loop :: "'d ide \<Rightarrow> 'd skny \<Rightarrow> nat \<Rightarrow> nat \<Rightarrow> SknyStatus \<times> u32 option \<times> 'd skny" where
  "search_map_loop ide st i 0 = (SKNY_FILESYSTEM_FULL, None, st)"
| "search_map_loop ide st i (Suc n) =
     (case read_chunk ide st (ALLOCATION_MAP_BEGIN + of_nat i * CHUNK_SIZE) of
        (None, st') \<Rightarrow> (SKNY_READ_FAILURE, None, st')
      | (Some map_chunk, st') \<Rightarrow>
          (case scan_map_bytes map_chunk (of_nat i) 0 (unat CHUNK_SIZE) of
             Some location \<Rightarrow> (SKNY_STATUS_OK, Some location, st')
           | None \<Rightarrow> search_map_loop ide st' (i + 1) n))"

definition searchAllocationMap :: "'d ide \<Rightarrow> 'd skny \<Rightarrow> SknyStatus \<times> u32 option \<times> 'd skny" where
  "searchAllocationMap ide st = search_map_loop ide st 0 CHUNKS_IN_ALLOCATION_MAP"

definition markChunkAsUsed :: "'d ide \<Rightarrow> 'd skny \<Rightarrow> u32 \<Rightarrow> SknyStatus \<times> 'd skny" where
  "markChunkAsUsed ide st chunk_number =
     (let BITS_PER_CHUNK = CHUNK_SIZE * 8;
          map_chunk = chunk_number div BITS_PER_CHUNK;
          offset_into_map_chunk = chunk_number mod BITS_PER_CHUNK;
          byte_offset = unat (offset_into_map_chunk div 8);
          bit_offset = unat (offset_into_map_chunk mod 8);
          map_chunk_location = ALLOCATION_MAP_BEGIN + map_chunk * CHUNK_SIZE
      in case read_chunk ide st map_chunk_location of
           (None, st') \<Rightarrow> (SKNY_READ_FAILURE, st')
         | (Some buf, st') \<Rightarrow>
             (let (ok, st'') = write_chunk ide st' map_chunk_location (buf(byte_offset := buf byte_offset OR lsh1 bit_offset))
              in (if ok then SKNY_STATUS_OK else SKNY_WRITE_FAILURE, st'')))"

section \<open>The file map\<close>

text \<open>An element of \<open>FileMetadata files[FILES_PER_CHUNK]\<close>: its bytes, its name and its location.\<close>

definition file_at :: "buffer \<Rightarrow> nat \<Rightarrow> buffer" where
  "file_at files i = (\<lambda>k. files (256 * i + k))"

definition file_string :: "buffer \<Rightarrow> string option" where
  "file_string file =
     (let bs = map file [0..<256]
      in if 0 \<in> set bs then Some (map (\<lambda>c. char_of (unat c)) (takeWhile (\<lambda>c. c \<noteq> 0) bs)) else None)"

definition file_location :: "buffer \<Rightarrow> u32" where
  "file_location file = rd32 (\<lambda>a. file (unat a)) 252"

definition chunk_location :: "nat \<Rightarrow> u32" where
  "chunk_location chunk_index = FILE_MAP_BEGIN + of_nat chunk_index * CHUNK_SIZE"

definition file_number :: "nat \<Rightarrow> nat \<Rightarrow> u32" where
  "file_number chunk_index file_index = of_nat chunk_index * FILES_PER_CHUNK + of_nat file_index"

text \<open>The inner loop of \<open>searchFileMap\<close>, which prints each file before it looks at it.\<close>

fun scan_files :: "'d skny \<Rightarrow> buffer \<Rightarrow> nat \<Rightarrow> nat \<Rightarrow> nat \<Rightarrow> (u32 option \<times> 'd skny) option" where
  "scan_files st files chunk_index file_index 0 = Some (None, st)"
| "scan_files st files chunk_index file_index (Suc n) =
     do {
       name \<leftarrow> file_string (file_at files file_index);
       st1 \<leftarrow> skny_print st ''file %u: name (%s) location (%u)\<newline>''
         [Va_int (file_number chunk_index file_index), Va_str name, Va_int (file_location (file_at files file_index))];
       (if file_at files file_index 0 = 0 then Some (Some (file_number chunk_index file_index), st1)
        else scan_files st1 files chunk_index (file_index + 1) n)
     }"

fun search_files_loop :: "'d ide \<Rightarrow> 'd skny \<Rightarrow> nat \<Rightarrow> nat \<Rightarrow> (SknyStatus \<times> u32 option \<times> 'd skny) option" where
  "search_files_loop ide st chunk_index 0 = Some (SKNY_FILESYSTEM_FULL, None, st)"
| "search_files_loop ide st chunk_index (Suc n) =
     (case read_chunk ide st (chunk_location chunk_index) of
        (None, st') \<Rightarrow> Some (SKNY_READ_FAILURE, None, st')
      | (Some files, st') \<Rightarrow>
          do {
            (found, st'') \<leftarrow> scan_files st' files chunk_index 0 (unat FILES_PER_CHUNK);
            (case found of
               Some file_index \<Rightarrow> Some (SKNY_STATUS_OK, Some file_index, st'')
             | None \<Rightarrow> search_files_loop ide st'' (chunk_index + 1) n)
          })"

definition searchFileMap :: "'d ide \<Rightarrow> 'd skny \<Rightarrow> (SknyStatus \<times> u32 option \<times> 'd skny) option" where
  "searchFileMap ide st = search_files_loop ide st 0 CHUNKS_IN_FILE_MAP"

definition put_file :: "buffer \<Rightarrow> nat \<Rightarrow> buffer \<Rightarrow> buffer" where
  "put_file files i file = (\<lambda>k. if 256 * i \<le> k \<and> k < 256 * i + 256 then file (k - 256 * i) else files k)"

definition writeFileMetadata :: "'d ide \<Rightarrow> 'd skny \<Rightarrow> u32 \<Rightarrow> addr \<Rightarrow> SknyStatus \<times> 'd skny" where
  "writeFileMetadata ide st file_index file_metadata =
     (let chunk_offset = file_index div FILES_PER_CHUNK;
          location = FILE_MAP_BEGIN + chunk_offset * CHUNK_SIZE
      in case read_chunk ide st location of
           (None, st') \<Rightarrow> (SKNY_READ_FAILURE, st')
         | (Some files, st') \<Rightarrow>
             (let (ok, st'') = write_chunk ide st' location
                    (put_file files (unat (file_index mod FILES_PER_CHUNK)) (\<lambda>k. skny_mem st' (file_metadata + of_nat k)))
              in (if ok then SKNY_STATUS_OK else SKNY_WRITE_FAILURE, st'')))"

section \<open>The operations\<close>

text \<open>The statuses of the two writes are not looked at.\<close>

definition sknyCreateFile :: "'d ide \<Rightarrow> addr \<Rightarrow> 'd skny \<Rightarrow> addr \<Rightarrow> (SknyStatus \<times> 'd skny) option" where
  "sknyCreateFile ide frame st name =
     (let (status, available_chunk, st1) = searchAllocationMap ide st
      in case available_chunk of
           None \<Rightarrow> Some (status, st1)
         | Some chunk \<Rightarrow>
             do {
               st2 \<leftarrow> skny_print st1 ''ALLOCATING FILE TO CHUNK %u\<newline>'' [Va_int chunk];
               (status, file_index, st3) \<leftarrow> searchFileMap ide st2;
               (case file_index of
                  None \<Rightarrow> Some (status, st3)
                | Some index \<Rightarrow>
                    do {
                      st4 \<leftarrow> skny_print st3 ''REPRESENTING FILE WITH BIN %u\<newline>'' [Va_int index];
                      let st5 = snd (markChunkAsUsed ide st4 chunk);
                      (m, written) \<leftarrow> kstrncpy (kmemset (skny_mem st5) frame 0 252) frame name 252;
                      let st6 = st5\<lparr>skny_mem := wr32 m (frame + 252) chunk\<rparr>;
                      Some (SKNY_STATUS_OK, snd (writeFileMetadata ide st6 index frame))
                    })
             })"

text \<open>The local copy \<open>FileMetadata file = files[file_index]\<close>, at \<open>frame\<close>.\<close>

definition store_file :: "mem \<Rightarrow> addr \<Rightarrow> buffer \<Rightarrow> mem" where
  "store_file m frame file = (\<lambda>a. if unat (a - frame) < 256 then file (unat (a - frame)) else m a)"

fun scan_names :: "addr \<Rightarrow> 'd skny \<Rightarrow> addr \<Rightarrow> buffer \<Rightarrow> nat \<Rightarrow> nat \<Rightarrow> nat \<Rightarrow> (u32 option \<times> 'd skny) option" where
  "scan_names frame st name files chunk_index file_index 0 = Some (None, st)"
| "scan_names frame st name files chunk_index file_index (Suc n) =
     do {
       let m = store_file (skny_mem st) frame (file_at files file_index);
       order \<leftarrow> kstrcmp m name frame;
       let st1 = st\<lparr>skny_mem := m\<rparr>;
       (if order = 0 then Some (Some (file_number chunk_index file_index), st1)
        else scan_names frame st1 name files chunk_index (file_index + 1) n)
     }"

fun search_names_loop :: "'d ide \<Rightarrow> addr \<Rightarrow> 'd skny \<Rightarrow> addr \<Rightarrow> nat \<Rightarrow> nat \<Rightarrow> (SknyStatus \<times> u32 option \<times> 'd skny) option" where
  "search_names_loop ide frame st name chunk_index 0 = Some (SKNY_FILESYSTEM_FULL, None, st)"
| "search_names_loop ide frame st name chunk_index (Suc n) =
     (case read_chunk ide st (chunk_location chunk_index) of
        (None, st') \<Rightarrow> Some (SKNY_READ_FAILURE, None, st')
      | (Some files, st') \<Rightarrow>
          do {
            (found, st'') \<leftarrow> scan_names frame st' name files chunk_index 0 (unat FILES_PER_CHUNK);
            (case found of
               Some file_index \<Rightarrow> Some (SKNY_STATUS_OK, Some file_index, st'')
             | None \<Rightarrow> search_names_loop ide frame st'' name (chunk_index + 1) n)
          })"

definition searchForFile :: "'d ide \<Rightarrow> addr \<Rightarrow> 'd skny \<Rightarrow> addr \<Rightarrow> (SknyStatus \<times> u32 option \<times> 'd skny) option" where
  "searchForFile ide frame st name = search_names_loop ide frame st name 0 CHUNKS_IN_FILE_MAP"

text \<open>
  \<open>sknyWriteFile\<close> falls off its end where the file is found: its status is then unspecified,
  \<open>None\<close>.
\<close>

definition sknyWriteFile :: "'d ide \<Rightarrow> addr \<Rightarrow> 'd skny \<Rightarrow> addr \<Rightarrow> (SknyStatus option \<times> 'd skny) option" where
  "sknyWriteFile ide frame st name =
     map_option (\<lambda>(status, file_index, st'). (if status \<noteq> SKNY_STATUS_OK then Some status else None, st'))
       (searchForFile ide frame st name)"

text \<open>\<open>clearChunk\<close> returns the literal 0 for success.\<close>

fun clear_loop :: "'d ide \<Rightarrow> 'd skny \<Rightarrow> u32 \<Rightarrow> u8 \<Rightarrow> nat \<Rightarrow> nat \<Rightarrow> int \<times> 'd skny" where
  "clear_loop ide st chunk byte i 0 = (0, st)"
| "clear_loop ide st chunk byte i (Suc n) =
     (let (err, d) = ideWriteSectors ide (handle_drive st) 1 (chunk * CHUNK_SIZE + of_nat i * IDE_SECTOR_SIZE)
            (\<lambda>_. byte) (disk st);
          st' = st\<lparr>disk := d\<rparr>
      in if err \<noteq> NoError ide then (err, st') else clear_loop ide st' chunk byte (i + 1) n)"

definition clearChunk :: "'d ide \<Rightarrow> 'd skny \<Rightarrow> u32 \<Rightarrow> u8 \<Rightarrow> int \<times> 'd skny" where
  "clearChunk ide st chunk byte = clear_loop ide st chunk byte 0 (unat SECTORS_PER_CHUNK)"

fun clear_chunks :: "'d ide \<Rightarrow> 'd skny \<Rightarrow> u32 \<Rightarrow> nat \<Rightarrow> nat \<Rightarrow> bool \<times> 'd skny" where
  "clear_chunks ide st first i 0 = (True, st)"
| "clear_chunks ide st first i (Suc n) =
     (let (err, st') = clearChunk ide st (first + of_nat i) 0
      in if err \<noteq> NoError ide then (False, skny_error ide st' err) else clear_chunks ide st' first (i + 1) n)"

text \<open>The lines printed before the formatting starts.\<close>

definition format_lines :: "(string \<times> va_arg list) list" where
  "format_lines =
     [(''=== INITIALIZING Skny FILESYSTEM... ===\<newline>'', []),
      (''Chunk size: %u bytes\<newline>'', [Va_int CHUNK_SIZE]),
      (''Allocation map: %u chunks\<newline>'', [Va_int (of_nat CHUNKS_IN_ALLOCATION_MAP)]),
      (''File map: %u chunks\<newline>'', [Va_int (of_nat CHUNKS_IN_FILE_MAP)]),
      (''File metadata size: %u bytes\<newline>'', [Va_int sizeof_FileMetadata]),
      (''Total allocatable chunks: %u chunks\<newline>'', [Va_int TOTAL_ALLOCATABLE_CHUNKS]),
      (''Maximum file count: %u files\<newline>'', [Va_int MAXIMUM_FILE_COUNT]),
      (''(!!!) FORMATTING TO Skny...\<newline>'', []),
      (''(!!!)   Formatting allocation map...\<newline>'', [])]"

fun skny_print_all :: "'d skny \<Rightarrow> (string \<times> va_arg list) list \<Rightarrow> 'd skny option" where
  "skny_print_all st [] = Some st"
| "skny_print_all st (line # lines) =
     do { st' \<leftarrow> skny_print st (fst line) (snd line); skny_print_all st' lines }"

definition sknyCreateFilesystem :: "'d ide \<Rightarrow> 'd skny \<Rightarrow> u8 \<Rightarrow> (SknyStatus \<times> 'd skny) option" where
  "sknyCreateFilesystem ide st drive =
     do {
       st1 \<leftarrow> skny_print_all (st\<lparr>handle_drive := drive\<rparr>) format_lines;
       let (ok, st2) = clear_chunks ide st1 0 0 CHUNKS_IN_ALLOCATION_MAP;
       (if \<not> ok then Some (SKNY_WRITE_FAILURE, st2)
        else do {
          st3 \<leftarrow> skny_print st2 ''(!!!)   Formatting file map...\<newline>'' [];
          let (ok, st4) = clear_chunks ide st3 (of_nat CHUNKS_IN_ALLOCATION_MAP) 0 CHUNKS_IN_FILE_MAP;
          (if \<not> ok then Some (SKNY_WRITE_FAILURE, st4)
           else map_option (\<lambda>st5. (SKNY_STATUS_OK, st5))
             (skny_print_all st4 [(''(!!!) DONE FORMATTING\<newline>'', []), (''=======================================\<newline>'', [])]))
        })
     }"

end
