(* ===== verification/Sknyfs_Disk.thy ===== *)
theory Sknyfs_Disk
  imports Sknyfs Bitmap
begin

text \<open>
  The disk the file system needs, searches of ranges of indices in blocks, and the allocation
  map: the search for an unused chunk and the marking of one, in terms of the bytes of the disk.
  The map provides the contract of locale \<open>bitmap\<close>.
\<close>

section \<open>A disk that works\<close>

text \<open>
  The bytes of the drive, addressed as the calls address them: a read returns them and changes
  none, a write replaces those of its sectors, and success is the value 0 that \<open>clearChunk\<close>
  returns.
\<close>

definition overlay :: "(addr \<Rightarrow> u8) \<Rightarrow> addr \<Rightarrow> nat \<Rightarrow> buffer \<Rightarrow> addr \<Rightarrow> u8" where
  "overlay s loc n buf = (\<lambda>a. if unat (a - loc) < n then buf (unat (a - loc)) else s a)"

definition sound_disk :: "'d ide \<Rightarrow> u8 \<Rightarrow> ('d \<Rightarrow> addr \<Rightarrow> u8) \<Rightarrow> bool" where
  "sound_disk ide drive bytes \<longleftrightarrow> NoError ide = 0
     \<and> (\<forall>n loc d. \<exists>buf d'. ideReadSectors ide drive n loc d = (NoError ide, buf, d') \<and> bytes d' = bytes d
          \<and> (\<forall>i < 512 * unat n. buf i = bytes d (loc + of_nat i)))
     \<and> (\<forall>n loc buf d. \<exists>d'. ideWriteSectors ide drive n loc buf d = (NoError ide, d')
          \<and> bytes d' = overlay (bytes d) loc (512 * unat n) buf)"

lemma sector_sizes:
  "unat SECTORS_PER_CHUNK = 2" "unat CHUNK_SIZE = 1024" "FILES_PER_CHUNK = 4" "FILE_MAP_BEGIN = 16384"
  by (simp_all add: SECTORS_PER_CHUNK_def CHUNK_SIZE_def IDE_SECTOR_SIZE_def FILES_PER_CHUNK_def
      sizeof_FileMetadata_def FILE_MAP_BEGIN_def CHUNKS_IN_ALLOCATION_MAP_def)

lemma read_chunk_sound:
  assumes "sound_disk ide (handle_drive st) bytes"
  shows "\<exists>buf d. read_chunk ide st loc = (Some buf, st\<lparr>disk := d\<rparr>) \<and> bytes d = bytes (disk st)
    \<and> (\<forall>i < 1024. buf i = bytes (disk st) (loc + of_nat i))"
proof -
  obtain buf d where "ideReadSectors ide (handle_drive st) SECTORS_PER_CHUNK loc (disk st) = (NoError ide, buf, d)"
    "bytes d = bytes (disk st)" "\<forall>i < 512 * unat SECTORS_PER_CHUNK. buf i = bytes (disk st) (loc + of_nat i)"
    using assms unfolding sound_disk_def by blast
  then show ?thesis by (auto simp: read_chunk_def sector_sizes)
qed

lemma write_chunk_sound:
  assumes "sound_disk ide (handle_drive st) bytes"
  shows "\<exists>d. write_chunk ide st loc buf = (True, st\<lparr>disk := d\<rparr>)
    \<and> bytes d = overlay (bytes (disk st)) loc 1024 buf"
proof -
  obtain d where "ideWriteSectors ide (handle_drive st) SECTORS_PER_CHUNK loc buf (disk st) = (NoError ide, d)"
    "bytes d = overlay (bytes (disk st)) loc (512 * unat SECTORS_PER_CHUNK) buf"
    using assms unfolding sound_disk_def by blast
  then show ?thesis by (auto simp: write_chunk_def sector_sizes)
qed

section \<open>Searching ranges of indices in blocks\<close>

lemma find_upt_split:
  "a \<le> b \<Longrightarrow> b \<le> c \<Longrightarrow> find P [a..<c] = (case find P [a..<b] of None \<Rightarrow> find P [b..<c] | Some x \<Rightarrow> Some x)"
  by (metis find_append le_add_diff_inverse upt_add_eq_append)

lemma find_map_index: "find P (map f xs) = map_option f (find (P \<circ> f) xs)"
  by (induction xs) auto

lemma find_upt_shift: "find P [a..<a + n] = map_option ((+) a) (find (\<lambda>i. P (a + i)) [0..<n])"
proof -
  have "[a..<a + n] = map ((+) a) [0..<n]"
    using map_add_upt [of a n] by (simp only: add.commute [of _ a])
  then show ?thesis by (simp add: find_map_index comp_def)
qed

lemma find_Some_upt: "find P [a..<b] = Some i \<Longrightarrow> a \<le> i \<and> i < b \<and> P i"
  by (auto simp: find_Some_iff)

lemma find_upt_cong: "(\<And>i. a \<le> i \<Longrightarrow> i < b \<Longrightarrow> P i = Q i) \<Longrightarrow> find P [a..<b] = find Q [a..<b]"
  by (rule find_cong) simp_all

section \<open>The allocation map\<close>

text \<open>Chunk \<open>c\<close> has bit \<open>c mod 8\<close> of byte \<open>c div 8\<close> of the disk.\<close>

definition chunk_used :: "(addr \<Rightarrow> u8) \<Rightarrow> nat \<Rightarrow> bool" where
  "chunk_used s c \<longleftrightarrow> bit (s (of_nat (c div 8))) (c mod 8)"

definition mark_chunk :: "(addr \<Rightarrow> u8) \<Rightarrow> nat \<Rightarrow> addr \<Rightarrow> u8" where
  "mark_chunk s c = s(of_nat (c div 8) := s (of_nat (c div 8)) OR lsh1 (c mod 8))"

definition chunk_valid :: "(addr \<Rightarrow> u8) \<Rightarrow> nat \<Rightarrow> bool" where
  "chunk_valid s c \<longleftrightarrow> c < 131072"

lemma of_nat_addr_eq_iff:
  "a < 4294967296 \<Longrightarrow> b < 4294967296 \<Longrightarrow> (of_nat a :: addr) = of_nat b \<longleftrightarrow> a = b"
  by (metis unat_of_nat_32)

lemma chunk_used_mark:
  "i < 131072 \<Longrightarrow> j < 131072 \<Longrightarrow> chunk_used (mark_chunk s i) j \<longleftrightarrow> i = j \<or> chunk_used s j"
proof -
  assume ij: "i < 131072" "j < 131072"
  have "(of_nat (j div 8) :: addr) = of_nat (i div 8) \<longleftrightarrow> j div 8 = i div 8"
    using ij by (intro of_nat_addr_eq_iff) (auto simp: less_mult_imp_div_less intro: order_le_less_trans [OF div_le_dividend])
  moreover have "i = j \<longleftrightarrow> i div 8 = j div 8 \<and> i mod 8 = j mod 8"
    by (metis div_mod_decomp)
  ultimately show ?thesis
    by (auto simp: chunk_used_def mark_chunk_def bit_or_iff)
qed

interpretation chunks: bitmap chunk_valid chunk_used mark_chunk
  by unfold_locales (auto simp: chunk_valid_def chunk_used_mark)

lemma find_clear_bit: "find (\<lambda>b. (byte :: u8) AND lsh1 b = 0) [0..<8] = find (\<lambda>b. \<not> bit byte b) [0..<8]"
  by (rule find_upt_cong) (simp add: and_lsh1_0_iff)

lemma find_clear_bit_ff: "find (\<lambda>b. \<not> bit (0xff :: u8) b) [0..<8] = None"
proof -
  have m: "(0xff :: u8) = mask 8" by (simp add: mask_eq_exp_minus_1)
  show ?thesis unfolding m by (simp add: find_None_iff bit_simps)
qed

lemma scan_map_bytes_find:
  "j + n = 1024 \<Longrightarrow> scan_map_bytes buf i j n =
     map_option (\<lambda>c. i * 8192 + of_nat c) (find (\<lambda>c. \<not> bit (buf (c div 8)) (c mod 8)) [8 * j..<8192])"
proof (induction n arbitrary: j)
  case (Suc n)
  let ?P = "\<lambda>c. \<not> bit (buf (c div 8)) (c mod 8)"
  have "find ?P [8 * j..<8 * j + 8] = map_option ((+) (8 * j)) (find (\<lambda>b. ?P (8 * j + b)) [0..<8])"
    by (rule find_upt_shift)
  also have "find (\<lambda>b. ?P (8 * j + b)) [0..<8] = find (\<lambda>b. \<not> bit (buf j) b) [0..<8]"
    by (rule find_upt_cong) simp
  finally have block: "find ?P [8 * j..<8 * j + 8] = map_option ((+) (8 * j)) (find (\<lambda>b. \<not> bit (buf j) b) [0..<8])" .
  have split: "find ?P [8 * j..<8192] = (case find ?P [8 * j..<8 * j + 8] of None \<Rightarrow> find ?P [8 * (j + 1)..<8192] | Some x \<Rightarrow> Some x)"
    using find_upt_split [of "8 * j" "8 * j + 8" 8192 ?P] Suc.prems by (simp only: distrib_left mult_1_right)
  have IH: "scan_map_bytes buf i (j + 1) n = map_option (\<lambda>c. i * 8192 + of_nat c) (find ?P [8 * (j + 1)..<8192])"
    using Suc.prems by (intro Suc.IH) simp
  show ?case
  proof (cases "find (\<lambda>b. \<not> bit (buf j) b) [0..<8]")
    case None
    then show ?thesis using IH by (simp add: split block Let_def find_clear_bit)
  next
    case (Some b)
    then have "buf j \<noteq> 0xff" using find_clear_bit_ff by auto
    moreover have "find ?P [8 * j..<8192] = Some (8 * j + b)" by (simp add: split block Some)
    ultimately show ?thesis
      using Some by (simp add: Let_def find_clear_bit CHUNK_SIZE_def add.assoc mult.commute)
  qed
qed simp

lemma search_map_loop_find:
  assumes "sound_disk ide (handle_drive st) bytes" and "i + n = 16"
  shows "\<exists>d. bytes d = bytes (disk st) \<and> search_map_loop ide st i n =
    (case find (\<lambda>c. \<not> chunk_used (bytes (disk st)) c) [8192 * i..<131072] of
       None \<Rightarrow> (SKNY_FILESYSTEM_FULL, None, st\<lparr>disk := d\<rparr>)
     | Some c \<Rightarrow> (SKNY_STATUS_OK, Some (of_nat c), st\<lparr>disk := d\<rparr>))"
  using assms
proof (induction n arbitrary: i st)
  case 0
  then show ?case by (auto intro: exI [of _ "disk st"])
next
  case (Suc n)
  let ?P = "\<lambda>c. \<not> chunk_used (bytes (disk st)) c"
  let ?loc = "ALLOCATION_MAP_BEGIN + of_nat i * CHUNK_SIZE"
  obtain buf d where r: "read_chunk ide st ?loc = (Some buf, st\<lparr>disk := d\<rparr>)" and d: "bytes d = bytes (disk st)"
    and buf: "\<forall>k < 1024. buf k = bytes (disk st) (?loc + of_nat k)"
    using read_chunk_sound [OF Suc.prems(1)] by blast
  have "find ?P [8192 * i..<8192 * i + 8192] = map_option ((+) (8192 * i)) (find (\<lambda>c. ?P (8192 * i + c)) [0..<8192])"
    by (rule find_upt_shift)
  also have "find (\<lambda>c. ?P (8192 * i + c)) [0..<8192] = find (\<lambda>c. \<not> bit (buf (c div 8)) (c mod 8)) [0..<8192]"
  proof (rule find_upt_cong)
    fix c :: nat assume c: "c < 8192"
    have "(8192 * i + c) div 8 = 1024 * i + c div 8" "(8192 * i + c) mod 8 = c mod 8"
      using div_mult_self2 [of 8 c "1024 * i"] mod_mult_self2 [of c 8 "1024 * i"] by (simp_all add: add.commute)
    then show "?P (8192 * i + c) = (\<not> bit (buf (c div 8)) (c mod 8))"
      using buf c by (simp add: chunk_used_def ALLOCATION_MAP_BEGIN_def CHUNK_SIZE_def less_mult_imp_div_less algebra_simps)
  qed
  finally have block: "find ?P [8192 * i..<8192 * i + 8192]
      = map_option ((+) (8192 * i)) (find (\<lambda>c. \<not> bit (buf (c div 8)) (c mod 8)) [0..<8192])" .
  have split: "find ?P [8192 * i..<131072] = (case find ?P [8192 * i..<8192 * i + 8192] of
      None \<Rightarrow> find ?P [8192 * (i + 1)..<131072] | Some x \<Rightarrow> Some x)"
    using find_upt_split [of "8192 * i" "8192 * i + 8192" 131072 ?P] Suc.prems(2)
    by (simp only: distrib_left mult_1_right)
  have scan: "scan_map_bytes buf (of_nat i) 0 (unat CHUNK_SIZE) =
      map_option (\<lambda>c. of_nat (8192 * i + c)) (find (\<lambda>c. \<not> bit (buf (c div 8)) (c mod 8)) [0..<8192])"
    using scan_map_bytes_find [of 0 1024 buf "of_nat i"] by (simp add: sector_sizes mult.commute)
  show ?case
  proof (cases "find (\<lambda>c. \<not> bit (buf (c div 8)) (c mod 8)) [0..<8192]")
    case None
    have "\<exists>d'. bytes d' = bytes (disk (st\<lparr>disk := d\<rparr>)) \<and> search_map_loop ide (st\<lparr>disk := d\<rparr>) (i + 1) n =
      (case find (\<lambda>c. \<not> chunk_used (bytes (disk (st\<lparr>disk := d\<rparr>))) c) [8192 * (i + 1)..<131072] of
         None \<Rightarrow> (SKNY_FILESYSTEM_FULL, None, st\<lparr>disk := d, disk := d'\<rparr>)
       | Some c \<Rightarrow> (SKNY_STATUS_OK, Some (of_nat c), st\<lparr>disk := d, disk := d'\<rparr>))"
      using Suc.prems by (intro Suc.IH) simp_all
    then show ?thesis using None by (simp add: r scan split block d cong: option.case_cong)
  next
    case (Some c)
    then show ?thesis by (intro exI [of _ d]) (simp add: r scan split block d)
  qed
qed

lemma searchAllocationMap_find:
  assumes "sound_disk ide (handle_drive st) bytes"
  shows "\<exists>d. bytes d = bytes (disk st) \<and> searchAllocationMap ide st =
    (case find (\<lambda>c. \<not> chunk_used (bytes (disk st)) c) [0..<131072] of
       None \<Rightarrow> (SKNY_FILESYSTEM_FULL, None, st\<lparr>disk := d\<rparr>)
     | Some c \<Rightarrow> (SKNY_STATUS_OK, Some (of_nat c), st\<lparr>disk := d\<rparr>))"
  using search_map_loop_find [OF assms, of 0 16]
  by (simp add: searchAllocationMap_def CHUNKS_IN_ALLOCATION_MAP_def)

text \<open>A chunk read, changed at some offsets and written back, changes those bytes of the disk.\<close>

lemma written_byte:
  fixes loc :: addr
  assumes "\<forall>i < 1024. buf i = s (loc + of_nat i)" and "k < 1024"
  shows "overlay s loc 1024 (buf(k := v)) = s(loc + of_nat k := v)"
proof
  fix a :: addr
  have a: "loc + of_nat (unat (a - loc)) = a" by simp
  have k: "unat (of_nat k :: addr) = k" using assms(2) by (simp add: unat_of_nat_32)
  have "a = loc + of_nat k \<longleftrightarrow> unat (a - loc) = k"
    using k a by (metis add_diff_cancel_left')
  then show "overlay s loc 1024 (buf(k := v)) a = (s(loc + of_nat k := v)) a"
    using assms a by (auto simp: overlay_def)
qed

lemma of_nat_div_mod_32:
  assumes "c < 4294967296" and "0 < k" and "k < 4294967296"
  shows "(of_nat c :: addr) div of_nat k = of_nat (c div k)" and "(of_nat c :: addr) mod of_nat k = of_nat (c mod k)"
proof -
  have "c div k < 4294967296" "c mod k < 4294967296"
    using assms order_le_less_trans [OF div_le_dividend assms(1)] order_le_less_trans [OF mod_less_eq_dividend assms(1)] by simp_all
  then show "(of_nat c :: addr) div of_nat k = of_nat (c div k)" "(of_nat c :: addr) mod of_nat k = of_nat (c mod k)"
    using assms by (simp_all add: word_unat_eq_iff unat_div unat_mod unat_of_nat_32)
qed

lemma markChunkAsUsed_sound:
  assumes "sound_disk ide (handle_drive st) bytes" and "c < 131072"
  shows "\<exists>d. markChunkAsUsed ide st (of_nat c) = (SKNY_STATUS_OK, st\<lparr>disk := d\<rparr>)
    \<and> bytes d = mark_chunk (bytes (disk st)) c"
proof -
  define loc :: addr where "loc = of_nat (1024 * (c div 8192))"
  define k where "k = c mod 8192 div 8"
  have k: "k < 1024" by (simp add: k_def less_mult_imp_div_less)
  have place: "loc + of_nat k = of_nat (c div 8)"
  proof -
    have "c div 8 = 1024 * (c div 8192) + k"
    proof -
      have "(c mod 8192 + 8 * (1024 * (c div 8192))) div 8 = 1024 * (c div 8192) + c mod 8192 div 8"
        by (rule div_mult_self2) simp
      moreover have "c mod 8192 + 8 * (1024 * (c div 8192)) = c" using mod_mult_div_eq [of c 8192] by simp
      ultimately show ?thesis unfolding k_def by metis
    qed
    then show ?thesis by (simp add: loc_def)
  qed
  have q: "(of_nat c :: addr) div (CHUNK_SIZE * 8) * CHUNK_SIZE = loc"
    using of_nat_div_mod_32(1) [of c 8192] assms(2) by (simp add: CHUNK_SIZE_def loc_def mult.commute)
  have r: "(of_nat c :: addr) mod (CHUNK_SIZE * 8) = of_nat (c mod 8192)"
    using of_nat_div_mod_32(2) [of c 8192] assms(2) by (simp add: CHUNK_SIZE_def)
  have m: "c mod 8192 < 8192" by simp
  have byte: "unat ((of_nat c :: addr) mod (CHUNK_SIZE * 8) div 8) = k"
    using of_nat_div_mod_32(1) [of "c mod 8192" 8] m unfolding r by (simp add: k_def unat_of_nat_32 unat_div)
  have bit: "unat ((of_nat c :: addr) mod (CHUNK_SIZE * 8) mod 8) = c mod 8"
    unfolding r using m by (simp add: unat_mod unat_of_nat_32 mod_mod_cancel)
  obtain buf d where rd: "read_chunk ide st loc = (Some buf, st\<lparr>disk := d\<rparr>)" and d: "bytes d = bytes (disk st)"
    and buf: "\<forall>i < 1024. buf i = bytes (disk st) (loc + of_nat i)"
    using read_chunk_sound [OF assms(1)] by blast
  let ?v = "buf k OR lsh1 (c mod 8)"
  obtain d' where wr: "write_chunk ide (st\<lparr>disk := d\<rparr>) loc (buf(k := ?v)) = (True, st\<lparr>disk := d'\<rparr>)"
    and d': "bytes d' = overlay (bytes d) loc 1024 (buf(k := ?v))"
    using write_chunk_sound [of ide "st\<lparr>disk := d\<rparr>" bytes loc "buf(k := ?v)"] assms(1) by auto
  have "bytes d' = (bytes (disk st))(loc + of_nat k := ?v)"
    using written_byte [OF buf k] by (simp add: d' d)
  then have "bytes d' = mark_chunk (bytes (disk st)) c" using buf k by (simp add: mark_chunk_def place)
  then show ?thesis
    using rd wr by (intro exI [of _ d']) (simp add: markChunkAsUsed_def Let_def q byte bit ALLOCATION_MAP_BEGIN_def)
qed

end
