(* ===== verification/Sknyfs_Files.thy ===== *)
theory Sknyfs_Files
  imports Sknyfs_Disk
begin

text \<open>
  The file map: its search, the writing of an entry, formatting, and the lookup of a name, in
  terms of the bytes of the disk.
\<close>

section \<open>The file map\<close>

text \<open>File \<open>f\<close>: its 256 bytes, its name and the chunk it holds.\<close>

definition file_addr :: "nat \<Rightarrow> addr" where
  "file_addr f = of_nat (16384 + 256 * f)"

definition entry :: "(addr \<Rightarrow> u8) \<Rightarrow> nat \<Rightarrow> buffer" where
  "entry s f = (\<lambda>k. s (file_addr f + of_nat k))"

definition entry_name :: "(addr \<Rightarrow> u8) \<Rightarrow> nat \<Rightarrow> u8 list" where
  "entry_name s f = takeWhile (\<lambda>c. c \<noteq> 0) (map (entry s f) [0..<252])"

definition entry_location :: "(addr \<Rightarrow> u8) \<Rightarrow> nat \<Rightarrow> u32" where
  "entry_location s f = rd32 s (file_addr f + 252)"

definition names_ok :: "(addr \<Rightarrow> u8) \<Rightarrow> bool" where
  "names_ok s \<longleftrightarrow> (\<forall>f < 64. \<exists>k < 252. entry s f k = 0)"

definition file_table :: "(addr \<Rightarrow> u8) \<Rightarrow> nat \<Rightarrow> nat option" where
  "file_table s f = (if f < 64 \<and> entry s f 0 \<noteq> 0 then Some (unat (entry_location s f)) else None)"

lemma entry_at:
  assumes "\<forall>k < 1024. buf k = s (chunk_location i + of_nat k)" and "i < 16" and "j < 4" and "k < 256"
  shows "file_at buf j k = entry s (4 * i + j) k"
  using assms by (simp add: file_at_def entry_def file_addr_def chunk_location_def sector_sizes CHUNK_SIZE_def algebra_simps)

lemma file_number_eq: "file_number i j = of_nat (4 * i + j)"
  by (simp add: file_number_def sector_sizes mult.commute)

lemma skny_print_Some: "kprintf fmt args \<noteq> None \<Longrightarrow> \<exists>con. skny_print st fmt args = Some (st\<lparr>skny_console := con\<rparr>)"
  by (auto simp: skny_print_def)

lemma kprintf_file_line:
  assumes "length name < 256"
  shows "kprintf ''file %u: name (%s) location (%u)\<newline>'' [Va_int a, Va_str name, Va_int b] \<noteq> None"
proof -
  let ?fmt = "''file %u: name (%s) location (%u)\<newline>''" and ?args = "[Va_int a, Va_str name, Va_int b]"
  obtain line where "kvsprintf ?fmt ?args = Some (line, True)"
    by (auto simp: kvsprintf_def)
  then show ?thesis using kprintf_terminated [of ?fmt ?args] assms by simp
qed

lemma file_string_entry:
  assumes "k < 256" and "file k = 0"
  shows "\<exists>name. file_string file = Some name \<and> length name < 256"
proof -
  let ?bs = "map file [0..<256]"
  have "file k \<in> set ?bs" using assms(1) by simp
  then have z: "0 \<in> set ?bs" using assms(2) by simp
  then have "length (takeWhile (\<lambda>c. c \<noteq> 0) ?bs) < length ?bs"
    by (metis (mono_tags, lifting) dropWhile_eq_Nil_conv length_append length_greater_0_conv less_add_same_cancel1 takeWhile_dropWhile_id)
  with z show ?thesis by (auto simp: file_string_def Let_def)
qed

lemma scan_files_find:
  assumes "names_ok s" and "\<forall>k < 1024. buf k = s (chunk_location i + of_nat k)" and "i < 16" and "j + n = 4"
  shows "\<exists>con. scan_files st buf i j n =
    Some (map_option of_nat (find (\<lambda>f. entry s f 0 = 0) [4 * i + j..<4 * i + 4]), st\<lparr>skny_console := con\<rparr>)"
  using assms(4)
proof (induction n arbitrary: j st)
  case 0
  then show ?case by (auto intro: exI [of _ "skny_console st"])
next
  case (Suc n)
  then have j: "j < 4" by simp
  let ?f = "4 * i + j"
  note at = entry_at [OF assms(2,3) j]
  have "?f < 64" using assms(3) j by simp
  then obtain k where k: "k < 252" "entry s ?f k = 0" using assms(1) unfolding names_ok_def by blast
  then have "file_at buf j k = 0" using at [of k] by simp
  then obtain name where name: "file_string (file_at buf j) = Some name" "length name < 256"
    using file_string_entry [of k] k(1) by auto
  let ?args = "[Va_int (of_nat ?f), Va_str name, Va_int (file_location (file_at buf j))]"
  obtain con where line: "skny_print st ''file %u: name (%s) location (%u)\<newline>'' ?args = Some (st\<lparr>skny_console := con\<rparr>)"
    using skny_print_Some [OF kprintf_file_line [OF name(2)]] by blast
  have upt: "[?f..<4 * i + 4] = ?f # [4 * i + (j + 1)..<4 * i + 4]" using j by (simp add: upt_conv_Cons)
  obtain con' where rest: "scan_files (st\<lparr>skny_console := con\<rparr>) buf i (j + 1) n =
      Some (map_option of_nat (find (\<lambda>f. entry s f 0 = 0) [4 * i + (j + 1)..<4 * i + 4]), st\<lparr>skny_console := con'\<rparr>)"
    using Suc.IH [of "j + 1" "st\<lparr>skny_console := con\<rparr>"] Suc.prems by auto
  show ?case
  proof (cases "entry s ?f 0 = 0")
    case True
    then show ?thesis using at [of 0] unfolding upt
      by (intro exI [of _ con]) (simp add: name line file_number_eq del: of_nat_add of_nat_mult)
  next
    case False
    then show ?thesis using at [of 0] rest unfolding upt
      by (intro exI [of _ con']) (simp add: name line file_number_eq del: of_nat_add of_nat_mult)
  qed
qed

text \<open>Blocks of four files.\<close>

lemma find_files_split:
  assumes "i + Suc n = 16"
  shows "find P [4 * i..<64] = (case find P [4 * i..<4 * i + 4] of None \<Rightarrow> find P [4 * (i + 1)..<64] | Some x \<Rightarrow> Some x)"
  using find_upt_split [of "4 * i" "4 * i + 4" 64 P] assms by (simp only: distrib_left mult_1_right)

lemma search_files_loop_find:
  assumes "sound_disk ide (handle_drive st) bytes" and "names_ok (bytes (disk st))" and "i + n = 16"
  shows "\<exists>d con. bytes d = bytes (disk st) \<and> search_files_loop ide st i n = Some
    (case find (\<lambda>f. entry (bytes (disk st)) f 0 = 0) [4 * i..<64] of
       None \<Rightarrow> (SKNY_FILESYSTEM_FULL, None, st\<lparr>disk := d, skny_console := con\<rparr>)
     | Some f \<Rightarrow> (SKNY_STATUS_OK, Some (of_nat f), st\<lparr>disk := d, skny_console := con\<rparr>))"
  using assms
proof (induction n arbitrary: i st)
  case 0
  then show ?case by (auto intro!: exI [of _ "disk st"] exI [of _ "skny_console st"])
next
  case (Suc n)
  let ?s = "bytes (disk st)"
  let ?P = "\<lambda>f. entry ?s f 0 = 0"
  obtain buf d where r: "read_chunk ide st (chunk_location i) = (Some buf, st\<lparr>disk := d\<rparr>)" and d: "bytes d = ?s"
    and buf: "\<forall>k < 1024. buf k = ?s (chunk_location i + of_nat k)"
    using read_chunk_sound [OF Suc.prems(1)] by blast
  obtain con where scan: "scan_files (st\<lparr>disk := d\<rparr>) buf i 0 4 =
      Some (map_option of_nat (find ?P [4 * i..<4 * i + 4]), st\<lparr>disk := d, skny_console := con\<rparr>)"
    using scan_files_find [OF Suc.prems(2) buf, of 0 4 "st\<lparr>disk := d\<rparr>"] Suc.prems(3) by auto
  note split = find_files_split [OF Suc.prems(3), of ?P]
  show ?case
  proof (cases "find ?P [4 * i..<4 * i + 4]")
    case None
    let ?st = "st\<lparr>disk := d, skny_console := con\<rparr>"
    have "\<exists>d' con'. bytes d' = bytes (disk ?st) \<and> search_files_loop ide ?st (i + 1) n = Some
        (case find (\<lambda>f. entry (bytes (disk ?st)) f 0 = 0) [4 * (i + 1)..<64] of
           None \<Rightarrow> (SKNY_FILESYSTEM_FULL, None, ?st\<lparr>disk := d', skny_console := con'\<rparr>)
         | Some f \<Rightarrow> (SKNY_STATUS_OK, Some (of_nat f), ?st\<lparr>disk := d', skny_console := con'\<rparr>))"
      using Suc.prems d by (intro Suc.IH) simp_all
    then show ?thesis using None
      by (simp add: r scan split sector_sizes d cong: option.case_cong)
  next
    case (Some f)
    then show ?thesis by (intro exI [of _ d] exI [of _ con]) (simp add: r scan split sector_sizes d)
  qed
qed

lemma searchFileMap_find:
  assumes "sound_disk ide (handle_drive st) bytes" and "names_ok (bytes (disk st))"
  shows "\<exists>d con. bytes d = bytes (disk st) \<and> searchFileMap ide st = Some
    (case find (\<lambda>f. entry (bytes (disk st)) f 0 = 0) [0..<64] of
       None \<Rightarrow> (SKNY_FILESYSTEM_FULL, None, st\<lparr>disk := d, skny_console := con\<rparr>)
     | Some f \<Rightarrow> (SKNY_STATUS_OK, Some (of_nat f), st\<lparr>disk := d, skny_console := con\<rparr>))"
  using search_files_loop_find [OF assms, of 0 16]
  by (simp add: searchFileMap_def CHUNKS_IN_FILE_MAP_def)

lemma overlay_part:
  fixes loc :: addr
  assumes "\<forall>i < 1024. buf i = s (loc + of_nat i)" and "j < 4"
  shows "overlay s loc 1024 (put_file buf j e) = overlay s (loc + of_nat (256 * j)) 256 e"
proof
  fix a :: addr
  let ?slot = "256 * j"
  have slot: "?slot + 256 \<le> 1024" using assms(2) by simp
  have a: "loc + of_nat (unat (a - loc)) = a" by simp
  have u: "unat (of_nat ?slot :: addr) = ?slot" using slot by (simp add: unat_of_nat_32 del: of_nat_mult)
  have "unat (a - (loc + of_nat ?slot)) < 256 \<longleftrightarrow> ?slot \<le> unat (a - loc) \<and> unat (a - loc) < ?slot + 256"
    using span_offset [of "of_nat ?slot" 256 a loc] slot unfolding u in_span by simp
  moreover have "unat (a - (loc + of_nat ?slot)) = unat (a - loc) - ?slot" if "?slot \<le> unat (a - loc)"
    using unat_sub_nowrap [of "of_nat ?slot" "a - loc"] that unfolding u by (simp only: diff_diff_add)
  ultimately show "overlay s loc 1024 (put_file buf j e) a = overlay s (loc + of_nat ?slot) 256 e a"
    using assms(1) a slot by (auto simp: overlay_def put_file_def simp del: of_nat_mult)
qed

lemma writeFileMetadata_sound:
  assumes "sound_disk ide (handle_drive st) bytes" and "f < 64"
  shows "\<exists>d. writeFileMetadata ide st (of_nat f) p = (SKNY_STATUS_OK, st\<lparr>disk := d\<rparr>)
    \<and> bytes d = overlay (bytes (disk st)) (file_addr f) 256 (\<lambda>k. skny_mem st (p + of_nat k))"
proof -
  define loc :: addr where "loc = of_nat (16384 + 1024 * (f div 4))"
  have j: "f mod 4 < 4" by simp
  have q: "FILE_MAP_BEGIN + (of_nat f :: addr) div FILES_PER_CHUNK * CHUNK_SIZE = loc"
    using of_nat_div_mod_32(1) [of f 4] assms(2) by (simp add: CHUNK_SIZE_def sector_sizes loc_def mult.commute)
  have r: "unat ((of_nat f :: addr) mod FILES_PER_CHUNK) = f mod 4"
    using assms(2) by (simp add: sector_sizes unat_mod unat_of_nat_32)
  have "16384 + 1024 * (f div 4) + 256 * (f mod 4) = 16384 + 256 * f" using mult_div_mod_eq [of 4 f] by linarith
  then have place: "loc + of_nat (256 * (f mod 4)) = file_addr f" unfolding loc_def file_addr_def by (metis of_nat_add)
  obtain buf d where rd: "read_chunk ide st loc = (Some buf, st\<lparr>disk := d\<rparr>)" and d: "bytes d = bytes (disk st)"
    and buf: "\<forall>i < 1024. buf i = bytes (disk st) (loc + of_nat i)"
    using read_chunk_sound [OF assms(1)] by blast
  let ?e = "\<lambda>k. skny_mem st (p + of_nat k)"
  obtain d' where wr: "write_chunk ide (st\<lparr>disk := d\<rparr>) loc (put_file buf (f mod 4) ?e) = (True, st\<lparr>disk := d'\<rparr>)"
    and d': "bytes d' = overlay (bytes d) loc 1024 (put_file buf (f mod 4) ?e)"
    using write_chunk_sound [of ide "st\<lparr>disk := d\<rparr>" bytes loc "put_file buf (f mod 4) ?e"] assms(1) by auto
  have "bytes d' = overlay (bytes (disk st)) (file_addr f) 256 ?e"
    using overlay_part [OF buf j, of ?e] unfolding d' d place .
  then show ?thesis
    using rd wr by (intro exI [of _ d']) (simp add: writeFileMetadata_def Let_def q r)
qed

section \<open>Creating a file\<close>

text \<open>The bytes of the disk after a file's entry is written: the other files and the map are as before.\<close>

lemma overlay_entry:
  assumes "f < 64" and "g < 64" and "k < 256"
  shows "entry (overlay s (file_addr f) 256 e) g k = (if g = f then e k else entry s g k)"
proof -
  have g: "unat (file_addr g + of_nat k) = 16384 + 256 * g + k" and f: "unat (file_addr f) = 16384 + 256 * f"
    using assms unat_add_nowrap [of "file_addr g" "of_nat k"] unfolding file_addr_def
    by (simp_all add: unat_of_nat_32 del: of_nat_add of_nat_mult)
  have "file_addr g + of_nat k \<in> span (file_addr f) 256 \<longleftrightarrow> g = f"
    using assms g f by (auto simp: span_nowrap)
  moreover have "unat (of_nat k :: addr) = k" using assms(3) by (simp add: unat_of_nat_32)
  ultimately show ?thesis by (auto simp: entry_def overlay_def in_span)
qed

lemma overlay_map:
  assumes "f < 64" and "c < 131072"
  shows "chunk_used (overlay s (file_addr f) 256 e) c \<longleftrightarrow> chunk_used s c"
proof -
  have "c div 8 < 16384" using assms(2) by (simp add: less_mult_imp_div_less)
  then have "(of_nat (c div 8) :: addr) \<notin> span (file_addr f) 256"
    using assms(1) unfolding file_addr_def by (auto simp: span_nowrap unat_of_nat_32 simp del: of_nat_add of_nat_mult)
  then show ?thesis by (simp add: chunk_used_def overlay_def in_span)
qed

lemma mark_entry:
  assumes "c < 131072" and "f < 64" and "k < 256"
  shows "entry (mark_chunk s c) f k = entry s f k"
proof -
  have "c div 8 < 16384" using assms(1) by (simp add: less_mult_imp_div_less)
  then have "unat (of_nat (c div 8) :: addr) < 16384" by (simp add: unat_of_nat_32)
  moreover have "unat (file_addr f + of_nat k) = 16384 + 256 * f + k"
    using assms unat_add_nowrap [of "file_addr f" "of_nat k"] unfolding file_addr_def
    by (simp add: unat_of_nat_32 del: of_nat_add of_nat_mult)
  ultimately have "file_addr f + of_nat k \<noteq> of_nat (c div 8)" by auto
  then show ?thesis by (simp add: entry_def mark_chunk_def)
qed

lemma entry_location_eq:
  "entry_location s f = rd32 (\<lambda>a. entry s f (unat a)) 252"
  by (simp add: entry_location_def entry_def rd32_def add.assoc)

lemma entry_name_cong:
  assumes "\<And>k. k < 256 \<Longrightarrow> entry s f k = entry t g k"
  shows "entry_name s f = entry_name t g" and "entry_location s f = entry_location t g"
proof -
  have "map (entry s f) [0..<252] = map (entry t g) [0..<252]" using assms by simp
  then show "entry_name s f = entry_name t g" by (simp only: entry_name_def)
  show "entry_location s f = entry_location t g" using assms by (simp add: entry_location_eq rd32_def)
qed

lemma takeWhile_cstr:
  "cstr m p ys \<Longrightarrow> length ys < n \<Longrightarrow> takeWhile (\<lambda>c. c \<noteq> 0) (map (\<lambda>k. m (p + of_nat k)) [0..<n]) = ys"
proof (induction ys arbitrary: p n)
  case Nil
  then obtain n' where "n = Suc n'" by (cases n) auto
  then show ?case using Nil by (simp only: map_upt_Suc) simp
next
  case (Cons y ys)
  then obtain n' where n: "n = Suc n'" "length ys < n'" by (cases n) auto
  have "takeWhile (\<lambda>c. c \<noteq> 0) (map (\<lambda>k. m (p + 1 + of_nat k)) [0..<n']) = ys"
    using Cons.prems n by (intro Cons.IH) simp_all
  then show ?case using Cons.prems n by (simp only: map_upt_Suc n(1)) (simp add: add.assoc)
qed

lemma wr32_below:
  assumes "k < 252"
  shows "wr32 m (frame + 252) v (frame + of_nat k) = m (frame + of_nat k)"
proof -
  have "frame + of_nat k \<notin> span (frame + 252) 4"
    using assms by (simp add: span_offset unat_of_nat_32)
  from span_off_cases(1) [OF this] show ?thesis by (auto simp: wr32_def)
qed

lemma metadata_built:
  assumes "cstr m name xs" and "length xs < 4294967040"
    and "span frame (256 + length xs) \<inter> span name (Suc (length xs)) = {}"
  shows "\<exists>m1 w. kstrncpy (kmemset m frame 0 252) frame name 252 = Some (m1, w)
    \<and> takeWhile (\<lambda>c. c \<noteq> 0) (map (\<lambda>k. wr32 m1 (frame + 252) v (frame + of_nat k)) [0..<252]) = take 251 xs
    \<and> (\<exists>k < 252. wr32 m1 (frame + 252) v (frame + of_nat k) = 0)
    \<and> rd32 (wr32 m1 (frame + 252) v) (frame + 252) = v"
proof -
  let ?m0 = "kmemset m frame 0 252" and ?n = "min (length xs) 251"
  have "agree_off (span frame 252) m ?m0" by (simp add: kmemset_correct agree_off_def)
  moreover have "span frame 252 \<inter> span name (Suc (length xs)) = {}"
    using assms(3) span_mono [of 252 "256 + length xs" frame] by auto
  ultimately have src: "cstr ?m0 name xs" using assms(1,2) by (simp add: cstr_cong)
  have "span frame (Suc (length xs)) \<inter> span name (Suc (length xs)) = {}"
    using assms(3) span_mono [of "Suc (length xs)" "256 + length xs" frame] by auto
  then obtain m1 where m1: "kstrncpy ?m0 frame name 252 = Some (m1, of_nat ?n)" "cstr m1 frame (take ?n xs)"
    using kstrncpy_correct [OF src, of frame 252] assms(2) by auto
  have n: "take ?n xs = take 251 xs" by (simp add: min_def)
  let ?e = "\<lambda>k. wr32 m1 (frame + 252) v (frame + of_nat k)"
  have below: "map ?e [0..<252] = map (\<lambda>k. m1 (frame + of_nat k)) [0..<252]"
    by (simp add: wr32_below)
  have name: "takeWhile (\<lambda>c. c \<noteq> 0) (map ?e [0..<252]) = take 251 xs"
    unfolding below using takeWhile_cstr [OF m1(2), of 252] by (simp add: n)
  have "m1 (frame + of_nat (length (take ?n xs))) = 0"
    using m1(2) by (auto simp: cstr_iff_bytes_at bytes_at_nth nth_append)
  then have "?e (length (take ?n xs)) = 0" using wr32_below [of "length (take ?n xs)" m1 frame v] by simp
  moreover have "length (take ?n xs) < 252" by simp
  ultimately have "\<exists>k < 252. ?e k = 0" by blast
  then show ?thesis using m1(1) name rd32_wr32 by blast
qed

text \<open>What a file's creation makes of the disk.\<close>

definition created :: "(addr \<Rightarrow> u8) \<Rightarrow> nat \<Rightarrow> nat \<Rightarrow> u8 list \<Rightarrow> (addr \<Rightarrow> u8) \<Rightarrow> bool" where
  "created s c f xs t \<longleftrightarrow>
     (\<forall>k < 131072. chunk_used t k \<longleftrightarrow> k = c \<or> chunk_used s k)
     \<and> entry_name t f = take 251 xs \<and> entry_location t f = of_nat c
     \<and> (\<forall>g < 64. g \<noteq> f \<longrightarrow> (\<forall>k < 256. entry t g k = entry s g k))"

lemma created_overlay:
  assumes "c < 131072" and "f < 64" and "rd32 m (frame + 252) = of_nat c"
    and "takeWhile (\<lambda>c. c \<noteq> 0) (map (\<lambda>k. m (frame + of_nat k)) [0..<252]) = take 251 xs"
  shows "created s c f xs (overlay (mark_chunk s c) (file_addr f) 256 (\<lambda>k. m (frame + of_nat k)))"
proof -
  let ?t = "overlay (mark_chunk s c) (file_addr f) 256 (\<lambda>k. m (frame + of_nat k))"
  have own: "entry ?t f k = m (frame + of_nat k)" if "k < 256" for k
    using overlay_entry [OF assms(2,2) that] by simp
  have "map (entry ?t f) [0..<252] = map (\<lambda>k. m (frame + of_nat k)) [0..<252]" using own by simp
  then have "entry_name ?t f = take 251 xs" using assms(4) by (simp only: entry_name_def)
  moreover have "entry_location ?t f = of_nat c"
    using assms(3) by (simp add: entry_location_eq rd32_def own add.assoc)
  moreover have "entry ?t g k = entry s g k" if "g < 64" "g \<noteq> f" "k < 256" for g k
    using that assms(1) by (simp add: overlay_entry [OF assms(2)] mark_entry)
  ultimately show ?thesis
    using assms(1,2) by (auto simp: created_def overlay_map chunk_used_mark)
qed

lemma kprintf_number_lines:
  "kprintf ''ALLOCATING FILE TO CHUNK %u\<newline>'' [Va_int a] \<noteq> None"
  "kprintf ''REPRESENTING FILE WITH BIN %u\<newline>'' [Va_int a] \<noteq> None"
proof -
  obtain line where "kvsprintf ''ALLOCATING FILE TO CHUNK %u\<newline>'' [Va_int a] = Some (line, True)"
    by (auto simp: kvsprintf_def)
  from kprintf_terminated [OF this] show "kprintf ''ALLOCATING FILE TO CHUNK %u\<newline>'' [Va_int a] \<noteq> None" by simp
  obtain line where "kvsprintf ''REPRESENTING FILE WITH BIN %u\<newline>'' [Va_int a] = Some (line, True)"
    by (auto simp: kvsprintf_def)
  from kprintf_terminated [OF this] show "kprintf ''REPRESENTING FILE WITH BIN %u\<newline>'' [Va_int a] \<noteq> None" by simp
qed

lemma sknyCreateFile_sound:
  assumes "sound_disk ide (handle_drive st) bytes" and "names_ok (bytes (disk st))"
    and "cstr (skny_mem st) name xs" and "length xs < 4294967040"
    and "span frame (256 + length xs) \<inter> span name (Suc (length xs)) = {}"
  shows "\<exists>status st'. sknyCreateFile ide frame st name = Some (status, st') \<and>
    (case (find (\<lambda>c. \<not> chunk_used (bytes (disk st)) c) [0..<131072], find (\<lambda>f. entry (bytes (disk st)) f 0 = 0) [0..<64]) of
       (Some c, Some f) \<Rightarrow> status = SKNY_STATUS_OK \<and> created (bytes (disk st)) c f xs (bytes (disk st'))
         \<and> names_ok (bytes (disk st')) \<and> handle_drive st' = handle_drive st
     | _ \<Rightarrow> status = SKNY_FILESYSTEM_FULL \<and> bytes (disk st') = bytes (disk st) \<and> handle_drive st' = handle_drive st)"
proof -
  let ?s = "bytes (disk st)"
  obtain d1 where d1: "bytes d1 = ?s" and search: "searchAllocationMap ide st =
      (case find (\<lambda>c. \<not> chunk_used ?s c) [0..<131072] of
         None \<Rightarrow> (SKNY_FILESYSTEM_FULL, None, st\<lparr>disk := d1\<rparr>)
       | Some c \<Rightarrow> (SKNY_STATUS_OK, Some (of_nat c), st\<lparr>disk := d1\<rparr>))"
    using searchAllocationMap_find [OF assms(1)] by blast
  show ?thesis
  proof (cases "find (\<lambda>c. \<not> chunk_used ?s c) [0..<131072]")
    case None
    then show ?thesis by (simp add: sknyCreateFile_def search d1)
  next
    case c: (Some c)
    have c_less: "c < 131072" using find_Some_upt [OF c] by simp
    obtain con2 where line1: "skny_print (st\<lparr>disk := d1\<rparr>) ''ALLOCATING FILE TO CHUNK %u\<newline>'' [Va_int (of_nat c)]
        = Some (st\<lparr>disk := d1, skny_console := con2\<rparr>)"
      using skny_print_Some [OF kprintf_number_lines(1)] by blast
    let ?st2 = "st\<lparr>disk := d1, skny_console := con2\<rparr>"
    obtain d3 con3 where d3: "bytes d3 = ?s" and files: "searchFileMap ide ?st2 = Some
        (case find (\<lambda>f. entry ?s f 0 = 0) [0..<64] of
           None \<Rightarrow> (SKNY_FILESYSTEM_FULL, None, st\<lparr>disk := d3, skny_console := con3\<rparr>)
         | Some f \<Rightarrow> (SKNY_STATUS_OK, Some (of_nat f), st\<lparr>disk := d3, skny_console := con3\<rparr>))"
      using searchFileMap_find [of ide ?st2 bytes] assms(1,2) by (auto simp: d1 cong: option.case_cong)
    show ?thesis
    proof (cases "find (\<lambda>f. entry ?s f 0 = 0) [0..<64]")
      case None
      then show ?thesis by (simp add: sknyCreateFile_def search d3 c line1 files)
    next
      case f: (Some f)
      have f_less: "f < 64" using find_Some_upt [OF f] by simp
      obtain con4 where line2: "skny_print (st\<lparr>disk := d3, skny_console := con3\<rparr>) ''REPRESENTING FILE WITH BIN %u\<newline>''
          [Va_int (of_nat f)] = Some (st\<lparr>disk := d3, skny_console := con4\<rparr>)"
        using skny_print_Some [OF kprintf_number_lines(2), where st = "st\<lparr>disk := d3, skny_console := con3\<rparr>"] by auto
      let ?st4 = "st\<lparr>disk := d3, skny_console := con4\<rparr>"
      obtain d5 where mark: "markChunkAsUsed ide ?st4 (of_nat c) = (SKNY_STATUS_OK, st\<lparr>skny_console := con4, disk := d5\<rparr>)"
        and d5: "bytes d5 = mark_chunk ?s c"
        using markChunkAsUsed_sound [of ide ?st4 bytes c] assms(1) c_less by (auto simp: d3)
      obtain m1 w where m1: "kstrncpy (kmemset (skny_mem st) frame 0 252) frame name 252 = Some (m1, w)"
        and meta: "takeWhile (\<lambda>c. c \<noteq> 0) (map (\<lambda>k. wr32 m1 (frame + 252) (of_nat c) (frame + of_nat k)) [0..<252]) = take 251 xs"
          "\<exists>k < 252. wr32 m1 (frame + 252) (of_nat c) (frame + of_nat k) = 0"
          "rd32 (wr32 m1 (frame + 252) (of_nat c)) (frame + 252) = of_nat c"
        using metadata_built [OF assms(3,4,5), of "of_nat c"] by blast
      let ?m = "wr32 m1 (frame + 252) (of_nat c)"
      let ?st6 = "st\<lparr>skny_console := con4, disk := d5, skny_mem := ?m\<rparr>"
      let ?t = "overlay (mark_chunk ?s c) (file_addr f) 256 (\<lambda>k. ?m (frame + of_nat k))"
      obtain d7 where wr: "writeFileMetadata ide ?st6 (of_nat f) frame = (SKNY_STATUS_OK, ?st6\<lparr>disk := d7\<rparr>)"
        and d7: "bytes d7 = ?t"
        using writeFileMetadata_sound [of ide ?st6 bytes f frame] assms(1) f_less by (auto simp: d5)
      have "names_ok ?t" unfolding names_ok_def
      proof (intro allI impI)
        fix g :: nat assume g: "g < 64"
        obtain k where k: "k < 252" "entry ?s g k = 0" using assms(2) g unfolding names_ok_def by blast
        show "\<exists>k < 252. entry ?t g k = 0"
        proof (cases "g = f")
          case True
          then show ?thesis using meta(2) g by (auto simp: overlay_entry)
        next
          case False
          then show ?thesis using k g f_less c_less by (intro exI [of _ k]) (simp add: overlay_entry mark_entry)
        qed
      qed
      then show ?thesis
        using created_overlay [OF c_less f_less meta(3,1), of ?s] wr
        by (simp add: sknyCreateFile_def search c line1 files f line2 mark m1 d7 Let_def)
    qed
  qed
qed

section \<open>Formatting\<close>

lemma kprintf_ok:
  "\<exists>line. kvsprintf_loop [] fmt args = Some (line, True) \<Longrightarrow> length fmt + sum_list (map arg_width args) < 1024 \<Longrightarrow>
     kprintf fmt args \<noteq> None"
  using kprintf_terminated [of fmt args] by (auto simp: kvsprintf_def)

lemma skny_print_all_Some:
  "list_all (\<lambda>line. kprintf (fst line) (snd line) \<noteq> None) lines \<Longrightarrow>
     \<exists>con. skny_print_all st lines = Some (st\<lparr>skny_console := con\<rparr>)"
proof (induction lines arbitrary: st)
  case Nil
  then show ?case by (auto intro: exI [of _ "skny_console st"])
next
  case (Cons line lines)
  then have "kprintf (fst line) (snd line) \<noteq> None" by simp
  then obtain con where "skny_print st (fst line) (snd line) = Some (st\<lparr>skny_console := con\<rparr>)"
    using skny_print_Some by blast
  moreover obtain con' where "skny_print_all (st\<lparr>skny_console := con\<rparr>) lines
      = Some (st\<lparr>skny_console := con\<rparr>\<lparr>skny_console := con'\<rparr>)"
    using Cons.IH [of "st\<lparr>skny_console := con\<rparr>"] Cons.prems by auto
  ultimately show ?case by (intro exI [of _ con']) simp
qed

lemma format_lines_ok: "list_all (\<lambda>line. kprintf (fst line) (snd line) \<noteq> None) format_lines"
  unfolding format_lines_def list.pred_inject fst_conv snd_conv
  by (intro conjI TrueI kprintf_ok) simp_all

text \<open>The bytes of the disk with chunks \<open>a\<close> to \<open>b - 1\<close> cleared.\<close>

definition cleared :: "(addr \<Rightarrow> u8) \<Rightarrow> nat \<Rightarrow> nat \<Rightarrow> addr \<Rightarrow> u8" where
  "cleared s a b = (\<lambda>x. if 1024 * a \<le> unat x \<and> unat x < 1024 * b then 0 else s x)"

lemma clearChunk_sound:
  assumes "sound_disk ide (handle_drive st) bytes" and "c < 32"
  shows "\<exists>d. clearChunk ide st (of_nat c) 0 = (0, st\<lparr>disk := d\<rparr>) \<and> bytes d = cleared (bytes (disk st)) c (Suc c)"
proof -
  let ?l = "of_nat c * CHUNK_SIZE" and ?z = "\<lambda>_. 0 :: u8"
  have no: "NoError ide = 0" using assms(1) by (simp add: sound_disk_def)
  have w: "\<exists>d'. ideWriteSectors ide (handle_drive st) 1 loc ?z d = (0, d') \<and> bytes d' = overlay (bytes d) loc 512 ?z" for loc d
    using assms(1) unfolding sound_disk_def no by (metis mult.right_neutral unsigned_1)
  obtain d1 where d1: "ideWriteSectors ide (handle_drive st) 1 ?l ?z (disk st) = (0, d1)"
    "bytes d1 = overlay (bytes (disk st)) ?l 512 ?z" using w by blast
  obtain d2 where d2: "ideWriteSectors ide (handle_drive st) 1 (?l + IDE_SECTOR_SIZE) ?z d1 = (0, d2)"
    "bytes d2 = overlay (bytes d1) (?l + IDE_SECTOR_SIZE) 512 ?z" using w by blast
  have l: "unat (of_nat c * 1024 :: addr) = 1024 * c" "unat (of_nat c * 1024 + 512 :: addr) = 1024 * c + 512"
    using assms(2) unat_of_nat_32 [of "1024 * c"] unat_of_nat_32 [of "1024 * c + 512"] by (simp_all add: mult.commute)
  have "bytes d2 = cleared (bytes (disk st)) c (Suc c)"
  proof
    fix a :: addr
    have "unat (a - ?l) < 512 \<longleftrightarrow> 1024 * c \<le> unat a \<and> unat a < 1024 * c + 512"
      using span_nowrap [of "?l" 512 a] assms(2) by (simp add: in_span CHUNK_SIZE_def l)
    moreover have "unat (a - (?l + IDE_SECTOR_SIZE)) < 512 \<longleftrightarrow> 1024 * c + 512 \<le> unat a \<and> unat a < 1024 + 1024 * c"
      using span_nowrap [of "?l + IDE_SECTOR_SIZE" 512 a] assms(2) by (simp add: in_span CHUNK_SIZE_def IDE_SECTOR_SIZE_def l)
    ultimately show "bytes d2 a = cleared (bytes (disk st)) c (Suc c) a"
      by (auto simp: d1 d2 overlay_def cleared_def)
  qed
  then show ?thesis using d1(1) d2(1)
    by (intro exI [of _ d2]) (simp add: clearChunk_def sector_sizes numeral_2_eq_2 no)
qed

lemma cleared_join: "a \<le> b \<Longrightarrow> b \<le> c \<Longrightarrow> cleared (cleared s a b) b c = cleared s a c"
  by (auto simp: cleared_def fun_eq_iff)

lemma clear_chunks_sound:
  assumes "sound_disk ide (handle_drive st) bytes" and "a + i + n \<le> 32"
  shows "\<exists>d. clear_chunks ide st (of_nat a) i n = (True, st\<lparr>disk := d\<rparr>)
    \<and> bytes d = cleared (bytes (disk st)) (a + i) (a + i + n)"
  using assms
proof (induction n arbitrary: i st)
  case 0
  then show ?case by (auto intro!: exI [of _ "disk st"] simp: cleared_def fun_eq_iff)
next
  case (Suc n)
  obtain d where d: "clearChunk ide st (of_nat (a + i)) 0 = (0, st\<lparr>disk := d\<rparr>)"
    "bytes d = cleared (bytes (disk st)) (a + i) (Suc (a + i))"
    using clearChunk_sound [OF Suc.prems(1), of "a + i"] Suc.prems(2) by auto
  obtain d' where "clear_chunks ide (st\<lparr>disk := d\<rparr>) (of_nat a) (i + 1) n = (True, st\<lparr>disk := d\<rparr>\<lparr>disk := d'\<rparr>)"
    "bytes d' = cleared (bytes d) (a + (i + 1)) (a + (i + 1) + n)"
    using Suc.IH [of "st\<lparr>disk := d\<rparr>" "i + 1"] Suc.prems by auto
  moreover have "NoError ide = 0" using Suc.prems(1) by (simp add: sound_disk_def)
  ultimately show ?case using d cleared_join [of "a + i" "Suc (a + i)" "Suc (a + i + n)"]
    by (intro exI [of _ d']) simp
qed

lemma sknyCreateFilesystem_sound:
  assumes "sound_disk ide drive bytes"
  shows "\<exists>st'. sknyCreateFilesystem ide st drive = Some (SKNY_STATUS_OK, st')
    \<and> bytes (disk st') = cleared (bytes (disk st)) 0 32 \<and> handle_drive st' = drive"
proof -
  let ?st0 = "st\<lparr>handle_drive := drive\<rparr>"
  obtain con1 where p1: "skny_print_all ?st0 format_lines = Some (?st0\<lparr>skny_console := con1\<rparr>)"
    using skny_print_all_Some [OF format_lines_ok] by blast
  let ?st1 = "?st0\<lparr>skny_console := con1\<rparr>"
  obtain d2 where c2: "clear_chunks ide ?st1 0 0 16 = (True, ?st1\<lparr>disk := d2\<rparr>)" "bytes d2 = cleared (bytes (disk st)) 0 16"
    using clear_chunks_sound [of ide ?st1 bytes 0 0 16] assms by auto
  let ?st2 = "?st1\<lparr>disk := d2\<rparr>"
  have "kprintf ''(!!!)   Formatting file map...\<newline>'' [] \<noteq> None" by (rule kprintf_ok) simp_all
  then obtain con3 where p3: "skny_print ?st2 ''(!!!)   Formatting file map...\<newline>'' [] = Some (?st2\<lparr>skny_console := con3\<rparr>)"
    using skny_print_Some by blast
  let ?st3 = "?st2\<lparr>skny_console := con3\<rparr>"
  obtain d4 where c4: "clear_chunks ide ?st3 (of_nat 16) 0 16 = (True, ?st3\<lparr>disk := d4\<rparr>)" "bytes d4 = cleared (bytes d2) 16 32"
    using clear_chunks_sound [of ide ?st3 bytes 16 0 16] assms by auto
  let ?st4 = "?st3\<lparr>disk := d4\<rparr>"
  have "list_all (\<lambda>line. kprintf (fst line) (snd line) \<noteq> None)
      [(''(!!!) DONE FORMATTING\<newline>'', []), (''=======================================\<newline>'', [])]"
    unfolding list.pred_inject fst_conv snd_conv by (intro conjI TrueI kprintf_ok) simp_all
  then obtain con5 where p5: "skny_print_all ?st4 [(''(!!!) DONE FORMATTING\<newline>'', []), (''=======================================\<newline>'', [])]
      = Some (?st4\<lparr>skny_console := con5\<rparr>)"
    using skny_print_all_Some by blast
  show ?thesis
    using cleared_join [of 0 16 32 "bytes (disk st)"] c2 c4 p3 p5
    unfolding sknyCreateFilesystem_def CHUNKS_IN_ALLOCATION_MAP_def CHUNKS_IN_FILE_MAP_def p1
    by (simp del: skny_print_all.simps)
qed

section \<open>Looking a name up\<close>

lemma kstrcmp_Some:
  assumes "cstr m p xs" and "cstr m q ys"
  shows "\<exists>v. kstrcmp m p q = Some v \<and> (v = 0 \<longleftrightarrow> prefix xs ys \<or> prefix ys xs)"
proof (cases "prefix xs ys \<or> prefix ys xs")
  case True
  then show ?thesis using kstrcmp_eq_0_iff_prefix [OF assms] by blast
next
  case False
  then have "xs \<parallel> ys" by (simp add: parallel_def)
  then obtain zs x xs' y ys' where "x \<noteq> y" "xs = zs @ x # xs'" "ys = zs @ y # ys'"
    using parallel_decomp by blast
  then have "kstrcmp m p q = Some (word_of_int (char_diff x y))"
    using kstrcmp_first_difference assms by blast
  then show ?thesis using kstrcmp_eq_0_iff_prefix [OF assms] False by auto
qed

lemma cstr_takeWhile:
  "\<exists>k < n. m (p + of_nat k) = 0 \<Longrightarrow> cstr m p (takeWhile (\<lambda>c. c \<noteq> 0) (map (\<lambda>k. m (p + of_nat k)) [0..<n]))"
proof (induction n arbitrary: p)
  case (Suc n)
  show ?case
  proof (cases "m p = 0")
    case False
    obtain k where k: "k < Suc n" "m (p + of_nat k) = 0" using Suc.prems by blast
    with False obtain k' where "k = Suc k'" by (cases k) auto
    with k have "k' < n" "m (p + 1 + of_nat k') = 0" by (simp_all add: add.assoc)
    then have "cstr m (p + 1) (takeWhile (\<lambda>c. c \<noteq> 0) (map (\<lambda>k. m (p + 1 + of_nat k)) [0..<n]))"
      by (intro Suc.IH) blast
    then show ?thesis using False by (simp only: map_upt_Suc) (simp add: add.assoc)
  qed (simp only: map_upt_Suc, simp)
qed simp

text \<open>Names that \<open>kstrcmp\<close> does not tell apart.\<close>

definition same_name :: "u8 list \<Rightarrow> u8 list \<Rightarrow> bool" where
  "same_name xs ys \<longleftrightarrow> prefix xs ys \<or> prefix ys xs"

lemma scan_names_find:
  assumes "names_ok s" and "\<forall>k < 1024. buf k = s (chunk_location i + of_nat k)" and "i < 16" and "j + n = 4"
    and "cstr (skny_mem st) name xs" and "length xs < 4294967040"
    and "span frame 256 \<inter> span name (Suc (length xs)) = {}"
  shows "\<exists>m. agree_off (span frame 256) (skny_mem st) m \<and> scan_names frame st name buf i j n =
    Some (map_option of_nat (find (\<lambda>f. same_name xs (entry_name s f)) [4 * i + j..<4 * i + 4]), st\<lparr>skny_mem := m\<rparr>)"
  using assms(4,5)
proof (induction n arbitrary: j st)
  case 0
  then show ?case by (auto intro: exI [of _ "skny_mem st"])
next
  case (Suc n)
  then have j: "j < 4" by simp
  let ?f = "4 * i + j"
  let ?m = "store_file (skny_mem st) frame (file_at buf j)"
  have f: "?f < 64" using assms(3) j by simp
  have agree: "agree_off (span frame 256) (skny_mem st) ?m"
    by (simp add: agree_off_def store_file_def in_span)
  have at: "?m (frame + of_nat k) = entry s ?f k" if "k < 256" for k
    using entry_at [OF assms(2,3) j that] that by (simp add: store_file_def unat_of_nat_32)
  have "map (\<lambda>k. ?m (frame + of_nat k)) [0..<252] = map (entry s ?f) [0..<252]" using at by simp
  moreover have "\<exists>k < 252. ?m (frame + of_nat k) = 0"
  proof -
    obtain k where "k < 252" "entry s ?f k = 0" using assms(1) f unfolding names_ok_def by blast
    then show ?thesis using at [of k] by (intro exI [of _ k]) simp
  qed
  ultimately have own: "cstr ?m frame (entry_name s ?f)"
    using cstr_takeWhile [of 252 ?m frame] unfolding entry_name_def by (simp only:)
  have name: "cstr ?m name xs" using cstr_cong [OF agree assms(7)] Suc.prems(2) assms(6) by simp
  obtain v where v: "kstrcmp ?m name frame = Some v" "v = 0 \<longleftrightarrow> same_name xs (entry_name s ?f)"
    using kstrcmp_Some [OF name own] by (auto simp: same_name_def)
  have upt: "[?f..<4 * i + 4] = ?f # [4 * i + (j + 1)..<4 * i + 4]" using j by (simp add: upt_conv_Cons)
  obtain m where m: "agree_off (span frame 256) ?m m"
    and rest: "scan_names frame (st\<lparr>skny_mem := ?m\<rparr>) name buf i (j + 1) n =
      Some (map_option of_nat (find (\<lambda>f. same_name xs (entry_name s f)) [4 * i + (j + 1)..<4 * i + 4]),
        st\<lparr>skny_mem := ?m\<rparr>\<lparr>skny_mem := m\<rparr>)"
    using Suc.IH [of "j + 1" "st\<lparr>skny_mem := ?m\<rparr>"] Suc.prems(1) name by auto
  show ?case
  proof (cases "v = 0")
    case True
    then show ?thesis using agree v unfolding upt
      by (intro exI [of _ ?m]) (simp add: Let_def file_number_eq del: of_nat_add of_nat_mult)
  next
    case False
    then show ?thesis using v rest agree_off_trans_same [OF agree m] unfolding upt
      by (intro exI [of _ m]) (simp add: Let_def del: of_nat_add of_nat_mult)
  qed
qed

lemma search_names_loop_find:
  assumes "sound_disk ide (handle_drive st) bytes" and "names_ok (bytes (disk st))" and "i + n = 16"
    and "cstr (skny_mem st) name xs" and "length xs < 4294967040"
    and "span frame 256 \<inter> span name (Suc (length xs)) = {}"
  shows "\<exists>d m. bytes d = bytes (disk st) \<and> search_names_loop ide frame st name i n = Some
    (case find (\<lambda>f. same_name xs (entry_name (bytes (disk st)) f)) [4 * i..<64] of
       None \<Rightarrow> (SKNY_FILESYSTEM_FULL, None, st\<lparr>disk := d, skny_mem := m\<rparr>)
     | Some f \<Rightarrow> (SKNY_STATUS_OK, Some (of_nat f), st\<lparr>disk := d, skny_mem := m\<rparr>))"
  using assms(1-4)
proof (induction n arbitrary: i st)
  case 0
  then show ?case by (auto intro!: exI [of _ "disk st"] exI [of _ "skny_mem st"])
next
  case (Suc n)
  let ?s = "bytes (disk st)"
  let ?P = "\<lambda>f. same_name xs (entry_name ?s f)"
  obtain buf d where r: "read_chunk ide st (chunk_location i) = (Some buf, st\<lparr>disk := d\<rparr>)" and d: "bytes d = ?s"
    and buf: "\<forall>k < 1024. buf k = ?s (chunk_location i + of_nat k)"
    using read_chunk_sound [OF Suc.prems(1)] by blast
  obtain m where m: "agree_off (span frame 256) (skny_mem st) m"
    and scan: "scan_names frame (st\<lparr>disk := d\<rparr>) name buf i 0 4 =
      Some (map_option of_nat (find ?P [4 * i..<4 * i + 4]), st\<lparr>disk := d, skny_mem := m\<rparr>)"
    using scan_names_find [OF Suc.prems(2) buf, of 0 4 "st\<lparr>disk := d\<rparr>" name xs frame] Suc.prems(3,4) assms(5,6) by auto
  note split = find_files_split [OF Suc.prems(3), of ?P]
  show ?case
  proof (cases "find ?P [4 * i..<4 * i + 4]")
    case None
    let ?st = "st\<lparr>disk := d, skny_mem := m\<rparr>"
    have "cstr m name xs" using cstr_cong [OF m assms(6)] Suc.prems(4) assms(5) by simp
    then have "\<exists>d' m'. bytes d' = bytes (disk ?st) \<and> search_names_loop ide frame ?st name (i + 1) n = Some
        (case find (\<lambda>f. same_name xs (entry_name (bytes (disk ?st)) f)) [4 * (i + 1)..<64] of
           None \<Rightarrow> (SKNY_FILESYSTEM_FULL, None, ?st\<lparr>disk := d', skny_mem := m'\<rparr>)
         | Some f \<Rightarrow> (SKNY_STATUS_OK, Some (of_nat f), ?st\<lparr>disk := d', skny_mem := m'\<rparr>))"
      using Suc.prems d by (intro Suc.IH) simp_all
    then show ?thesis using None
      by (simp add: r scan split sector_sizes d cong: option.case_cong)
  next
    case (Some f)
    then show ?thesis by (intro exI [of _ d] exI [of _ m]) (simp add: r scan split sector_sizes d)
  qed
qed

lemma created_others:
  assumes "created s c f xs t" and "g < 64" and "g \<noteq> f"
  shows "entry_name t g = entry_name s g \<and> entry_location t g = entry_location s g"
proof -
  have "\<And>k. k < 256 \<Longrightarrow> entry t g k = entry s g k" using assms by (simp add: created_def)
  from entry_name_cong [OF this] show ?thesis by simp
qed

end
