(* ===== verification/Sknyfs_Props.thy ===== *)
theory Sknyfs_Props
  imports Sknyfs_Files
begin

text \<open>
  What the file system's operations do to the bytes of a disk that works, and the invariant of
  the allocation map: every file holds a chunk of its own, marked as used.
\<close>

section \<open>Properties\<close>


text \<open>A disk in memory, empty, and the name \<open>"a"\<close> at \<open>0x1000\<close>.\<close>

definition ram_ide :: "(addr \<Rightarrow> u8) ide" where
  "ram_ide = \<lparr>ideReadSectors = (\<lambda>drive n loc d. (0, \<lambda>i. d (loc + of_nat i), d)),
     ideWriteSectors = (\<lambda>drive n loc buf d. (0, overlay d loc (512 * unat n) buf)),
     idePrintError = (\<lambda>drive err. []), NoError = 0\<rparr>"

definition skny_example :: "(addr \<Rightarrow> u8) skny" where
  "skny_example = \<lparr>handle_drive = 1, disk = (\<lambda>_. 0), skny_mem = (\<lambda>_. 0)(0x1000 := 97), skny_console = []\<rparr>"

lemma sound_ram_ide: "sound_disk ram_ide drive (\<lambda>d. d)"
  by (simp add: sound_disk_def ram_ide_def)

lemma skny_example_simps [simp]:
  "handle_drive skny_example = 1" "disk skny_example = (\<lambda>_. 0)" "skny_mem skny_example = (\<lambda>_. 0)(0x1000 := 97)"
  by (simp_all add: skny_example_def)

lemma example_frame:
  "span 0x2000 257 \<inter> span (0x1000 :: addr) (Suc (Suc 0)) = {}" "span 0x2000 256 \<inter> span (0x1000 :: addr) (Suc (Suc 0)) = {}"
  using spans_apart [of "0x1000" "Suc (Suc 0)" "0x2000" 257] spans_apart [of "0x1000" "Suc (Suc 0)" "0x2000" 256]
  by (simp_all add: Int_commute)

lemma find_upt_first: "P 0 \<Longrightarrow> 0 < n \<Longrightarrow> find P [0..<n] = Some 0"
  by (simp add: upt_conv_Cons)

lemma empty_disk:
  "\<not> chunk_used (\<lambda>_. 0) c" "entry (\<lambda>_. 0) f k = 0" "names_ok (\<lambda>_. 0)"
  "find (\<lambda>c. \<not> chunk_used (\<lambda>_. 0) c) [0..<131072] = Some 0"
  "find (\<lambda>f. entry (\<lambda>_. 0) f 0 = 0) [0..<64] = Some 0"
proof -
  show u: "\<not> chunk_used (\<lambda>_. 0) c" for c by (simp add: chunk_used_def)
  show e: "entry (\<lambda>_. 0) f k = 0" for f k by (simp add: entry_def)
  show "names_ok (\<lambda>_. 0)" unfolding names_ok_def e by (intro allI impI exI [of _ 0]) simp
  show "find (\<lambda>c. \<not> chunk_used (\<lambda>_. 0) c) [0..<131072] = Some 0" by (rule find_upt_first) (simp_all add: u)
  show "find (\<lambda>f. entry (\<lambda>_. 0) f 0 = 0) [0..<64] = Some 0" by (rule find_upt_first) (simp_all add: e)
qed


section \<open>The invariant of the allocation map\<close>

definition skny_inv :: "(addr \<Rightarrow> u8) \<Rightarrow> bool" where
  "skny_inv s \<longleftrightarrow> names_ok s \<and> chunks.owned s (file_table s)"

lemma entry_name_Nil: "entry_name s f = [] \<longleftrightarrow> entry s f 0 = 0"
proof -
  have "map (entry s f) [0..<252] = entry s f 0 # map (\<lambda>k. entry s f (Suc k)) [0..<251]"
    using map_upt_Suc [of "entry s f" 251] by simp
  then show ?thesis by (simp add: entry_name_def)
qed

lemma created_file_table:
  assumes "created s c f xs t" and "f < 64" and "c < 131072" and "entry s f 0 = 0"
  shows "file_table t = (if xs = [] then file_table s else (file_table s)(f \<mapsto> c))"
proof
  fix g
  have f: "entry t f 0 = 0 \<longleftrightarrow> xs = []" "entry_location t f = of_nat c"
    using assms(1) entry_name_Nil [of t f] by (auto simp: created_def)
  have g: "file_table t g = file_table s g" if "g \<noteq> f"
    using that created_others [OF assms(1), of g] entry_name_Nil [of t g] entry_name_Nil [of s g]
    by (auto simp: file_table_def)
  show "file_table t g = (if xs = [] then file_table s else (file_table s)(f \<mapsto> c)) g"
    using f g assms(2-4) by (cases "g = f") (auto simp: file_table_def unat_of_nat_32)
qed

lemma created_inv:
  assumes "skny_inv s" and "created s c f xs t" and "names_ok t" and "f < 64" and "c < 131072"
    and "entry s f 0 = 0" and "\<not> chunk_used s c"
  shows "skny_inv t"
proof -
  have "chunks.used_set t = chunks.used_set (mark_chunk s c)"
    using assms(2,5) by (auto simp: chunks.used_set_def chunk_valid_def created_def chunk_used_mark)
  then have *: "chunks.owned t F \<longleftrightarrow> chunks.owned (mark_chunk s c) F" for F :: "nat \<Rightarrow> nat option"
    by (simp add: chunks.owned_def)
  have "chunks.owned s (file_table s)" using assms(1) by (simp add: skny_inv_def)
  then have "chunks.owned (mark_chunk s c) (file_table t)"
    using chunks.owned_mark [of s "file_table s" c] chunks.owned_assign [of s "file_table s" c f] assms(5,7)
    by (simp add: created_file_table [OF assms(2,4,5,6)] chunk_valid_def)
  then show ?thesis using assms(3) * by (simp add: skny_inv_def)
qed

lemma sknyCreateFile_inv:
  assumes "sound_disk ide (handle_drive st) bytes" and "skny_inv (bytes (disk st))"
    and "cstr (skny_mem st) name xs" and "length xs < 4294967040"
    and "span frame (256 + length xs) \<inter> span name (Suc (length xs)) = {}"
  shows "\<exists>status st'. sknyCreateFile ide frame st name = Some (status, st') \<and> skny_inv (bytes (disk st'))"
proof -
  let ?s = "bytes (disk st)"
  have names: "names_ok ?s" using assms(2) by (simp add: skny_inv_def)
  obtain status st' where run: "sknyCreateFile ide frame st name = Some (status, st')"
    and res: "case (find (\<lambda>c. \<not> chunk_used ?s c) [0..<131072], find (\<lambda>f. entry ?s f 0 = 0) [0..<64]) of
       (Some c, Some f) \<Rightarrow> status = SKNY_STATUS_OK \<and> created ?s c f xs (bytes (disk st'))
         \<and> names_ok (bytes (disk st')) \<and> handle_drive st' = handle_drive st
     | _ \<Rightarrow> status = SKNY_FILESYSTEM_FULL \<and> bytes (disk st') = ?s \<and> handle_drive st' = handle_drive st"
    using sknyCreateFile_sound [OF assms(1) names assms(3-5)] by blast
  have "skny_inv (bytes (disk st'))"
  proof (cases "find (\<lambda>c. \<not> chunk_used ?s c) [0..<131072]")
    case None
    then show ?thesis using res assms(2) by simp
  next
    case c: (Some c)
    show ?thesis
    proof (cases "find (\<lambda>f. entry ?s f 0 = 0) [0..<64]")
      case None
      then show ?thesis using res c assms(2) by simp
    next
      case f: (Some f)
      then show ?thesis
        using res c created_inv [OF assms(2), of c f xs] find_Some_upt [OF c] find_Some_upt [OF f] by simp
    qed
  qed
  with run show ?thesis by blast
qed

lemma cleared_inv: "skny_inv (cleared s 0 32) \<and> file_table (cleared s 0 32) = (\<lambda>_. None)"
proof -
  have e: "entry (cleared s 0 32) f k = 0" if "f < 64" "k < 256" for f k
  proof -
    have "unat (file_addr f + of_nat k) = 16384 + 256 * f + k"
      using that unat_add_nowrap [of "file_addr f" "of_nat k"] unfolding file_addr_def
      by (simp add: unat_of_nat_32 del: of_nat_add of_nat_mult)
    then show ?thesis using that by (simp add: entry_def cleared_def)
  qed
  then have "file_table (cleared s 0 32) = (\<lambda>_. None)" by (auto simp: file_table_def)
  moreover have "names_ok (cleared s 0 32)"
    unfolding names_ok_def using e by (intro allI impI exI [of _ 0]) simp
  ultimately show ?thesis by (simp add: skny_inv_def chunks.owned_empty)
qed

text \<open>
  C33: Files never share a chunk: formatting a disk that works succeeds and leaves an empty file
  table, and from any state in which every file's chunk is its own and marked as used (and every
  name has its NUL), \<open>sknyCreateFile\<close> returns in such a state again, whether it finds room or not.
\<close>

theorem skny_chunks_exclusive:
  assumes "sound_disk ide drive bytes"
  shows "(\<exists>st'. sknyCreateFilesystem ide st drive = Some (SKNY_STATUS_OK, st') \<and> handle_drive st' = drive
      \<and> skny_inv (bytes (disk st')) \<and> file_table (bytes (disk st')) = (\<lambda>_. None))
    \<and> (handle_drive st = drive \<and> skny_inv (bytes (disk st)) \<and> cstr (skny_mem st) name xs \<and> length xs < 4294967040
        \<and> span frame (256 + length xs) \<inter> span name (Suc (length xs)) = {} \<longrightarrow>
      (\<exists>status st'. sknyCreateFile ide frame st name = Some (status, st') \<and> skny_inv (bytes (disk st'))
        \<and> (\<forall>f c. file_table (bytes (disk st')) f = Some c \<longrightarrow> chunk_used (bytes (disk st')) c
            \<and> (\<forall>g. file_table (bytes (disk st')) g = Some c \<longrightarrow> g = f))))"
proof (intro conjI impI)
  show "\<exists>st'. sknyCreateFilesystem ide st drive = Some (SKNY_STATUS_OK, st') \<and> handle_drive st' = drive
      \<and> skny_inv (bytes (disk st')) \<and> file_table (bytes (disk st')) = (\<lambda>_. None)"
    using sknyCreateFilesystem_sound [OF assms] cleared_inv by metis
next
  assume a: "handle_drive st = drive \<and> skny_inv (bytes (disk st)) \<and> cstr (skny_mem st) name xs \<and> length xs < 4294967040
        \<and> span frame (256 + length xs) \<inter> span name (Suc (length xs)) = {}"
  then obtain status st' where run: "sknyCreateFile ide frame st name = Some (status, st')" "skny_inv (bytes (disk st'))"
    using sknyCreateFile_inv [of ide st bytes name xs frame] assms by blast
  then have "chunks.owned (bytes (disk st')) (file_table (bytes (disk st')))" by (simp add: skny_inv_def)
  then show "\<exists>status st'. sknyCreateFile ide frame st name = Some (status, st') \<and> skny_inv (bytes (disk st'))
        \<and> (\<forall>f c. file_table (bytes (disk st')) f = Some c \<longrightarrow> chunk_used (bytes (disk st')) c
            \<and> (\<forall>g. file_table (bytes (disk st')) g = Some c \<longrightarrow> g = f))"
    using run chunks.owned_used chunks.owned_distinct by metis
qed

theorem skny_chunks_exclusive_witness:
  "\<exists>st1 status st2. sknyCreateFilesystem ram_ide skny_example 1 = Some (SKNY_STATUS_OK, st1)
     \<and> sknyCreateFile ram_ide 0x2000 skny_example 0x1000 = Some (status, st2)
     \<and> skny_inv (disk st1) \<and> skny_inv (disk st2)"
proof -
  have "file_table (\<lambda>_. 0) = (\<lambda>_. None)" by (auto simp: file_table_def entry_def)
  then have "skny_inv (\<lambda>_. 0)" by (simp add: skny_inv_def empty_disk chunks.owned_empty)
  then show ?thesis
    using skny_chunks_exclusive [OF sound_ram_ide, of skny_example 1 "0x1000" "[97]" "0x2000"] example_frame by auto
qed

text \<open>
  Looking a name up never changes the disk and returns the first entry whose name is a prefix
  of the one looked for or the other way round; so an empty entry matches every name, and the
  search reports success whenever the file map has a free entry. Where nothing matches the status
  is \<open>SKNY_FILESYSTEM_FULL\<close>, and \<open>sknyWriteFile\<close> returns that; where something matches it
  returns no status at all.
\<close>

theorem searchForFile_first_match:
  assumes "sound_disk ide (handle_drive st) bytes" and "names_ok (bytes (disk st))"
    and "cstr (skny_mem st) name xs" and "length xs < 4294967040"
    and "span frame 256 \<inter> span name (Suc (length xs)) = {}"
  shows "\<exists>status index st'. searchForFile ide frame st name = Some (status, index, st')
    \<and> bytes (disk st') = bytes (disk st)
    \<and> (status, index) = (case find (\<lambda>f. same_name xs (entry_name (bytes (disk st)) f)) [0..<64] of
         None \<Rightarrow> (SKNY_FILESYSTEM_FULL, None) | Some f \<Rightarrow> (SKNY_STATUS_OK, Some (of_nat f)))
    \<and> ((\<exists>f < 64. entry (bytes (disk st)) f 0 = 0) \<longrightarrow> status = SKNY_STATUS_OK)
    \<and> sknyWriteFile ide frame st name = Some (if status = SKNY_STATUS_OK then None else Some status, st')"
proof -
  let ?P = "\<lambda>f. same_name xs (entry_name (bytes (disk st)) f)"
  obtain d m where d: "bytes d = bytes (disk st)" and run: "searchForFile ide frame st name = Some
      (case find ?P [0..<64] of
         None \<Rightarrow> (SKNY_FILESYSTEM_FULL, None, st\<lparr>disk := d, skny_mem := m\<rparr>)
       | Some f \<Rightarrow> (SKNY_STATUS_OK, Some (of_nat f), st\<lparr>disk := d, skny_mem := m\<rparr>))"
    using search_names_loop_find [OF assms(1,2) _ assms(3-5), of 0 16]
    by (auto simp: searchForFile_def CHUNKS_IN_FILE_MAP_def)
  show ?thesis
  proof (cases "find ?P [0..<64]")
    case None
    then have "\<forall>f < 64. \<not> ?P f" by (simp add: find_None_iff)
    moreover have "?P f" if "entry (bytes (disk st)) f 0 = 0" for f
    proof -
      have "entry_name (bytes (disk st)) f = []" using that entry_name_Nil by blast
      then show ?thesis by (simp add: same_name_def)
    qed
    ultimately have "\<not> (\<exists>f < 64. entry (bytes (disk st)) f 0 = 0)" by blast
    then show ?thesis using run None d by (simp add: sknyWriteFile_def)
  qed (use run d in \<open>simp add: sknyWriteFile_def\<close>)
qed

theorem searchForFile_first_match_witness:
  "\<exists>st'. searchForFile ram_ide 0x2000 skny_example 0x1000 = Some (SKNY_STATUS_OK, Some 0, st')"
proof -
  have "sound_disk ram_ide (handle_drive skny_example) (\<lambda>d. d)" by (rule sound_ram_ide)
  moreover have "find (\<lambda>f. same_name [97] (entry_name (\<lambda>_. 0) f)) [0..<64] = Some 0"
    using entry_name_Nil [of "\<lambda>_. 0" 0] by (intro find_upt_first) (simp_all add: same_name_def empty_disk)
  ultimately show ?thesis
    using searchForFile_first_match [of ram_ide skny_example "\<lambda>d. d" "0x1000" "[97]" "0x2000"] example_frame
    by (auto simp: empty_disk(3-5))
qed

end
