(* ===== verification/Kernel_Run.thy ===== *)
theory Kernel_Run
  imports Kernel_Props Keyboard_Queue
begin

text \<open>
  The kernel once it has come up: interrupts, accesses to memory and system calls, in any order.
  The entry points of \<open>src/isr.s\<close>, \<open>src/timer/PIT.s\<close>, \<open>src/ata_helper.s\<close> and \<open>src/syscall_helper.s\<close>
  around the handlers, the way of the processor through a gate of the table, and runs over
  sequences of events. An interrupt on a masked line does not reach the processor and is left out
  of the state.
\<close>

section \<open>State\<close>

text \<open>The keyboard's statics next to the kernel's; the terminal and the processor are those of the kernel.\<close>

record running =
  r_kernel :: kernel
  r_keyboard :: keyboard

text \<open>How the machine stops: in a panic, in the endless loop of a fault handler after its message, or in a fault
  whose own gate faults.\<close>

datatype stop = Panicked kernel_halt | Halted string | Double_fault

type_synonym run_result = "(stop + running) option"

definition or_stop :: "run_result \<Rightarrow> (running \<Rightarrow> run_result) \<Rightarrow> run_result" where
  "or_stop r f = Option.bind r (case_sum (\<lambda>e. Some (Inl e)) f)"

definition on_kernel :: "(kernel \<Rightarrow> kernel_result) \<Rightarrow> running \<Rightarrow> run_result" where
  "on_kernel f r = map_option (map_sum Panicked (\<lambda>k. r\<lparr>r_kernel := k\<rparr>)) (f (r_kernel r))"

abbreviation r_machine :: "running \<Rightarrow> machine" where "r_machine r \<equiv> k_machine (r_kernel r)"
abbreviation r_gates :: "running \<Rightarrow> idt_entry list" where "r_gates r \<equiv> idt_entries (k_idt (r_kernel r))"
abbreviation r_memory :: "running \<Rightarrow> mem" where "r_memory r \<equiv> ram (k_heap (r_kernel r))"

text \<open>The terminal on the processor of the kernel.\<close>

definition r_terminal :: "running \<Rightarrow> tio" where
  "r_terminal r = (k_tio (r_kernel r))\<lparr>tio_cpu := r_machine r\<rparr>"

definition set_terminal :: "running \<Rightarrow> tio \<Rightarrow> running" where
  "set_terminal r t = r\<lparr>r_kernel := set_machine ((r_kernel r)\<lparr>k_tio := t\<rparr>) (tio_cpu t)\<rparr>"

section \<open>Entry points\<close>

text \<open>After the handler, which has sent the end of the interrupt to both controllers, two more commands go to the first.\<close>

definition keyboardIsr :: "u8 \<Rightarrow> running \<Rightarrow> running" where
  "keyboardIsr scan_code r =
     (let kb = kb_interrupt scan_code ((r_keyboard r)\<lparr>kb_tio := r_terminal r\<rparr>);
          kb1 = kb_set_machine kb (outb (outb (kb_machine kb) 0x20 0x20) 0x20 0xa0)
      in set_terminal (r\<lparr>r_keyboard := kb1\<rparr>) (kb_tio kb1))"

definition PITIRQHandler :: "running \<Rightarrow> running" where
  "PITIRQHandler r = r\<lparr>r_kernel := set_pit (r_kernel r) (PITIRQ (ata_pit (k_ata (r_kernel r))))\<rparr>"

text \<open>The call of a handler is commented out.\<close>

definition ideIRQISR :: "running \<Rightarrow> running" where
  "ideIRQISR r = r"

section \<open>Gates\<close>

text \<open>
  The processor on its way through gate \<open>v\<close>, for an interrupt or exception or for an \<open>int\<close> of
  ring 3: a gate that is no interrupt or trap gate, or not open to ring 3, faults with vector 13, an absent one
  with vector 11, and the error code names the gate. (No gate of the kernel is a task gate.)
\<close>

datatype entry = Enters u32 | Faults nat u32

definition gate_error :: "nat \<Rightarrow> bool \<Rightarrow> u32" where
  "gate_error v software = of_nat (8 * v + 2 + (if software then 0 else 1))"

definition enter_gate :: "idt_entry list \<Rightarrow> nat \<Rightarrow> bool \<Rightarrow> entry" where
  "enter_gate es v software =
     (let e = es ! v
      in if gate_storage e \<or> gate_type_of e \<notin> {0x6, 0x7, 0xE, 0xF} then Faults 13 (gate_error v software)
         else if software \<and> gate_dpl e < 3 then Faults 13 (gate_error v software)
         else if \<not> gate_present e then Faults 11 (gate_error v software)
         else Enters (gate_handler e))"

text \<open>The entry points, and which of them an address is.\<close>

definition all_isrs :: "isr list" where
  "all_isrs = [DivByZeroIsr, DebugIsr, BreakpointIsr, OverflowIsr, BoundRangeIsr, InvalidOpcodeIsr, DeviceNAIsr,
     DoubleFaultIsr, InvalidTSSIsr, SegNotPresIsr, StackSegIsr, GeneralProtFaultIsr, PageFaultIsr, FpeIsr,
     AlignCheckIsr, MachineCheckIsr, SimdFpeIsr, VirtIsr, PITIRQ_fn, PITIRQHandler_fn, KeyboardIsr, IdeIRQISR]"

definition isr_at :: "platform \<Rightarrow> u32 \<Rightarrow> isr option" where
  "isr_at P a = find (\<lambda>f. symbol_addr P f = a) all_isrs"

text \<open>
  What the entry point at an address does, given the scan code the keyboard controller holds, the error code and
  the fault address. An address that is no entry point, and the C function \<open>PITIRQ\<close>, which does
  not return from an interrupt, are undefined.
\<close>

definition run_isr :: "platform \<Rightarrow> u8 \<Rightarrow> u32 \<Rightarrow> addr \<Rightarrow> running \<Rightarrow> u32 \<Rightarrow> run_result" where
  "run_isr P scan_code err fault_address r a =
     (case isr_at P a of
        None \<Rightarrow> None
      | Some f \<Rightarrow>
          (if f = PITIRQHandler_fn then Some (Inr (PITIRQHandler r))
           else if f = KeyboardIsr then Some (Inr (keyboardIsr scan_code r))
           else if f = IdeIRQISR then Some (Inr (ideIRQISR r))
           else case exception_handler f err of
                  None \<Rightarrow> None
                | Some (Halts s) \<Rightarrow> Some (Inl (Halted s))
                | Some (Resumes s) \<Rightarrow> Some (Inr (r\<lparr>r_kernel := (r_kernel r)\<lparr>k_console := k_console (r_kernel r) @ s\<rparr>\<rparr>))
                | Some Handles_page_fault \<Rightarrow> on_kernel (on_paging (\<lambda>p. handle_page_fault p fault_address)) r))"

definition through_gate ::
    "platform \<Rightarrow> nat \<Rightarrow> bool \<Rightarrow> (running \<Rightarrow> u32 \<Rightarrow> run_result) \<Rightarrow> running \<Rightarrow> run_result" where
  "through_gate P v software body r =
     (case enter_gate (r_gates r) v software of
        Enters a \<Rightarrow> body r a
      | Faults w err \<Rightarrow>
          (case enter_gate (r_gates r) w False of
             Enters a \<Rightarrow> run_isr P 0 err 0 r a
           | Faults _ _ \<Rightarrow> Some (Inl Double_fault)))"

section \<open>Accesses to memory\<close>

definition page_mapped :: "running \<Rightarrow> addr \<Rightarrow> bool" where
  "page_mapped r a \<longleftrightarrow> directory_map (page_directory (k_paging (r_kernel r))) (unat a div 2 ^ 22) \<noteq> None"

definition access :: "platform \<Rightarrow> addr \<Rightarrow> running \<Rightarrow> run_result" where
  "access P a r = (if page_mapped r a then Some (Inr r) else through_gate P 14 False (run_isr P 0 0 a) r)"

section \<open>System calls\<close>

definition terminal_put :: "char \<Rightarrow> running \<Rightarrow> running option" where
  "terminal_put c r = map_option (set_terminal r) (tio_write_char (r_terminal r) c)"

text \<open>\<open>tio_write\<close> on a string in memory, whose bytes it reads one by one.\<close>

partial_function (option) print_string :: "platform \<Rightarrow> addr \<Rightarrow> running \<Rightarrow> run_result" where
  "print_string P a r =
     Option.bind (access P a r) (\<lambda>s. case s of
        Inl e \<Rightarrow> Some (Inl e)
      | Inr r1 \<Rightarrow>
          (if r_memory r1 a = 0 then Some (Inr r1)
           else Option.bind (terminal_put (char_of (unat (r_memory r1 a))) r1) (print_string P (a + 1))))"

text \<open>The entry point of vector \<open>0x80\<close>; \<open>push (%ebx)\<close> reads four bytes, which two pages may share.\<close>

definition syscall_isr_code :: "platform \<Rightarrow> u32 \<Rightarrow> u32 \<Rightarrow> running \<Rightarrow> run_result" where
  "syscall_isr_code P eax ebx r =
     (if eax \<noteq> 0 then Some (Inr r)
      else or_stop (access P ebx r) (\<lambda>r1. or_stop (access P (ebx + 3) r1) (\<lambda>r2.
        print_string P (rd32 (r_memory r2) ebx) r2)))"

section \<open>Events\<close>

text \<open>An interrupt line is raised (with the code the keyboard controller holds), memory is accessed, ring 3 executes \<open>int\<close>.\<close>

datatype event = Irq nat u8 | Access addr | Trap nat u32 u32

fun run_event :: "platform \<Rightarrow> event \<Rightarrow> running \<Rightarrow> run_result" where
  "run_event P (Irq line scan_code) r =
     (if int_flag (r_machine r) \<and> line_unmasked (io_log (r_machine r)) line
      then through_gate P (0x20 + line) False (run_isr P scan_code 0 0) r else Some (Inr r))"
| "run_event P (Access a) r = access P a r"
| "run_event P (Trap v eax ebx) r =
     through_gate P v True (\<lambda>r a. if a = syscall_isr P then syscall_isr_code P eax ebx r else run_isr P 0 0 0 r a) r"

fun run_events :: "platform \<Rightarrow> event list \<Rightarrow> running \<Rightarrow> run_result" where
  "run_events P [] r = Some (Inr r)"
| "run_events P (e # es) r = or_stop (run_event P e r) (run_events P es)"

text \<open>The system call of user programs, and the program that ring 3 is entered with.\<close>

definition terminal_write :: "platform \<Rightarrow> addr \<Rightarrow> running \<Rightarrow> run_result" where
  "terminal_write P text r = run_event P (Trap 0x80 0 text) r"

definition user_program :: "platform \<Rightarrow> addr \<Rightarrow> event list \<Rightarrow> running \<Rightarrow> run_result" where
  "user_program P test es r = or_stop (terminal_write P test r) (run_events P es)"

end
