(* ===== verification/Kernel_Run_Props.thy ===== *)
theory Kernel_Run_Props
  imports Kernel_Run Paging_Props Tio_Edit
begin

text \<open>
  What the running kernel does with interrupts, accesses to memory and system calls: the
  invariant it comes up in, each event on its own, and runs of events.
\<close>

section \<open>The invariant\<close>

text \<open>The gates after \<open>kernelMain\<close>.\<close>

definition gate_isr :: "nat \<Rightarrow> isr option" where
  "gate_isr v = (if v = 0x20 then Some PITIRQHandler_fn else map_option fst (boot_gate v))"

definition kernel_gate :: "platform \<Rightarrow> nat \<Rightarrow> idt_entry" where
  "kernel_gate P v =
     (if v = 0x80 then make_gate (syscall_isr P) 3 INTERRUPT_GATE_32
      else case gate_isr v of None \<Rightarrow> zero_entry
         | Some f \<Rightarrow> make_gate (symbol_addr P f) 0 (if v < 32 then TRAP_GATE_32 else INTERRUPT_GATE_32))"

definition running_ok :: "platform \<Rightarrow> running \<Rightarrow> bool" where
  "running_ok P r \<longleftrightarrow> (\<forall>v < 256. r_gates r ! v = kernel_gate P v) \<and> int_flag (r_machine r) \<and> boot_masks (r_machine r)
     \<and> pit_ok (ata_pit (k_ata (r_kernel r))) \<and> paging_reach (k_paging (r_kernel r)) \<and> tio_ok (k_tio (r_kernel r))
     \<and> queue_ok (r_keyboard r)"

text \<open>The linker gives every entry point its own address.\<close>

definition linked :: "platform \<Rightarrow> bool" where
  "linked P \<longleftrightarrow> inj (symbol_addr P) \<and> syscall_isr P \<notin> range (symbol_addr P)"

lemma boot_gate_type: "boot_gate v = Some (f, g) \<Longrightarrow> g = (if v < 32 then TRAP_GATE_32 else INTERRUPT_GATE_32)"
  using gate_for_mem [of exception_gates v f g] gate_for_mem [of irq_gates v f g] boot_gate_types
  by (fastforce simp: boot_gate_def split: option.splits)

lemma boot_reaches_gates:
  assumes "tables_set_up P k1" and "idt_entries i = (idt_entries (k_idt k1))[128 := make_gate (syscall_isr P) 3 INTERRUPT_GATE_32]"
    and "v < 256"
  shows "idt_entries i ! v = kernel_gate P v"
  using assms boot_gate_type [of v]
  by (auto simp: tables_set_up_def nth_list_update kernel_gate_def gate_isr_def split: option.splits)

section \<open>Gates\<close>

lemma isr_at_symbol:
  assumes "linked P"
  shows "isr_at P (symbol_addr P f) = Some f"
proof -
  have "f \<in> set all_isrs" by (cases f) (simp_all add: all_isrs_def)
  then have "find (\<lambda>g. symbol_addr P g = symbol_addr P f) all_isrs \<noteq> None" by (auto simp: find_None_iff)
  then obtain g where "isr_at P (symbol_addr P f) = Some g" "symbol_addr P g = symbol_addr P f"
    by (auto simp: isr_at_def find_Some_iff)
  with assms show ?thesis by (auto simp: linked_def dest: injD)
qed

lemma gate_types: "gate_type_of (make_gate f dl INTERRUPT_GATE_32) = 0xE" "gate_type_of (make_gate f dl TRAP_GATE_32) = 0xF"
  by (simp_all add: make_gate_decodes INTERRUPT_GATE_32_def TRAP_GATE_32_def)

lemma enter_zero: "es ! v = zero_entry \<Longrightarrow> enter_gate es v s = Faults 13 (gate_error v s)"
  by (simp add: enter_gate_def gate_type_of_def zero_entry_def)

lemma enter_made:
  assumes "es ! v = make_gate f dl g" and "g \<in> {INTERRUPT_GATE_32, TRAP_GATE_32}"
  shows "enter_gate es v s = (if s \<and> (ucast (dl AND 3) :: u8) < 3 then Faults 13 (gate_error v s) else Enters f)"
  using assms gate_types [of f dl] by (auto simp: enter_gate_def make_gate_decodes)

lemma entered:
  assumes "running_ok P r" and "v < 256"
  shows "enter_gate (r_gates r) v s =
    (if v = 0x80 then Enters (syscall_isr P) else if s then Faults 13 (gate_error v s)
     else case gate_isr v of None \<Rightarrow> Faults 13 (gate_error v s) | Some f \<Rightarrow> Enters (symbol_addr P f))"
proof -
  have e: "r_gates r ! v = kernel_gate P v" using assms by (simp add: running_ok_def)
  consider "v = 0x80" | "v \<noteq> 0x80" "gate_isr v = None" | f where "v \<noteq> 0x80" "gate_isr v = Some f" by (cases "gate_isr v") auto
  then show ?thesis
  proof cases
    case 1
    then show ?thesis using enter_made [of "r_gates r" v "syscall_isr P" 3 INTERRUPT_GATE_32 s] e by (simp add: kernel_gate_def)
  next
    case 2
    then show ?thesis using enter_zero [of "r_gates r" v s] e by (simp add: kernel_gate_def)
  next
    case 3
    then show ?thesis
      using enter_made [of "r_gates r" v "symbol_addr P f" 0 "if v < 32 then TRAP_GATE_32 else INTERRUPT_GATE_32" s] e
      by (simp add: kernel_gate_def)
  qed
qed

text \<open>The handler of a general protection fault.\<close>

lemma gp_halts: "\<exists>s. exception_handler GeneralProtFaultIsr err = Some (Halts s)"
proof -
  have "unat (drop_bit 1 (err AND 6)) < 4"
  proof -
    have "err AND 6 \<le> 6" by (simp add: word_and_le1)
    then have "unat (err AND 6) \<le> 6" by (simp add: word_le_nat_alt)
    then have "unat (err AND 6) div 2 ^ 1 < 4" by simp
    then show ?thesis by (simp add: drop_bit_eq_div unat_div_distrib)
  qed
  then have "fault_table err \<in> {''GDT'', ''IDT'', ''LDT''}" by (auto simp: fault_table_def nth_Cons' numeral_nat less_Suc_eq)
  then have len: "length (fault_table err) = 3" by auto
  have "kvsprintf ''General Protection Fault, error code: 0b%b\<newline>'' [Va_int err]
      = Some (render_binary ''General Protection Fault, error code: 0b'' err @ ''\<newline>'', True)"
    by (simp add: kvsprintf_def)
  from kprintf_terminated [OF this] obtain l1 where
    1: "kprintf ''General Protection Fault, error code: 0b%b\<newline>'' [Va_int err] = Some l1" by simp
  have "\<exists>text. kvsprintf ''Table: %s, Selector Index: %d\<newline>'' [Va_str (fault_table err), Va_int (fault_index err)] = Some (text, True)"
    by (simp add: kvsprintf_def)
  then obtain l2 where
    "kprintf ''Table: %s, Selector Index: %d\<newline>'' [Va_str (fault_table err), Va_int (fault_index err)] = Some l2"
    using kprintf_terminated [of "''Table: %s, Selector Index: %d\<newline>''" "[Va_str (fault_table err), Va_int (fault_index err)]"] len
    by auto
  with 1 show ?thesis by simp
qed

section \<open>Each event\<close>

text \<open>What the stubs change, and what they leave.\<close>

lemma set_terminal_simps [simp]:
  "r_gates (set_terminal r t) = r_gates r" "r_machine (set_terminal r t) = tio_cpu t"
  "pit_counters (ata_pit (k_ata (r_kernel (set_terminal r t)))) = pit_counters (ata_pit (k_ata (r_kernel r)))"
  "pit_initialized (ata_pit (k_ata (r_kernel (set_terminal r t)))) = pit_initialized (ata_pit (k_ata (r_kernel r)))"
  "k_paging (r_kernel (set_terminal r t)) = k_paging (r_kernel r)" "k_heap (r_kernel (set_terminal r t)) = k_heap (r_kernel r)"
  "k_tio (r_kernel (set_terminal r t)) = t" "r_keyboard (set_terminal r t) = r_keyboard r"
  by (simp_all add: set_terminal_def) (simp_all add: set_machine_def ata_io_def)

lemma tio_cpu_simps [simp]:
  "tio_ok (t\<lparr>tio_cpu := m\<rparr>) = tio_ok t" "tio_pos (t\<lparr>tio_cpu := m\<rparr>) = tio_pos t" "mirrors (t\<lparr>tio_cpu := m\<rparr>) = mirrors t"
  by (simp_all add: tio_ok_def tio_pos_def mirrors_def)

lemma r_terminal_simps [simp]:
  "tio_cpu (r_terminal r) = r_machine r" "tio_ok (r_terminal r) = tio_ok (k_tio (r_kernel r))"
  "tio_pos (r_terminal r) = tio_pos (k_tio (r_kernel r))" "pages (r_terminal r) = pages (k_tio (r_kernel r))"
  by (simp_all add: r_terminal_def)

definition keyboardIsr_machine :: "u8 \<Rightarrow> machine \<Rightarrow> machine" where
  "keyboardIsr_machine c m = outb (outb (sendEndOfInterrupt (record_event m (Inb 0x60 c))) 0x20 0x20) 0x20 0xa0"

lemma keyboardIsr_effect:
  "keyboardIsr c r = set_terminal (r\<lparr>r_keyboard := kb_set_machine (kb_interrupt c ((r_keyboard r)\<lparr>kb_tio := r_terminal r\<rparr>))
     (keyboardIsr_machine c (r_machine r))\<rparr>) ((r_terminal r)\<lparr>tio_cpu := keyboardIsr_machine c (r_machine r)\<rparr>)"
  by (simp add: keyboardIsr_def Let_def kb_set_machine_def kb_interrupt_def kb_machine_def enqueue_def keyboardIsr_machine_def)

lemma keyboardIsr_machine_ints: "int_flag (keyboardIsr_machine c m) = int_flag m" "masks (keyboardIsr_machine c m) = masks m"
  by (simp_all add: keyboardIsr_machine_def sendEndOfInterrupt_def io_simps PIC1_DATA_def PIC2_DATA_def)

lemma pending_kb_set_machine [simp]:
  "pending (kb_set_machine kb m) = pending kb" "queue_ok (kb_set_machine kb m) = queue_ok kb"
  "pending (kb\<lparr>kb_tio := t\<rparr>) = pending kb" "queue_ok (kb\<lparr>kb_tio := t\<rparr>) = queue_ok kb"
  by (simp_all add: kb_set_machine_def pending_def queue_ok_def)

lemma PITIRQHandler_simps [simp]:
  "r_gates (PITIRQHandler r) = r_gates r" "k_paging (r_kernel (PITIRQHandler r)) = k_paging (r_kernel r)"
  "k_heap (r_kernel (PITIRQHandler r)) = k_heap (r_kernel r)" "k_tio (r_kernel (PITIRQHandler r)) = k_tio (r_kernel r)"
  "r_keyboard (PITIRQHandler r) = r_keyboard r"
  "ata_pit (k_ata (r_kernel (PITIRQHandler r))) = PITIRQ (ata_pit (k_ata (r_kernel r)))"
  "int_flag (r_machine (PITIRQHandler r)) = int_flag (r_machine r)" "masks (r_machine (PITIRQHandler r)) = masks (r_machine r)"
  by (simp_all add: PITIRQHandler_def k_machine_idt PITIRQ_def Let_def pit_machine_def io_simps PIC1_DATA_def PIC2_DATA_def)
    (simp_all add: k_idt_def)

lemma running_ok_PITIRQHandler: "running_ok P r \<Longrightarrow> running_ok P (PITIRQHandler r)"
  by (simp add: running_ok_def boot_masks_def pit_ok_PITIRQ)

lemma running_ok_keyboardIsr: "running_ok P r \<Longrightarrow> running_ok P (keyboardIsr c r)"
  by (simp add: keyboardIsr_effect running_ok_def boot_masks_def keyboardIsr_machine_ints pit_ok_def kbq.enq_ok)

text \<open>Interrupt lines.\<close>

lemma gate_isr_irq: "line < 16 \<Longrightarrow> gate_isr (0x20 + line) =
   (if line = 0 then Some PITIRQHandler_fn else if line = 1 then Some KeyboardIsr else if line \<in> {14, 15} then Some IdeIRQISR else None)"
proof -
  assume "line < 16"
  then have "gate_for exception_gates (0x20 + line) = None"
    using gate_for_mem [of exception_gates "0x20 + line"] boot_gate_types(1)
    by (cases "gate_for exception_gates (0x20 + line)") fastforce+
  then show ?thesis by (auto simp: gate_isr_def boot_gate_def irq_gates_def)
qed

lemma gate_isr_faults: "gate_isr 13 = Some GeneralProtFaultIsr" "gate_isr 14 = Some PageFaultIsr"
  by (simp_all add: gate_isr_def boot_gate_def irq_gates_def exception_gates_def)

lemma faulting_gate:
  assumes "running_ok P r" and "linked P" and "enter_gate (r_gates r) v s = Faults 13 err"
  obtains msg where "through_gate P v s body r = Some (Inl (Halted msg))" and "exception_handler GeneralProtFaultIsr err = Some (Halts msg)"
proof -
  obtain msg where "exception_handler GeneralProtFaultIsr err = Some (Halts msg)" using gp_halts by blast
  then show thesis
    using assms entered [OF assms(1), of 13 False] that
    by (simp add: through_gate_def gate_isr_faults run_isr_def isr_at_symbol del: exception_handler.simps)
qed

lemma irq_event:
  assumes "running_ok P r" and "linked P" and "line < 16"
  shows "run_event P (Irq line c) r =
    (if line = 0 then Some (Inr (PITIRQHandler r)) else if line = 1 then Some (Inr (keyboardIsr c r))
     else if line \<in> {6, 7} then through_gate P (0x20 + line) False (run_isr P c 0 0) r else Some (Inr r))"
proof -
  have "int_flag (r_machine r) \<and> line_unmasked (io_log (r_machine r)) line \<longleftrightarrow> line \<in> {0, 1, 6, 7}"
    using assms boot_masks_lines [of "r_machine r" line] by (simp add: running_ok_def)
  then show ?thesis
    using entered [OF assms(1), of "0x20 + line" False] gate_isr_irq [OF assms(3)] assms(2,3)
    by (auto simp: through_gate_def run_isr_def isr_at_symbol)
qed

text \<open>Accesses: nothing for a mapped page, the page fault handler for another, which may find every frame in use.\<close>

definition no_frame :: "running \<Rightarrow> addr \<Rightarrow> bool" where
  "no_frame r a \<longleftrightarrow> \<not> page_mapped r a \<and> (\<forall>p \<in> set (candidates (k_paging (r_kernel r))).
     is_frame_used (page_frame_words (k_paging (r_kernel r))) p = Some True)"

lemma access_unmapped:
  assumes "running_ok P r" and "linked P" and "\<not> page_mapped r a"
  shows "access P a r = on_kernel (on_paging (\<lambda>p. handle_page_fault p a)) r"
  using assms entered [OF assms(1), of 14 False]
  by (simp add: access_def through_gate_def gate_isr_faults run_isr_def isr_at_symbol)

lemma access_cases:
  assumes "running_ok P r" and "linked P"
  obtains (Mapped) "page_mapped r a" and "access P a r = Some (Inr r)"
    | (Mapped_now) q where "\<not> page_mapped r a" and "access P a r = Some (Inr (r\<lparr>r_kernel := (r_kernel r)\<lparr>k_paging := q\<rparr>\<rparr>))"
        and "paging_reach q" and "page_mapped (r\<lparr>r_kernel := (r_kernel r)\<lparr>k_paging := q\<rparr>\<rparr>) a"
        and "directory_map (page_directory (k_paging (r_kernel r))) \<subseteq>\<^sub>m directory_map (page_directory q)"
    | (No_frame) "no_frame r a" and "access P a r = Some (Inl (Panicked (Memory_halt Out_of_frames)))"
proof (cases "page_mapped r a")
  case True
  then show thesis using Mapped by (simp add: access_def)
next
  case False
  let ?q = "k_paging (r_kernel r)"
  have reach: "paging_reach ?q" using assms(1) by (simp add: running_ok_def)
  have acc: "access P a r = on_kernel (on_paging (\<lambda>p. handle_page_fault p a)) r" by (rule access_unmapped [OF assms False])
  from page_fault_cases [OF reach, of a] show thesis
  proof (elim disjE exE conjE)
    fix p q assume q: "handle_page_fault ?q a = Some (Inr q)"
      "directory_map (page_directory q) = (directory_map (page_directory ?q))(unat a div 2 ^ 22 \<mapsto> p)"
    then show thesis
      using Mapped_now [of q] False acc paging_reach.Fault [OF reach q(1)]
      by (auto simp: on_kernel_def on_paging_def page_mapped_def map_le_def dom_def)
  next
    assume "handle_page_fault ?q a = Some (Inl Out_of_frames)" "\<forall>p \<in> set (candidates ?q). is_frame_used (page_frame_words ?q) p = Some True"
    then show thesis using No_frame False acc by (simp add: on_kernel_def on_paging_def no_frame_def)
  qed
qed

section \<open>Runs of events\<close>

text \<open>Events that the kernel serves, the codes the keyboard sends in them and the interrupts of the timer.\<close>

fun served :: "event \<Rightarrow> bool" where
  "served (Irq line c) \<longleftrightarrow> line < 16 \<and> line \<notin> {6, 7}"
| "served (Access a) \<longleftrightarrow> True"
| "served (Trap v eax ebx) \<longleftrightarrow> v = 0x80 \<and> eax \<noteq> 0"

fun event_codes :: "event \<Rightarrow> u8 list" where
  "event_codes (Irq line c) = (if line = 1 then [c] else [])"
| "event_codes _ = []"

fun event_ticks :: "event \<Rightarrow> nat" where
  "event_ticks (Irq line c) = (if line = 0 then 1 else 0)"
| "event_ticks _ = 0"

abbreviation codes_of :: "event list \<Rightarrow> u8 list" where "codes_of es \<equiv> concat (map event_codes es)"
abbreviation ticks_of :: "event list \<Rightarrow> nat" where "ticks_of es \<equiv> sum_list (map event_ticks es)"

abbreviation text_state :: "running \<Rightarrow> nat \<times> u16 list" where
  "text_state r \<equiv> (tio_pos (k_tio (r_kernel r)), pages (k_tio (r_kernel r)))"

text \<open>How a state follows from another by such events.\<close>

definition evolved :: "event list \<Rightarrow> running \<Rightarrow> running \<Rightarrow> bool" where
  "evolved es r r' \<longleftrightarrow>
     (length (pending (r_keyboard r)) + length (codes_of es) \<le> 255 \<longrightarrow>
        pending (r_keyboard r') = pending (r_keyboard r) @ codes_of es)
     \<and> pit_counters (ata_pit (k_ata (r_kernel r'))) = map (tick ^^ ticks_of es) (pit_counters (ata_pit (k_ata (r_kernel r))))
     \<and> tio_pos (k_tio (r_kernel r')) = tio_pos (k_tio (r_kernel r)) \<and> pages (k_tio (r_kernel r')) = pages (k_tio (r_kernel r))
     \<and> k_heap (r_kernel r') = k_heap (r_kernel r)
     \<and> directory_map (page_directory (k_paging (r_kernel r))) \<subseteq>\<^sub>m directory_map (page_directory (k_paging (r_kernel r')))
     \<and> (\<forall>a. Access a \<in> set es \<longrightarrow> page_mapped r' a)"

lemma evolved_refl: "evolved [] r r"
  by (simp add: evolved_def)

lemma page_mapped_mono:
  "directory_map (page_directory (k_paging (r_kernel r))) \<subseteq>\<^sub>m directory_map (page_directory (k_paging (r_kernel r'))) \<Longrightarrow>
   page_mapped r a \<Longrightarrow> page_mapped r' a"
  by (auto simp: page_mapped_def map_le_def dom_def)

lemma evolved_trans:
  assumes "evolved es r r1" and "evolved es' r1 r'"
  shows "evolved (es @ es') r r'"
proof -
  have "tick ^^ (m + n) = tick ^^ n \<circ> tick ^^ m" for m n by (metis add.commute funpow_add)
  then show ?thesis
    using assms page_mapped_mono [of r1 r'] by (auto simp: evolved_def intro: map_le_trans)
qed

lemma evolved_idle: "codes_of [e] = [] \<Longrightarrow> ticks_of [e] = 0 \<Longrightarrow> (\<And>a. e = Access a \<Longrightarrow> page_mapped r a) \<Longrightarrow> evolved [e] r r"
  by (simp add: evolved_def)

lemma served_event:
  assumes ok: "running_ok P r" and "linked P" and "served e"
  obtains (Goes_on) r' where "run_event P e r = Some (Inr r')" and "running_ok P r'" and "evolved [e] r r'"
    | (No_frame) a where "e = Access a" and "no_frame r a" and "run_event P e r = Some (Inl (Panicked (Memory_halt Out_of_frames)))"
proof (cases e)
  case (Irq line c)
  then have line: "line < 16" "line \<notin> {6, 7}" using assms(3) by auto
  note ev = irq_event [OF ok assms(2) line(1), of c]
  consider "line = 0" | "line = 1" | "line \<notin> {0, 1}" by blast
  then show thesis
  proof cases
    case 1
    then show ?thesis using ev running_ok_PITIRQHandler [OF ok]
      by (intro Goes_on [of "PITIRQHandler r"]) (simp_all add: Irq evolved_def)
  next
    case 2
    have "pending (kb_interrupt c ((r_keyboard r)\<lparr>kb_tio := r_terminal r\<rparr>)) = pending (r_keyboard r) @ [c]"
      if "length (pending (r_keyboard r)) < 255"
      using pending_interrupt [of "(r_keyboard r)\<lparr>kb_tio := r_terminal r\<rparr>" c] ok that by (simp add: running_ok_def)
    then have "evolved [Irq 1 c] r (keyboardIsr c r)" by (simp add: evolved_def keyboardIsr_effect)
    then show ?thesis using ev running_ok_keyboardIsr [OF ok] 2 by (intro Goes_on [of "keyboardIsr c r"]) (simp_all add: Irq)
  next
    case 3
    then show ?thesis using ev line ok by (intro Goes_on [of r] evolved_idle) (auto simp: Irq)
  qed
next
  case (Access a)
  from ok assms(2) show thesis
  proof (cases rule: access_cases [where a = a])
    case Mapped
    then show ?thesis using ok by (intro Goes_on [of r] evolved_idle) (auto simp: Access)
  next
    case (Mapped_now q)
    let ?r = "r\<lparr>r_kernel := (r_kernel r)\<lparr>k_paging := q\<rparr>\<rparr>"
    have "running_ok P ?r" using ok Mapped_now(3) by (simp add: running_ok_def)
    moreover have "evolved [e] r ?r" using Mapped_now(4,5) by (simp add: Access evolved_def)
    ultimately show ?thesis using Mapped_now(2) Access by (intro Goes_on) simp_all
  next
    case No_frame
    then show ?thesis using that(2) Access by simp
  qed
next
  case (Trap v eax ebx)
  then show thesis
    using entered [OF ok, of "0x80" True] assms(3) ok
    by (intro Goes_on [of r] evolved_idle) (simp_all add: through_gate_def syscall_isr_code_def)
qed

lemma or_stop_simps [simp]: "or_stop None f = None" "or_stop (Some (Inl e)) f = Some (Inl e)" "or_stop (Some (Inr r)) f = f r"
  by (simp_all add: or_stop_def)

lemma run_events_append: "run_events P (es @ es') r = or_stop (run_events P es r) (run_events P es')"
proof (induction es arbitrary: r)
  case (Cons e es)
  show ?case
  proof (cases "run_event P e r")
    case (Some s)
    then show ?thesis using Cons by (cases s) simp_all
  qed simp
qed simp

lemma run_served:
  "running_ok P r \<Longrightarrow> linked P \<Longrightarrow> \<forall>e \<in> set es. served e \<Longrightarrow>
   (\<exists>r'. run_events P es r = Some (Inr r') \<and> running_ok P r' \<and> evolved es r r')
   \<or> (\<exists>es1 a es2 r1. es = es1 @ Access a # es2 \<and> run_events P es1 r = Some (Inr r1) \<and> no_frame r1 a
        \<and> run_events P es r = Some (Inl (Panicked (Memory_halt Out_of_frames))))"
proof (induction es arbitrary: r)
  case Nil
  then show ?case by (simp add: evolved_refl)
next
  case (Cons e es)
  then have "served e" by simp
  with Cons.prems(1,2) show ?case
  proof (cases rule: served_event)
    case (Goes_on r1)
    have "\<forall>e \<in> set es. served e" using Cons.prems(3) by simp
    from Cons.IH [OF Goes_on(2) Cons.prems(2) this] show ?thesis
    proof (elim disjE exE conjE)
      fix r' assume "run_events P es r1 = Some (Inr r')" "running_ok P r'" "evolved es r1 r'"
      then show ?thesis using Goes_on(1) evolved_trans [OF Goes_on(3)] by auto
    next
      fix es1 a es2 r2
      assume s: "es = es1 @ Access a # es2" "run_events P es1 r1 = Some (Inr r2)" "no_frame r2 a"
        "run_events P es r1 = Some (Inl (Panicked (Memory_halt Out_of_frames)))"
      show ?thesis
        by (intro disjI2 exI [of _ "e # es1"] exI [of _ a] exI [of _ es2] exI [of _ r2]) (use s Goes_on(1) in simp)
    qed
  next
    case (No_frame a)
    show ?thesis
      by (intro disjI2 exI [of _ "[]"] exI [of _ a] exI [of _ es] exI [of _ r]) (use No_frame in simp)
  qed
qed

section \<open>Properties\<close>

lemma LENGTH_32: "LENGTH(32) = 32" by simp

lemma gate_error_names:
  assumes "v < 256"
  shows "fault_table (gate_error v s) = ''IDT''" and "fault_index (gate_error v s) = of_nat v"
proof -
  define k where "k = (if s then 2 else 3 :: nat)"
  have k: "gate_error v s = of_nat (8 * v + k)" "k \<in> {2, 3}" by (simp_all add: gate_error_def k_def)
  have "8 * v + k < 2 ^ 32" using assms k(2) by auto
  then have u: "unat (gate_error v s) = 8 * v + k"
    unfolding k(1) unsigned_of_nat by (simp only: take_bit_nat_eq_self LENGTH_32 of_nat_id)
  have "drop_bit 1 (gate_error v s AND 6) = take_bit 2 (drop_bit 1 (gate_error v s))"
    by (rule bit_word_eqI) (auto simp: bit_simps bit_numeral_rec less_Suc_eq numeral_2_eq_2 elim: less_SucE)
  moreover have "unat (take_bit 2 (drop_bit 1 (gate_error v s))) = (8 * v + k) div 2 mod 4"
    by (simp only: unsigned_take_bit_eq unat_drop_bit_eq u) (simp add: take_bit_eq_mod drop_bit_eq_div)
  moreover have "(8 * v + k) div 2 mod 4 = 1" using k(2) by auto presburger
  ultimately show "fault_table (gate_error v s) = ''IDT''" unfolding fault_table_def by simp
  have m: "(7 :: u32) = mask 3" by (simp add: mask_eq_exp_minus_1)
  have "drop_bit 3 (gate_error v s AND NOT 7) = drop_bit 3 (gate_error v s)"
    unfolding m by (rule bit_word_eqI) (auto simp: bit_simps dest: bit_imp_le_length)
  then have "unat (fault_index (gate_error v s)) = (8 * v + k) div 8"
    by (simp only: fault_index_def unat_drop_bit_eq u) (simp add: drop_bit_eq_div)
  then have "unat (fault_index (gate_error v s)) = v" using k(2) by auto
  moreover have "of_nat (unat (fault_index (gate_error v s))) = fault_index (gate_error v s)" by simp
  ultimately show "fault_index (gate_error v s) = of_nat v" by (simp only:)
qed



text \<open>A platform whose entry points have addresses of their own, and the kernel come up on it.\<close>

definition linked_platform :: platform where
  "linked_platform = qemu_platform\<lparr>symbol_addr := (\<lambda>f. 0x101000 + of_nat (length (takeWhile (\<lambda>g. g \<noteq> f) all_isrs)))\<rparr>"

lemma linked_platform_ok: "platform_ok linked_platform"
  using qemu_platform_ok by (simp add: platform_ok_def linked_platform_def)

lemma linked_platform_linked: "linked linked_platform"
proof -
  let ?n = "\<lambda>f. length (takeWhile (\<lambda>g. g \<noteq> f) all_isrs)"
  have lt: "?n f < 22" "all_isrs ! ?n f = f" for f by (cases f; simp add: all_isrs_def)+
  have inj_n: "f = g" if "?n f = ?n g" for f g
    using arg_cong [OF that, of "(!) all_isrs"] by (simp only: lt(2))
  have u: "unat (of_nat (?n f) :: u32) = ?n f" for f
    using lt(1) [of f] by (simp add: unsigned_of_nat take_bit_nat_eq_self_iff)
  have "inj (symbol_addr linked_platform)"
  proof (rule injI)
    fix f g assume "symbol_addr linked_platform f = symbol_addr linked_platform g"
    then have "(of_nat (?n f) :: u32) = of_nat (?n g)" by (simp add: linked_platform_def)
    from arg_cong [OF this, of unat] have "?n f = ?n g" by (simp only: u)
    then show "f = g" by (rule inj_n)
  qed
  moreover have "symbol_addr linked_platform f \<noteq> syscall_isr linked_platform" for f
  proof
    assume "symbol_addr linked_platform f = syscall_isr linked_platform"
    then have "0x101000 + (of_nat (?n f) :: u32) = 0x102000" by (simp add: linked_platform_def qemu_platform_def)
    from arg_cong [OF this, of "\<lambda>a. a - 0x101000"] have "(of_nat (?n f) :: u32) = 0x1000"
      by (simp only: add_diff_cancel_left') simp
    from arg_cong [OF this, of unat] have "?n f = unat (0x1000 :: u32)" by (simp only: u)
    with lt(1) [of f] show False by simp
  qed
  ultimately show ?thesis unfolding linked_def by (metis rangeE)
qed

text \<open>The invariant holds when \<open>kernelMain\<close> has entered ring 3.\<close>

lemma boot_running_ok:
  assumes "platform_ok P" and "before_boot k" and "memory_map (ram (k_heap k)) info ds"
    and "p \<in> set (map_frames ds)" and "p \<noteq> 0" and "queue_ok kb"
  obtains k' where "kernelMain P info MULTIBOOT_MAGIC k = Some (Inr k')" and "memory_set_up k'"
    and "running_ok P \<lparr>r_kernel = k', r_keyboard = kb\<rparr>"
proof -
  obtain k1 k' where k': "kernelMain P info MULTIBOOT_MAGIC k = Some (Inr k')" "tables_set_up P k1"
    "idt_entries (k_idt k') = (idt_entries (k_idt k1))[128 := make_gate (syscall_isr P) 3 INTERRUPT_GATE_32]"
    "int_flag (k_machine k')" "boot_masks (k_machine k')" "pit_ok (ata_pit (k_ata k'))" "memory_set_up k'" "tio_ok (k_tio k')"
    by (rule kernelMain_reaches [OF assms(1-5)])
  then have "running_ok P \<lparr>r_kernel = k', r_keyboard = kb\<rparr>"
    using boot_reaches_gates [OF k'(2,3)] assms(6) by (simp add: running_ok_def memory_set_up_def)
  then show thesis using that k'(1,7) by blast
qed

lemma boot_keyboard_idle: "queue_ok boot_keyboard" "queue_ridx boot_keyboard = queue_widx boot_keyboard"
  using boot_keyboard_queue by (simp_all add: boot_keyboard_def)

lemma booted: obtains k where "memory_set_up k" and "running_ok linked_platform \<lparr>r_kernel = k, r_keyboard = boot_keyboard\<rparr>"
  by (rule boot_running_ok [OF linked_platform_ok raw_kernel_before_boot raw_kernel_map _ boot_keyboard_idle(1)]) auto




end
