(* ===== verification/Kernel_Syscalls.thy ===== *)
theory Kernel_Syscalls
  imports Kernel_Run_Props
begin

text \<open>
  The system call and the program that ring 3 is entered with: what the handler does with the
  memory it reads, page by page, and what the terminal shows.
\<close>

section \<open>System calls\<close>

text \<open>The terminal reaches the processor through the ports of its cursor only.\<close>

lemma render_cursor_ints: "ints (tio_cpu (render_cursor t)) = ints (tio_cpu t)"
  by (simp add: render_cursor_def Let_def ints_def io_simps PIC1_DATA_def PIC2_DATA_def)

lemma render_screen_cpu: "render_screen t = Some t' \<Longrightarrow> tio_cpu t' = tio_cpu t"
proof -
  have "render_loop t v i n = Some t' \<Longrightarrow> tio_cpu t' = tio_cpu t" for v i n t
    by (induction n arbitrary: t i) (force split: bind_splits)+
  then show "render_screen t = Some t' \<Longrightarrow> tio_cpu t' = tio_cpu t" by (simp add: render_screen_def)
qed

lemma view_shift_once_cpu: "case_sum tio_cpu tio_cpu (view_shift_once dir t) = tio_cpu t"
  by (simp add: view_shift_once_def Let_def vb_shift_pages_def)

lemma view_shift_loop_cpu: "case_sum tio_cpu tio_cpu (view_shift_loop dir n t) = tio_cpu t"
proof (induction n arbitrary: t)
  case (Suc n)
  then show ?case using view_shift_once_cpu [of dir t] by (cases "view_shift_once dir t") simp_all
qed simp

lemma view_shift_ints: "view_shift t dir amt = Some t' \<Longrightarrow> ints (tio_cpu t') = ints (tio_cpu t)"
  using view_shift_loop_cpu [of dir "unat amt" t]
  by (auto simp: view_shift_def render_cursor_ints dest!: render_screen_cpu split: sum.splits)

lemma tio_cursor_inc_ints: "tio_cursor_inc t = Some t' \<Longrightarrow> ints (tio_cpu t') = ints (tio_cpu t)"
  by (auto simp: tio_cursor_inc_def Let_def render_cursor_ints dest!: view_shift_ints split: if_splits)

lemma tio_write_char_color_ints: "tio_write_char_color t c vc = Some t' \<Longrightarrow> ints (tio_cpu t') = ints (tio_cpu t)"
  by (auto simp: tio_write_char_color_def Let_def vb_set_value_def render_cursor_ints
      dest!: view_shift_ints tio_cursor_inc_ints split: if_splits bind_splits)

lemma running_ok_set_terminal:
  "running_ok P r \<Longrightarrow> tio_ok t \<Longrightarrow> ints (tio_cpu t) = ints (r_machine r) \<Longrightarrow> running_ok P (set_terminal r t)"
  by (simp add: running_ok_def boot_masks_def ints_def pit_ok_def)

text \<open>The state after memory has been read through \<open>access\<close> and text written to the terminal.\<close>

definition only_paged :: "running \<Rightarrow> running \<Rightarrow> bool" where
  "only_paged r r' \<longleftrightarrow> k_heap (r_kernel r') = k_heap (r_kernel r) \<and> r_keyboard r' = r_keyboard r
     \<and> directory_map (page_directory (k_paging (r_kernel r))) \<subseteq>\<^sub>m directory_map (page_directory (k_paging (r_kernel r')))"

lemma only_paged_refl: "only_paged r r" by (simp add: only_paged_def)

lemma only_paged_trans: "only_paged r r1 \<Longrightarrow> only_paged r1 r' \<Longrightarrow> only_paged r r'"
  by (auto simp: only_paged_def intro: map_le_trans)

lemma only_paged_mapped: "only_paged r r' \<Longrightarrow> page_mapped r a \<Longrightarrow> page_mapped r' a"
  by (auto simp: only_paged_def intro: page_mapped_mono)

lemma access_runs:
  assumes "running_ok P r" and "linked P"
  obtains (Goes_on) r' where "access P a r = Some (Inr r')" and "running_ok P r'" and "only_paged r r'" and "page_mapped r' a"
        and "k_tio (r_kernel r') = k_tio (r_kernel r)"
    | (No_frame) "\<not> page_mapped r a" and "access P a r = Some (Inl (Panicked (Memory_halt Out_of_frames)))"
  using assms
proof (cases rule: access_cases [where a = a])
  case Mapped
  then show ?thesis using Goes_on [of r] assms(1) by (simp add: only_paged_refl)
next
  case (Mapped_now q)
  then show ?thesis
    using Goes_on [of "r\<lparr>r_kernel := (r_kernel r)\<lparr>k_paging := q\<rparr>\<rparr>"] assms(1) by (simp add: only_paged_def running_ok_def)
next
  case No_frame
  then show ?thesis using that(2) by (simp add: no_frame_def)
qed

definition chars :: "u8 list \<Rightarrow> string" where
  "chars bs = map (\<lambda>b. char_of (unat b)) bs"

lemma terminal_put_types:
  assumes "running_ok P r" and "fst (type_char VGA_COLOR_WHITE (text_state r) c) < last_position"
  obtains r' where "terminal_put c r = Some r'" and "running_ok P r'" and "only_paged r r'"
    and "text_state r' = type_char VGA_COLOR_WHITE (text_state r) c"
proof -
  have "tio_ok (r_terminal r)" using assms(1) by (simp add: running_ok_def)
  from write_char_refines [OF this, of VGA_COLOR_WHITE c] assms(2) obtain t where
    t: "tio_write_char_color (r_terminal r) c VGA_COLOR_WHITE = Some t" "tio_ok t"
    "(tio_pos t, pages t) = type_char VGA_COLOR_WHITE (text_state r) c" by auto
  moreover have "running_ok P (set_terminal r t)"
    using running_ok_set_terminal [OF assms(1) t(2)] tio_write_char_color_ints [OF t(1)] by simp
  ultimately show thesis
    by (intro that [of "set_terminal r t"]) (simp_all add: terminal_put_def tio_write_char_def only_paged_def)
qed

text \<open>What \<open>print_string\<close> makes of a string in memory: all of it on the terminal, unless a page of it finds no frame.\<close>

definition printed :: "addr set \<Rightarrow> u8 list \<Rightarrow> platform \<Rightarrow> running \<Rightarrow> run_result \<Rightarrow> bool" where
  "printed reads xs P r res \<longleftrightarrow>
     (\<exists>r'. res = Some (Inr r') \<and> running_ok P r' \<and> text_state r' = type_text VGA_COLOR_WHITE (text_state r) (chars xs)
        \<and> only_paged r r' \<and> (\<forall>a \<in> reads. page_mapped r' a))
     \<or> (\<exists>a \<in> reads. \<not> page_mapped r a) \<and> res = Some (Inl (Panicked (Memory_halt Out_of_frames)))"

lemma printed_later:
  assumes "only_paged r r1" and "text_state r1 = type_text VGA_COLOR_WHITE (text_state r) (chars ys)"
    and "\<forall>a \<in> before. page_mapped r1 a" and "printed reads xs P r1 res"
  shows "printed (before \<union> reads) (ys @ xs) P r res"
proof -
  have app: "type_text vc s (cs @ ds) = type_text vc (type_text vc s cs) ds" for vc s cs ds
    by (induction cs arbitrary: s) simp_all
  from assms(4) [unfolded printed_def] show ?thesis
  proof (elim disjE exE conjE)
    fix r' assume r': "res = Some (Inr r')" "running_ok P r'" "only_paged r1 r'" "\<forall>a \<in> reads. page_mapped r' a"
      and "text_state r' = type_text VGA_COLOR_WHITE (text_state r1) (chars xs)"
    then have "text_state r' = type_text VGA_COLOR_WHITE (text_state r) (chars (ys @ xs))"
      by (simp only: assms(2) chars_def map_append app)
    then show ?thesis
      unfolding printed_def using r' only_paged_trans [OF assms(1) r'(3)] assms(3) only_paged_mapped [OF r'(3)] by blast
  next
    assume "\<exists>a \<in> reads. \<not> page_mapped r1 a" "res = Some (Inl (Panicked (Memory_halt Out_of_frames)))"
    then show ?thesis unfolding printed_def using only_paged_mapped [OF assms(1)] by blast
  qed
qed

lemma print_string_printed:
  "running_ok P r \<Longrightarrow> linked P \<Longrightarrow> cstr (r_memory r) a xs \<Longrightarrow> text_fits VGA_COLOR_WHITE (text_state r) (chars xs) \<Longrightarrow>
   printed {a + of_nat i |i. i \<le> length xs} xs P r (print_string P a r)"
proof (induction xs arbitrary: a r)
  case Nil
  from Nil.prems(1,2) show ?case
  proof (cases rule: access_runs [where a = a])
    case (Goes_on r')
    then have "print_string P a r = Some (Inr r')"
      using Nil.prems(3) by (subst print_string.simps) (simp add: only_paged_def)
    then show ?thesis using Goes_on by (auto simp: printed_def chars_def)
  next
    case No_frame
    then show ?thesis by (subst print_string.simps) (auto simp: printed_def)
  qed
next
  case (Cons x xs)
  have split: "{a + of_nat i |i. i \<le> length (x # xs)} = {a} \<union> {a + 1 + of_nat i |i. i \<le> length xs}"
  proof (intro set_eqI iffI)
    fix b assume "b \<in> {a + of_nat i |i. i \<le> length (x # xs)}"
    then obtain i where "b = a + of_nat i" "i \<le> Suc (length xs)" by auto
    then show "b \<in> {a} \<union> {a + 1 + of_nat i |i. i \<le> length xs}" by (cases i) (auto simp: add.assoc)
  next
    fix b assume "b \<in> {a} \<union> {a + 1 + of_nat i |i. i \<le> length xs}"
    then consider "b = a + of_nat 0" | i where "b = a + of_nat (Suc i)" "i \<le> length xs" by (auto simp: add.assoc)
    then have "\<exists>i. b = a + of_nat i \<and> i \<le> length (x # xs)" by cases (force, fastforce)
    then show "b \<in> {a + of_nat i |i. i \<le> length (x # xs)}" by blast
  qed
  from Cons.prems(1,2) show ?case
  proof (cases rule: access_runs [where a = a])
    case (Goes_on r1)
    have mem: "r_memory r1 = r_memory r" and st: "text_state r1 = text_state r"
      using Goes_on(3,5) by (simp_all add: only_paged_def)
    have "fst (type_char VGA_COLOR_WHITE (text_state r1) (char_of (unat x))) < last_position"
      using Cons.prems(4) unfolding st by (simp add: chars_def)
    from terminal_put_types [OF Goes_on(2) this] obtain r2 where r2: "terminal_put (char_of (unat x)) r1 = Some r2" "running_ok P r2" "only_paged r1 r2"
      "text_state r2 = type_char VGA_COLOR_WHITE (text_state r1) (char_of (unat x))"
      by blast
    have run: "print_string P a r = print_string P (a + 1) r2"
      using Goes_on(1) mem Cons.prems(3) r2(1) by (subst print_string.simps) simp
    have "r_memory r2 = r_memory r" using r2(3) mem by (simp add: only_paged_def)
    then have "printed {a + 1 + of_nat i |i. i \<le> length xs} xs P r2 (print_string P (a + 1) r2)"
      using Cons.prems r2(4) st by (intro Cons.IH [OF r2(2) Cons.prems(2)]) (simp_all add: chars_def)
    from printed_later [OF only_paged_trans [OF Goes_on(3) r2(3)] _ _ this, of "[x]" "{a}"] show ?thesis
      using split run r2(4) st only_paged_mapped [OF r2(3) Goes_on(4)] by (simp add: chars_def)
  next
    case No_frame
    then show ?thesis unfolding split by (subst print_string.simps) (auto simp: printed_def)
  qed
qed

lemma syscall_printed:
  assumes "running_ok P r" and "linked P" and "rd32 (r_memory r) b = p" and "cstr (r_memory r) p xs"
    and "text_fits VGA_COLOR_WHITE (text_state r) (chars xs)"
  shows "printed ({b, b + 3} \<union> {p + of_nat i |i. i \<le> length xs}) xs P r (run_event P (Trap 0x80 0 b) r)"
proof -
  have "run_event P (Trap 0x80 0 b) r = syscall_isr_code P 0 b r"
    using entered [OF assms(1), of "0x80" True] by (simp add: through_gate_def)
  then have ev: "run_event P (Trap 0x80 0 b) r =
      or_stop (access P b r) (\<lambda>r1. or_stop (access P (b + 3) r1) (\<lambda>r2. print_string P (rd32 (r_memory r2) b) r2))"
    by (simp add: syscall_isr_code_def)
  from assms(1,2) show ?thesis
  proof (cases rule: access_runs [where a = b])
    case (Goes_on r1)
    note 1 = this
    from 1(2) assms(2) show ?thesis
    proof (cases rule: access_runs [where a = "b + 3"])
      case (Goes_on r2)
      have kept: "only_paged r r2" "r_memory r2 = r_memory r" "text_state r2 = text_state r"
        using only_paged_trans [OF 1(3) Goes_on(3)] 1(5) Goes_on(5) by (simp_all add: only_paged_def)
      have "printed {p + of_nat i |i. i \<le> length xs} xs P r2 (print_string P p r2)"
        by (rule print_string_printed) (use assms Goes_on(2) kept in simp_all)
      from printed_later [OF kept(1) _ _ this, of "[]" "{b, b + 3}"] show ?thesis
        using ev 1(1,4) Goes_on(1,3,4) kept assms(3) only_paged_mapped [OF Goes_on(3)] by (simp add: chars_def)
    next
      case No_frame
      then have "\<not> page_mapped r (b + 3)" using only_paged_mapped [OF 1(3)] by blast
      then show ?thesis using ev 1(1) No_frame(2) by (auto simp: printed_def)
    qed
  next
    case No_frame
    then show ?thesis using ev by (auto simp: printed_def)
  qed
qed

section \<open>Properties\<close>

text \<open>
  C6: System call 0, the one that \<open>terminal_write\<close> makes for ring 3 with the address of a text, does not write
  that text: it takes the first four bytes of it as the address of the text to write. From a
  kernel in working order, if a string lies at that address and fits on the terminal, the string
  appears there as if typed, all pages read are then mapped, memory and keyboard are as before and the kernel is in
  working order again; or, if a page to be read is not mapped, the machine may stop for want of a frame.
\<close>

theorem terminal_write_dereferences:
  assumes "running_ok P r" and "linked P" and "rd32 (r_memory r) text = p" and "cstr (r_memory r) p xs"
    and "text_fits VGA_COLOR_WHITE (text_state r) (chars xs)"
  shows "(\<exists>r'. terminal_write P text r = Some (Inr r') \<and> running_ok P r'
      \<and> text_state r' = type_text VGA_COLOR_WHITE (text_state r) (chars xs) \<and> only_paged r r'
      \<and> (\<forall>a \<in> {text, text + 3} \<union> {p + of_nat i |i. i \<le> length xs}. page_mapped r' a))
    \<or> (\<exists>a \<in> {text, text + 3} \<union> {p + of_nat i |i. i \<le> length xs}. \<not> page_mapped r a)
      \<and> terminal_write P text r = Some (Inl (Panicked (Memory_halt Out_of_frames)))"
  using syscall_printed [OF assms] by (simp only: terminal_write_def printed_def)

text \<open>A booted machine with ''ok'' at \<open>0x2000\<close> and that address at \<open>0x1000\<close>.\<close>

definition text_memory :: mem where
  "text_memory = (\<lambda>_. 0)(0x1001 := 0x20, 0x2000 := 0x6f, 0x2001 := 0x6b)"

theorem terminal_write_dereferences_witness:
  "\<exists>r r'. running_ok linked_platform r \<and> r_memory r = text_memory
     \<and> terminal_write linked_platform 0x1000 r = Some (Inr r')
     \<and> text_state r' = type_text VGA_COLOR_WHITE (0, pages boot_tio) ''ok''"
proof -
  obtain k where k: "memory_set_up k" "running_ok linked_platform \<lparr>r_kernel = k, r_keyboard = boot_keyboard\<rparr>"
    by (rule booted)
  define r where "r = \<lparr>r_kernel = k\<lparr>k_tio := boot_tio, k_heap := (k_heap k)\<lparr>ram := text_memory\<rparr>\<rparr>, r_keyboard = boot_keyboard\<rparr>"
  have ok: "running_ok linked_platform r" using k(2) boot_tio_ok(1) by (simp add: running_ok_def r_def)
  have mem: "r_memory r = text_memory" by (simp add: r_def)
  have st: "text_state r = (0, pages boot_tio)" using boot_tio_ok(2) by (simp add: r_def)
  have at: "rd32 (r_memory r) 0x1000 = 0x2000" "cstr (r_memory r) 0x2000 [0x6f, 0x6b]"
    by (simp_all add: mem text_memory_def rd32_def)
  have chars: "chars [0x6f, 0x6b] = ''ok''" by (simp add: chars_def char_of_def bit_0)
  have fits: "text_fits VGA_COLOR_WHITE (text_state r) (chars [0x6f, 0x6b])"
    unfolding st chars by (simp add: type_char_def last_position_def)
  have low: "page_mapped r a" if "unat a < 4194304" for a
    using k(1) that by (auto simp: page_mapped_def r_def memory_set_up_def)
  have "page_mapped r a" if "a \<in> {0x1000, 0x1000 + 3} \<union> {0x2000 + of_nat i |i. i \<le> length [0x6f, 0x6b :: u8]}" for a
  proof (rule low)
    from that consider "a = 0x1000" | "a = 0x1003" | "a = 0x2000" | "a = 0x2001" | "a = 0x2002"
      by (auto simp: le_Suc_eq)
    then show "unat a < 4194304" by cases simp_all
  qed
  then obtain r' where "terminal_write linked_platform 0x1000 r = Some (Inr r')"
    "text_state r' = type_text VGA_COLOR_WHITE (text_state r) (chars [0x6f, 0x6b])"
    using terminal_write_dereferences [OF ok linked_platform_linked at fits] by blast
  then show ?thesis using ok mem unfolding st chars by blast
qed

text \<open>
  The program that \<open>kernelMain\<close> starts in ring 3: its text ''test str'' begins with the bytes of
  \<open>0x74736574\<close>, so the terminal shows the string that lies there, in a page that the call itself maps; then
  the program loops and the kernel serves interrupts.
\<close>

theorem user_program_runs:
  assumes "running_ok P r" and "linked P" and "cstr (r_memory r) test [0x74, 0x65, 0x73, 0x74, 0x20, 0x73, 0x74, 0x72]"
    and "cstr (r_memory r) 0x74736574 xs" and "text_fits VGA_COLOR_WHITE (text_state r) (chars xs)"
    and "\<forall>e \<in> set es. served e"
  shows "user_program P test es r = Some (Inl (Panicked (Memory_halt Out_of_frames)))
    \<or> (\<exists>r1 r'. terminal_write P test r = Some (Inr r1)
         \<and> text_state r1 = type_text VGA_COLOR_WHITE (text_state r) (chars xs) \<and> page_mapped r1 0x74736574
         \<and> user_program P test es r = Some (Inr r') \<and> running_ok P r' \<and> evolved es r1 r')"
proof -
  have "rd32 (r_memory r) test = 0x74736574"
    using assms(3) by (simp add: rd32_def add.assoc)
  from syscall_printed [OF assms(1,2) this assms(4,5)] show ?thesis
    unfolding printed_def terminal_write_def [symmetric]
  proof (elim disjE exE conjE)
    fix r1 assume r1: "terminal_write P test r = Some (Inr r1)" "running_ok P r1"
      "text_state r1 = type_text VGA_COLOR_WHITE (text_state r) (chars xs)"
      "\<forall>a \<in> {test, test + 3} \<union> {0x74736574 + of_nat i |i. i \<le> length xs}. page_mapped r1 a"
    have "0x74736574 + of_nat 0 \<in> {0x74736574 + of_nat i :: u32 |i. i \<le> length xs}" by blast
    then have "page_mapped r1 0x74736574" using r1(4) by auto
    then show ?thesis
      using run_served [OF r1(2) assms(2,6)] r1(1,3) by (auto simp: user_program_def)
  qed (simp add: user_program_def)
qed

end
