(* ===== verification/Ps2_Props.thy ===== *)
theory Ps2_Props
  imports Ps2 Kernel_Syscalls
begin

text \<open>
  How the initialisation of the keyboard ends: whatever the controller answers it returns, with the
  masks of the interrupt controllers set, and with interrupts on exactly when the keyboard responds.
\<close>

section \<open>Messages that fit on the terminal\<close>

definition newlines :: "string \<Rightarrow> nat" where
  "newlines s = length (filter (\<lambda>c. c = CHR 0x0A) s)"

text \<open>A text takes at most its length and a line for every line feed.\<close>

definition positions :: "string \<Rightarrow> nat" where
  "positions s = length s + 80 * newlines s"

lemma positions_simps [simp]:
  "positions [] = 0" "positions (c # s) = (if c = CHR 0x0A then 81 else 1) + positions s"
  "positions (s @ t) = positions s + positions t"
  by (simp_all add: positions_def newlines_def)

lemma positions_takeWhile: "positions (takeWhile P s) \<le> positions s"
  by (induction s) simp_all

lemma positions_le: "positions s \<le> 81 * length s"
  by (induction s) simp_all

lemma type_char_positions: "fst (type_char vc st c) \<le> fst st + positions [c]"
proof -
  obtain p b where st: "st = (p, b)" by (cases st)
  have "p div 80 * 80 \<le> p" by simp
  then show ?thesis by (auto simp: st type_char_def)
qed

lemma text_fits_positions:
  "fst st + positions s < last_position \<Longrightarrow> text_fits vc st s \<and> fst (type_text vc st s) \<le> fst st + positions s"
proof (induction s arbitrary: st)
  case (Cons c s)
  have c: "fst (type_char vc st c) \<le> fst st + positions [c]" by (rule type_char_positions)
  then have "fst (type_char vc st c) + positions s < last_position" using Cons.prems by (auto split: if_splits)
  from Cons.IH [OF this] show ?case using c Cons.prems by (auto split: if_splits)
qed simp

section \<open>Printing\<close>

text \<open>Room for \<open>n\<close> more positions; and two keyboards with the same keys and queue.\<close>

definition roomy :: "nat \<Rightarrow> keyboard \<Rightarrow> bool" where
  "roomy n k \<longleftrightarrow> tio_ok (kb_tio k) \<and> tio_pos (kb_tio k) + n < last_position"

definition same_keys :: "keyboard \<Rightarrow> keyboard \<Rightarrow> bool" where
  "same_keys k k' \<longleftrightarrow> key_states k' = key_states k \<and> scancode_queue k' = scancode_queue k \<and> queue_widx k' = queue_widx k
     \<and> queue_ridx k' = queue_ridx k \<and> keyboard_initialized k' = keyboard_initialized k \<and> keyboard_state k' = keyboard_state k"

lemma same_keys_trans: "same_keys k k1 \<Longrightarrow> same_keys k1 k2 \<Longrightarrow> same_keys k k2"
  by (simp add: same_keys_def)

lemma kb_machine_simps [simp]:
  "kb_machine (kb_set_machine k m) = m" "same_keys k (kb_set_machine k m)" "roomy n (kb_set_machine k m) = roomy n k"
  by (simp_all add: kb_machine_def kb_set_machine_def same_keys_def roomy_def)

lemma tio_write_color_ints: "tio_write_color t s vc = Some t' \<Longrightarrow> ints (tio_cpu t') = ints (tio_cpu t)"
  by (induction s arbitrary: t) (auto dest: tio_write_char_color_ints split: bind_splits)

lemma kb_print_roomy:
  assumes "kprintf fmt args = Some line" and "positions line \<le> c" and "roomy (c + n) k"
  obtains k' where "kb_print k fmt args = Some k'" and "roomy n k'" and "same_keys k k'"
    and "ints (kb_machine k') = ints (kb_machine k)"
proof -
  have ok: "tio_ok (kb_tio k)" "tio_pos (kb_tio k) + positions line < last_position"
    using assms(2,3) by (simp_all add: roomy_def)
  then have f: "text_fits VGA_COLOR_WHITE (tio_pos (kb_tio k), pages (kb_tio k)) line"
    "fst (type_text VGA_COLOR_WHITE (tio_pos (kb_tio k), pages (kb_tio k)) line) \<le> tio_pos (kb_tio k) + positions line"
    using text_fits_positions [of "(tio_pos (kb_tio k), pages (kb_tio k))" line VGA_COLOR_WHITE] by simp_all
  obtain t where t: "tio_write_color (kb_tio k) line VGA_COLOR_WHITE = Some t" "tio_ok t"
    "(tio_pos t, pages t) = type_text VGA_COLOR_WHITE (tio_pos (kb_tio k), pages (kb_tio k)) line"
    using write_refines [OF ok(1), of VGA_COLOR_WHITE line] f(1) by auto
  have "tio_pos t \<le> tio_pos (kb_tio k) + positions line" using f(2) t(3) by (metis fst_conv)
  then have "roomy n (k\<lparr>kb_tio := t\<rparr>)" using assms(2,3) t(2) by (simp add: roomy_def)
  moreover have "ints (tio_cpu t) = ints (tio_cpu (kb_tio k))" by (rule tio_write_color_ints [OF t(1)])
  ultimately show thesis
    using assms(1) t(1) by (intro that [of "k\<lparr>kb_tio := t\<rparr>"]) (simp_all add: kb_print_def tio_write_def same_keys_def kb_machine_def)
qed

text \<open>The messages of the initialisation.\<close>

lemma kprintf_plain_line: "CHR ''%'' \<notin> set fmt \<Longrightarrow> length fmt < 1000 \<Longrightarrow> \<exists>line. kprintf fmt [] = Some line \<and> positions line \<le> positions fmt"
  using kprintf_terminated [of fmt "[]"] positions_takeWhile by (simp add: kvsprintf_def kvsprintf_loop_plain)

lemma positions_number: "numeral_of b n cs \<Longrightarrow> positions cs = length cs"
proof -
  assume "numeral_of b n cs"
  then have "set cs \<subseteq> set hex_digits" by (auto simp: numeral_of_def dest: set_take_subset [THEN subsetD])
  then show ?thesis by (induction cs) (auto simp: hex_digits_def)
qed

lemma kprintf_number_line:
  assumes "fmt = pre @ [CHR ''%'', d] @ ''\<newline>''" and "CHR ''%'' \<notin> set pre" and "length pre < 900"
    and "d = CHR ''d'' \<and> text = render_integer [] w \<or> d = CHR ''x'' \<and> text = render_hexadecimal [] w"
  shows "\<exists>line. kprintf fmt [Va_int w] = Some line \<and> positions line \<le> positions pre + 100"
proof -
  have loop: "kvsprintf_loop r (pre @ spec) as = kvsprintf_loop (r @ pre) spec as" for r spec as
    using assms(2) by (induction pre arbitrary: r) auto
  have "kvsprintf_loop pre ([CHR ''%'', d] @ ''\<newline>'') [Va_int w] = Some (pre @ text @ ''\<newline>'', True)"
    using assms(4) render_append [of pre w] by auto
  then have "kvsprintf fmt [Va_int w] = Some (pre @ text @ ''\<newline>'', True)"
    unfolding kvsprintf_def assms(1) loop by simp
  from kprintf_terminated [OF this] have "kprintf fmt [Va_int w] = Some (takeWhile (\<lambda>c. c \<noteq> CHR 0x00) (pre @ text @ ''\<newline>''))"
    using assms(1,3) by simp
  moreover have "positions text \<le> 11"
    using assms(4)
  proof (elim disjE conjE)
    assume t: "text = render_integer [] w"
    show ?thesis
      by (rule render_integer_cases [of w "[]"]) (auto simp: t positions_number)
  next
    assume t: "text = render_hexadecimal [] w"
    then show ?thesis using render_hexadecimal_numeral [of "[]" w] positions_number by auto
  qed
  then have "positions (pre @ text @ ''\<newline>'') \<le> positions pre + 100" by simp
  ultimately show ?thesis using positions_takeWhile order_trans by blast
qed

section \<open>Commands\<close>

text \<open>The commands change the interrupt flag only, and leave it off when the keyboard does not acknowledge.\<close>

lemma ints_ports [simp]: "ints (outb m PS2 v) = ints m" "ints (outb m PS2_COMMAND v) = ints m"
  "ints (outb m 0x3D4 v) = ints m" "ints (outb m 0x3D5 v) = ints m" "ints (outb m 0x60 v) = ints m" "ints (outb m 0x64 v) = ints m"
  "ints (snd (inb dev m p)) = ints m"
  by (simp_all add: ints_def io_simps PS2_def PS2_COMMAND_def PIC1_DATA_def PIC2_DATA_def)

lemma ints_iff: "ints m = ints m' \<longleftrightarrow> int_flag m = int_flag m' \<and> masks m = masks m'"
  by (auto simp: ints_def)

lemma poll_ints: "ints (snd (poll dev ok n m)) = ints m"
  by (induction n arbitrary: m) (simp_all add: Let_def case_prod_unfold)

lemma poll_status_ints: "ints (snd (poll_status dev n m)) = ints m"
  by (induction n arbitrary: m) (simp_all add: Let_def case_prod_unfold)

lemma poll_ok: "fst (poll dev ok n m) = Some r \<Longrightarrow> ok r"
  by (induction n arbitrary: m) (auto simp: Let_def case_prod_unfold split: if_splits)

lemma poll_never: "(\<And>log. \<not> ok (read8 dev log PS2)) \<Longrightarrow> fst (poll dev ok n m) = None"
  by (induction n arbitrary: m) (simp_all add: Let_def case_prod_unfold io_simps)

lemma poll_once: "(\<And>log. ok (read8 dev log PS2)) \<Longrightarrow> 0 < n \<Longrightarrow> fst (poll dev ok n m) \<noteq> None"
  by (cases n) (simp_all add: Let_def case_prod_unfold io_simps)

lemma ps2SendCommand_ints [simp]: "ints (snd (ps2SendCommand dev m c ret)) = ints m"
  using poll_status_ints [of dev 10 "outb m PS2_COMMAND c"]
  by (auto simp: ps2SendCommand_def Let_def case_prod_unfold split: prod.split bool.split)

lemma ps2SendSubCommand_spec:
  "masks (snd (ps2SendSubCommand dev m c s)) = masks m"
  "int_flag (snd (ps2SendSubCommand dev m c s)) \<longleftrightarrow> fst (ps2SendSubCommand dev m c s) \<noteq> 1"
  "(\<And>log. read8 dev log PS2 \<notin> {ACK, ECHO}) \<Longrightarrow> fst (ps2SendSubCommand dev m c s) = 1"
  "(\<And>log. read8 dev log PS2 \<in> {ACK, ECHO}) \<Longrightarrow> fst (ps2SendSubCommand dev m c s) \<noteq> 1"
proof -
  define m2 where "m2 = (if 0 \<le>s s then outb (outb (cli m) PS2 c) PS2 s else outb (cli m) PS2 c)"
  let ?ok = "\<lambda>ret. ret = ACK \<or> ret = ECHO"
  have r: "ps2SendSubCommand dev m c s = (case poll dev ?ok 10 m2 of (None, m3) \<Rightarrow> (1, m3) | (Some ret, m3) \<Rightarrow> (ret, sti m3))"
    by (simp add: ps2SendSubCommand_def Let_def m2_def)
  obtain o1 m3 where p: "poll dev ?ok 10 m2 = (o1, m3)" by (cases "poll dev ?ok 10 m2")
  have i: "ints m3 = ints (cli m)" using poll_ints [of dev ?ok 10 m2] p by (auto simp: m2_def)
  have f: "int_flag m3 = False" "masks m3 = masks m" using i by (simp_all add: ints_iff io_simps)
  have ne: "ret \<noteq> 1" if "o1 = Some ret" for ret
    using poll_ok [of dev ?ok 10 m2 ret] p that by (auto simp: ACK_def ECHO_def)
  show "masks (snd (ps2SendSubCommand dev m c s)) = masks m"
    "int_flag (snd (ps2SendSubCommand dev m c s)) \<longleftrightarrow> fst (ps2SendSubCommand dev m c s) \<noteq> 1"
    using ne f by (cases o1; simp add: r p io_simps)+
  show "fst (ps2SendSubCommand dev m c s) = 1" if "\<And>log. read8 dev log PS2 \<notin> {ACK, ECHO}"
    using poll_never [of ?ok dev 10 m2] that p by (simp add: r)
  show "fst (ps2SendSubCommand dev m c s) \<noteq> 1" if "\<And>log. read8 dev log PS2 \<in> {ACK, ECHO}"
    using poll_once [of ?ok dev 10 m2] that p ne by (cases o1) (auto simp: r)
qed

lemma ps2GetKeyset_masks: "masks (snd (ps2GetKeyset dev m)) = masks m"
proof -
  let ?r = "ps2SendSubCommand dev m SCAN_CODE 0"
  have "masks (snd (poll dev (\<lambda>ret. ret \<noteq> RESEND) 10 (snd ?r))) = masks m"
    using poll_ints [of dev "\<lambda>ret. ret \<noteq> RESEND" 10 "snd ?r"] ps2SendSubCommand_spec(1) [of dev m SCAN_CODE 0]
    by (simp add: ints_iff)
  then show ?thesis
    using ps2SendSubCommand_spec(1) [of dev m SCAN_CODE 0]
    by (auto simp: ps2GetKeyset_def Let_def case_prod_unfold split: prod.split option.split)
qed

section \<open>Initialisation\<close>

lemma ps2_test_roomy:
  assumes "\<exists>line. kprintf fmt args = Some line \<and> positions line \<le> 200" and "roomy (200 + n) k"
  obtains k' where "ps2_test dev k comm expected fmt args = Some k'" and "roomy n k'" and "same_keys k k'"
    and "ints (kb_machine k') = ints (kb_machine k)"
proof -
  define k1 where "k1 = kb_set_machine k (snd (ps2SendCommand dev (kb_machine k) comm True))"
  have t: "ps2_test dev k comm expected fmt args = (if fst (ps2SendCommand dev (kb_machine k) comm True) \<noteq> expected
      then kb_print k1 fmt args else Some k1)"
    by (simp add: ps2_test_def Let_def case_prod_unfold k1_def)
  have k1: "roomy (200 + n) k1" "same_keys k k1" "ints (kb_machine k1) = ints (kb_machine k)"
    using assms(2) by (simp_all add: k1_def)
  obtain line where line: "kprintf fmt args = Some line" "positions line \<le> 200" using assms(1) by blast
  obtain k2 where k2: "kb_print k1 fmt args = Some k2" "roomy n k2" "same_keys k1 k2" "ints (kb_machine k2) = ints (kb_machine k1)"
    by (rule kb_print_roomy [OF line k1(1)])
  have "roomy n k1" using k1(1) by (simp add: roomy_def)
  then show thesis
    using that [of k1] that [of k2] t k1 k2 same_keys_trans [OF k1(2) k2(3)] by (simp split: if_splits)
qed

lemma ps2Init_returns:
  assumes "roomy (800 + n) k"
  obtains k' where "ps2Init dev k = Some k'" and "roomy n k'" and "same_keys k k'" and "masks (kb_machine k') = (Some 0xfc, Some 0xff)"
proof -
  let ?m5 = "\<lambda>m3. outb (outb (snd (ps2SendCommand dev m3 0x20 True)) 0x64 0x60) 0x60
    ((fst (ps2SendCommand dev m3 0x20 True) AND NOT (lsh1 6)) OR 3)"
  define k0 where "k0 = kb_set_machine k (?m5 (snd (inb dev (snd (ps2SendCommand dev (snd (ps2SendCommand dev (kb_machine k) 0xAD False))
    0xA7 False)) 0x60)))"
  have k0: "roomy (200 + (200 + (200 + (200 + n)))) k0" "same_keys k k0" using assms by (simp_all add: k0_def add.assoc)
  have l1: "\<exists>line. kprintf ''ERROR: ps2 controller test failed\<newline>'' [] = Some line \<and> positions line \<le> 200"
    using kprintf_plain_line [of "''ERROR: ps2 controller test failed\<newline>''"] by fastforce
  have l2: "\<exists>line. kprintf ''ERROR: ps2 port 1 test failed: %d\<newline>'' [Va_int 1] = Some line \<and> positions line \<le> 200"
    using kprintf_number_line [of "''ERROR: ps2 port 1 test failed: %d\<newline>''" "''ERROR: ps2 port 1 test failed: ''" "CHR ''d''" _ 1] by fastforce
  have l3: "\<exists>line. kprintf ''ERROR: ps2 port 2 test failed: %d\<newline>'' [Va_int 1] = Some line \<and> positions line \<le> 200"
    using kprintf_number_line [of "''ERROR: ps2 port 2 test failed: %d\<newline>''" "''ERROR: ps2 port 2 test failed: ''" "CHR ''d''" _ 1] by fastforce
  have l4: "\<exists>line. kprintf ''ERROR: Failed to reset ps2 device 1\<newline>'' [] = Some line \<and> positions line \<le> 200"
    using kprintf_plain_line [of "''ERROR: Failed to reset ps2 device 1\<newline>''"] by fastforce
  obtain k1 where k1: "ps2_test dev k0 0xAA 0x55 ''ERROR: ps2 controller test failed\<newline>'' [] = Some k1"
    "roomy (200 + (200 + (200 + n))) k1" "same_keys k0 k1" by (rule ps2_test_roomy [OF l1 k0(1)])
  obtain k2 where k2: "ps2_test dev k1 0xAB 0x0 ''ERROR: ps2 port 1 test failed: %d\<newline>'' [Va_int 1] = Some k2"
    "roomy (200 + (200 + n)) k2" "same_keys k1 k2" by (rule ps2_test_roomy [OF l2 k1(2)])
  obtain k3 where k3: "ps2_test dev k2 0xA9 0x0 ''ERROR: ps2 port 2 test failed: %d\<newline>'' [Va_int 1] = Some k3"
    "roomy (200 + n) k3" "same_keys k2 k3" by (rule ps2_test_roomy [OF l3 k2(2)])
  define m where "m = snd (ps2SendCommand dev (snd (ps2SendCommand dev (kb_machine k3) 0xAE False)) 0xA8 False)"
  define r where "r = ps2SendDevCommand dev m 0xff"
  define k4 where "k4 = kb_set_machine k3 (snd r)"
  have k4: "roomy (200 + n) k4" "same_keys k3 k4" using k3(2) by (simp_all add: k4_def)
  obtain line where line: "kprintf ''ERROR: Failed to reset ps2 device 1\<newline>'' [] = Some line" "positions line \<le> 200" using l4 by blast
  obtain k5 where k5: "kb_print k4 ''ERROR: Failed to reset ps2 device 1\<newline>'' [] = Some k5" "roomy n k5" "same_keys k4 k5"
    by (rule kb_print_roomy [OF line k4(1)])
  define k6 where "k6 = (if fst r = 0xFD then k5 else k4)"
  have k6: "(if fst r = 0xFD then kb_print k4 ''ERROR: Failed to reset ps2 device 1\<newline>'' [] else Some k4) = Some k6"
    "roomy n k6" "same_keys k4 k6" using k5 k4(1) by (auto simp: k6_def roomy_def same_keys_def)
  let ?k7 = "kb_set_machine k6 (outb (outb (kb_machine k6) 0x21 0xfc) 0xa1 0xff)"
  have "ps2Init dev k = Some ?k7"
    by (simp only: ps2Init_def Let_def case_prod_unfold k0_def [symmetric] k1(1) k2(1) k3(1) m_def [symmetric]
        r_def [symmetric] k4_def [symmetric] k6(1) Option.bind.simps)
  moreover have "same_keys k ?k7"
    by (rule same_keys_trans [OF _ kb_machine_simps(2)])
      (rule same_keys_trans [OF same_keys_trans [OF same_keys_trans [OF same_keys_trans [OF same_keys_trans
        [OF k0(2) k1(3)] k2(3)] k3(3)] k4(2)] k6(3)])
  moreover have "masks (kb_machine ?k7) = (Some 0xfc, Some 0xff)"
    using masks_simps(2,3) by (simp add: PIC1_DATA_def PIC2_DATA_def)
  ultimately show thesis using that k6(2) by simp
qed

lemma mask_fc_bits: "n < 8 \<Longrightarrow> bit (0xfc :: u8) n \<longleftrightarrow> 2 \<le> n"
proof -
  have "(0xfc :: u8) = push_bit 2 (mask 6)" by (simp add: mask_eq_exp_minus_1)
  then show "n < 8 \<Longrightarrow> bit (0xfc :: u8) n \<longleftrightarrow> 2 \<le> n" by (simp only: bit_push_bit_iff bit_mask_iff) auto
qed

lemma mask_ff_bits: "n < 8 \<Longrightarrow> bit (0xff :: u8) n"
proof -
  have "(0xff :: u8) = mask 8" by (simp add: mask_eq_exp_minus_1)
  then show "n < 8 \<Longrightarrow> bit (0xff :: u8) n" by (simp only: bit_mask_iff) auto
qed

lemma enable_cursor_keeps:
  "int_flag (tio_cpu (tio_enable_cursor dev t)) = int_flag (tio_cpu t)" "masks (tio_cpu (tio_enable_cursor dev t)) = masks (tio_cpu t)"
  "tio_ok (tio_enable_cursor dev t) = tio_ok t"
  by (simp_all add: tio_enable_cursor_def platform_enable_cursor_def Let_def case_prod_unfold io_simps PIC1_DATA_def PIC2_DATA_def)

text \<open>
  C37: How \<open>kbInit\<close> ends. With room for its messages on the terminal it returns for every behaviour of
  the controller; the queue, the keys and the terminal's order are kept, and the masks then written leave
  exactly lines 0 and 1 unmasked. Either the keyboard has answered, and it counts as initialised and interrupts
  are on; or it has not, and interrupts stay off when the call returns, and it does
  not come to count as initialised. A keyboard that never acknowledges ends in the second way, one that
  always does in the first.
\<close>

theorem kbInit_outcome:
  assumes "tio_ok (kb_tio k)" and "tio_pos (kb_tio k) + 1500 < last_position"
  shows "\<exists>k'. kbInit dev k = Some k' \<and> tio_ok (kb_tio k') \<and> scancode_queue k' = scancode_queue k
    \<and> queue_widx k' = queue_widx k \<and> queue_ridx k' = queue_ridx k \<and> key_states k' = key_states k
    \<and> (\<forall>line < 16. line_unmasked (io_log (kb_machine k')) line \<longleftrightarrow> line \<in> {0, 1})
    \<and> (keyboard_initialized k' \<and> int_flag (kb_machine k')
       \<or> keyboard_initialized k' = keyboard_initialized k \<and> \<not> int_flag (kb_machine k'))
    \<and> ((\<forall>log. read8 dev log PS2 \<notin> {ACK, ECHO}) \<longrightarrow> \<not> int_flag (kb_machine k'))
    \<and> ((\<forall>log. read8 dev log PS2 \<in> {ACK, ECHO}) \<longrightarrow> int_flag (kb_machine k'))"
proof -
  have "roomy (800 + (200 + (400 + 0))) (kb_set_machine k (cli (kb_machine k)))"
    unfolding kb_machine_simps(3) using assms by (simp add: roomy_def)
  from ps2Init_returns [OF this] obtain k1 where k1: "ps2Init dev (kb_set_machine k (cli (kb_machine k))) = Some k1"
    "roomy (200 + (400 + 0)) k1" "same_keys (kb_set_machine k (cli (kb_machine k))) k1" "masks (kb_machine k1) = (Some 0xfc, Some 0xff)"
    by blast
  have keys1: "same_keys k k1" using same_keys_trans [OF kb_machine_simps(2) k1(3)] .
  define r where "r = ps2SendDevCommand dev (kb_machine k1) ECHO"
  define k2 where "k2 = kb_set_machine k1 (snd r)"
  have r: "masks (snd r) = (Some 0xfc, Some 0xff)" "int_flag (snd r) \<longleftrightarrow> fst r \<noteq> 1"
    "(\<forall>log. read8 dev log PS2 \<notin> {ACK, ECHO}) \<Longrightarrow> fst r = 1" "(\<forall>log. read8 dev log PS2 \<in> {ACK, ECHO}) \<Longrightarrow> fst r \<noteq> 1"
    using k1(4) ps2SendSubCommand_spec [of dev "kb_machine k1" ECHO "- 1"] by (simp_all add: r_def ps2SendDevCommand_def)
  have k2: "roomy (200 + (400 + 0)) k2" "same_keys k k2" "masks (kb_machine k2) = (Some 0xfc, Some 0xff)"
    using k1(2) keys1 r(1) same_keys_trans [OF keys1 kb_machine_simps(2)] by (simp_all add: k2_def)
  have lines: "line_unmasked (io_log m) line \<longleftrightarrow> line \<in> {0, 1}" if "masks m = (Some 0xfc, Some 0xff)" "line < 16" for m line
    using that mask_fc_bits mask_ff_bits by (auto simp: masks_def line_unmasked_def mask_bits)
  show ?thesis
  proof (cases "fst r = 1")
    case True
    obtain l where l: "kprintf ''Keyboard not responding...Returning\<newline>'' [] = Some l" "positions l \<le> 200"
      using kprintf_plain_line [of "''Keyboard not responding...Returning\<newline>''"] by fastforce
    obtain k3 where k3: "kb_print k2 ''Keyboard not responding...Returning\<newline>'' [] = Some k3" "roomy (400 + 0) k3" "same_keys k2 k3"
      "ints (kb_machine k3) = ints (kb_machine k2)" by (rule kb_print_roomy [OF l k2(1)])
    have "kbInit dev k = Some k3"
      by (simp only: kbInit_def k1(1) Option.bind.simps r_def [symmetric] k2_def [symmetric] case_prod_unfold Let_def True simp_thms if_True k3(1))
    moreover have "masks (kb_machine k3) = (Some 0xfc, Some 0xff)" "\<not> int_flag (kb_machine k3)"
      using k3(4) k2(3) r(2) True by (simp_all add: ints_iff k2_def)
    moreover have "same_keys k k3" "tio_ok (kb_tio k3)" using k2(2) k3(2,3) same_keys_trans by (auto simp: roomy_def)
    moreover have "\<not> (\<forall>log. read8 dev log PS2 \<in> {ACK, ECHO})" using r(4) True by blast
    ultimately show ?thesis using lines by (intro exI [of _ k3]) (simp add: same_keys_def)
  next
    case False
    obtain l where l: "kprintf ''Echo to keyboard recieved\<newline>'' [] = Some l" "positions l \<le> 200"
      using kprintf_plain_line [of "''Echo to keyboard recieved\<newline>''"] by fastforce
    obtain k3 where k3: "kb_print k2 ''Echo to keyboard recieved\<newline>'' [] = Some k3" "roomy (400 + 0) k3" "same_keys k2 k3"
      "ints (kb_machine k3) = ints (kb_machine k2)" by (rule kb_print_roomy [OF l k2(1)])
    define k4 where "k4 = kb_set_machine k3 (snd (ps2SetKeyset dev (kb_machine k3) 1))"
    define g where "g = ps2GetKeyset dev (kb_machine k4)"
    define k5 where "k5 = kb_set_machine k4 (snd g)"
    have "masks (kb_machine k4) = masks (kb_machine k3)"
      using ps2SendSubCommand_spec(1) [of dev "kb_machine k3" "0xF0" 1] by (simp add: k4_def ps2SetKeyset_def Let_def case_prod_unfold)
    then have k5: "roomy (400 + 0) k5" "same_keys k2 k5" "masks (kb_machine k5) = (Some 0xfc, Some 0xff)"
      using k3(2,4) k2(3) ps2GetKeyset_masks [of dev "kb_machine k4"] same_keys_trans [OF same_keys_trans [OF k3(3) kb_machine_simps(2)] kb_machine_simps(2)]
      by (simp_all add: k5_def g_def ints_iff k4_def)
    define fmt where "fmt = (if 0 <s fst g then ''Scan code set: 0x%x\<newline>'' else ''Error getting scan code set\<newline>'')"
    define args where "args = (if 0 <s fst g then [Va_int (if fst g = 0x43 then 1 else if fst g = 0x41 then 2 else if fst g = 0x3f then 3 else ucast (fst g))] else [])"
    have "\<exists>line. kprintf fmt args = Some line \<and> positions line \<le> 400"
      using kprintf_number_line [of "''Scan code set: 0x%x\<newline>''" "''Scan code set: 0x''" "CHR ''x''"]
        kprintf_plain_line [of "''Error getting scan code set\<newline>''"] by (fastforce simp: fmt_def args_def)
    then obtain l' where l': "kprintf fmt args = Some l'" "positions l' \<le> 400" by blast
    obtain k6 where k6: "kb_print k5 fmt args = Some k6" "roomy 0 k6" "same_keys k5 k6" "ints (kb_machine k6) = ints (kb_machine k5)"
      by (rule kb_print_roomy [OF l' k5(1)])
    define k8 where "k8 = kb_set_machine (k6\<lparr>keyboard_initialized := True\<rparr>) (sti (kb_machine (k6\<lparr>keyboard_initialized := True\<rparr>)))"
    define k9 where "k9 = k8\<lparr>kb_tio := tio_enable_cursor dev (kb_tio k8)\<rparr>"
    have "(if 0 <s fst g then kb_print k5 ''Scan code set: 0x%x\<newline>'' [Va_int (if fst g = 0x43 then 1 else if fst g = 0x41 then 2
        else if fst g = 0x3f then 3 else ucast (fst g))] else kb_print k5 ''Error getting scan code set\<newline>'' []) = Some k6"
      using k6(1) by (cases "0 <s fst g") (simp_all only: fmt_def args_def if_True if_False)
    then have "kbInit dev k = Some k9"
      by (simp only: kbInit_def k1(1) Option.bind.simps r_def [symmetric] k2_def [symmetric] case_prod_unfold Let_def False simp_thms if_False
          k3(1) k4_def [symmetric] g_def [symmetric] k5_def [symmetric] k8_def [symmetric] k9_def)
    moreover have "int_flag (kb_machine k9)" "masks (kb_machine k9) = (Some 0xfc, Some 0xff)" "tio_ok (kb_tio k9)"
      "keyboard_initialized k9" "same_keys k6 (k9\<lparr>keyboard_initialized := keyboard_initialized k6\<rparr>)"
      using k5(3) k6(2,4) by (simp_all add: k9_def k8_def enable_cursor_keeps ints_iff roomy_def same_keys_def kb_machine_def kb_set_machine_def io_simps)
    moreover have "same_keys k k6" using k2(2) k5(2) k6(3) same_keys_trans by blast
    moreover have "\<not> (\<forall>log. read8 dev log PS2 \<notin> {ACK, ECHO})" using r(3) False by blast
    ultimately show ?thesis using lines by (intro exI [of _ k9]) (simp add: same_keys_def)
  qed
qed

definition cold_keyboard :: keyboard where
  "cold_keyboard = boot_keyboard\<lparr>keyboard_initialized := False\<rparr>"

theorem kbInit_outcome_witness:
  "(\<exists>k'. kbInit (constant_device ACK) cold_keyboard = Some k' \<and> keyboard_initialized k' \<and> int_flag (kb_machine k'))
   \<and> (\<exists>k'. kbInit (constant_device 0) cold_keyboard = Some k' \<and> \<not> keyboard_initialized k' \<and> \<not> int_flag (kb_machine k'))"
proof -
  have k: "tio_ok (kb_tio cold_keyboard)" "tio_pos (kb_tio cold_keyboard) + 1500 < last_position"
    "\<not> keyboard_initialized cold_keyboard"
    using boot_tio_ok(1,2) by (simp_all add: cold_keyboard_def boot_keyboard_def last_position_def)
  have "\<forall>log. read8 (constant_device ACK) log PS2 \<in> {ACK, ECHO}" "\<forall>log. read8 (constant_device 0) log PS2 \<notin> {ACK, ECHO}"
    by (simp_all add: constant_device_def ACK_def ECHO_def)
  with kbInit_outcome [OF k(1,2), of "constant_device ACK"] kbInit_outcome [OF k(1,2), of "constant_device 0"] k(3)
  show ?thesis by blast
qed

end
