(* ===== verification/Spec2Isabelle.thy ===== *)
theory Spec2Isabelle
  imports Kernel_Props Kheap_Aligned Kheap_Bounds Paging_Props Idt_Props Timer_Props Tio_Edit Tio_Scroll Kshell
    Ata_Props Ide Serial Cpuid Acpi Pci Sknyfs_Props Kernel_Syscalls Ps2_Props
begin

text \<open>
  PalleyOS: a development that models the C code of a small kernel for 32-bit x86 machines and
  proves what its parts do. The kernel is started by GRUB, sets up the interrupt and segment
  tables, the timer, paging and a heap, and offers a terminal, a keyboard, a disk, a serial port
  and the beginnings of a file system. Every path below is relative to the root of the
  repository's own tree (\<open>src/...\<close>).

  \<^bold>\<open>The machine.\<close> Words are \<open>u8\<close>, \<open>u16\<close>, \<open>u32\<close> and wrap as the C types do; \<open>size_t\<close> and pointers
  have 32 bits. Memory that is accessed through pointers is a function from addresses to bytes
  (theory \<open>Cmem\<close>); a static array is a list, and an access outside of it is \<open>None\<close>. Ports are
  modelled in \<open>Port_IO\<close>: each \<open>in\<close>, \<open>out\<close>, \<open>cli\<close>, \<open>sti\<close> and \<open>lidt\<close> is an event of a log, and what an
  \<open>in\<close> returns is a function of the log so far (the parameter \<open>device\<close>), so a property holds for
  every behaviour of the hardware unless it says otherwise. What the terminal shows is the text
  \<open>kprintf\<close> hands over, kept in a field of each component's state; the terminal itself is modelled
  on its own. A result of type \<open>option\<close> is \<open>None\<close> for a call that does not return (an endless loop
  is a \<open>partial_function\<close>, so that not returning is a value) or that is undefined in C; where
  the code has errors of its own they are values of a sum type or of the code's enumerations.
  There is no fuel: loops are structural recursion, recursion with a measure, or such a partial
  function, and the properties state that the calls return.

  \<^bold>\<open>Theories.\<close>
  \<^item> \<open>Prelude\<close>, \<open>Cmem\<close>: words, bits, lists read by index; memory, little-endian access, regions,
    and the locale \<open>packed_field\<close>, the contract of a field of a packed structure.
  \<^item> \<open>Kstdlib\<close> (\<open>src/src/stdlib/kstdlib.c\<close>): the string and memory routines, specified with
    \<open>cstr\<close> (a string in memory).
  \<^item> \<open>Kstdio\<close> (\<open>src/src/stdlib/kstdio.c\<close>): the renderers, as one contract (locale \<open>radix\<close>)
    interpreted for the three bases, and the format loop, which is compositional and bounded.
  \<^item> \<open>Kheap\<close> (\<open>src/src/stdlib/kheap.c\<close>): the heap, its nodes in memory. \<open>Kheap_Layout\<close> gives the
    fields of a node and the abstraction of a heap to a list of blocks, \<open>Kheap_Correct\<close> what the
    loops do to that list, \<open>Kheap_Stack\<close> the contract of an allocator used as a stack (locale
    \<open>stack_allocator\<close>, interpreted on the kernel's heap), \<open>Kheap_Realloc\<close> the resizing of a block,
    \<open>Kheap_Props\<close> the properties. Blocks released in the reverse order of their allocation, and
    any releases from a heap of blocks that touch, are handled correctly; reuse of a hole is not,
    and two theorems show how it fails. \<open>Kheap_Resize\<close> follows the two cases of \<open>kheapRealloc\<close> that
    split a block, where the new header is misplaced, \<open>Kheap_Bounds\<close> what is left of \<open>KHEAP_END\<close>,
    \<open>Kheap_Aligned\<close> aligned allocation, whose result is not aligned, and \<open>kheapDump\<close>.
  \<^item> \<open>Paging\<close>, \<open>Paging_Correct\<close>, \<open>Paging_Props\<close>, \<open>Memory_Map\<close> (\<open>src/src/memory.c\<close>): the page directory,
    the frame map (an instance of the locale \<open>bitmap\<close> of theory \<open>Bitmap\<close>), the page fault handler,
    and the reading of the boot loader's memory map.
  \<^item> \<open>Idt\<close>, \<open>Idt_Props\<close> (\<open>src/src/idt.c\<close>, \<open>src/src/pic.c\<close>, \<open>src/src/exceptions.c\<close>), \<open>Syscall\<close>
    (\<open>src/src/syscall.c\<close>): gates, the interrupt controllers, the exception handlers, and the one
    gate that ring 3 may use.
  \<^item> \<open>Gdt\<close>, \<open>Gdt_Props\<close> (\<open>src/src/gdt.c\<close>): segment descriptors and the task state segment.
  \<^item> \<open>Timer\<close>, \<open>Timer_Props\<close> (\<open>src/src/timer/timer.c\<close>): counters, the interrupt, sleeping. The
    interrupts that arrive in each turn of the sleep loop are a parameter.
  \<^item> \<open>Tio\<close>, \<open>Tio_Props\<close> (\<open>src/src/stdlib/tio.c\<close>): the terminal's pages, cursor and view; writing
    refines typing into a text without a view. \<open>Tio_Scroll\<close>: scrolling by hand and back,
    and typing while the view is away from the cursor.
    \<open>Tio_Edit\<close>: the operations that edit the screen keep the terminal in working order, and what a
    key of the line editor does to the screen, which for backspace is not what it does to the line.
  \<^item> \<open>Keyboard\<close>, \<open>Ps2\<close> (\<open>src/src/keyboard_io.c\<close>, \<open>src/src/kshell.c\<close>): the scancode queue, decoding, the line
    editor, the controller. \<open>Keyboard_Queue\<close> states the queue's contract (locale \<open>bounded_fifo\<close>),
    \<open>Keyboard_Decode\<close> the meaning of a sequence of scancodes, \<open>Keyboard_Line\<close> what the editor
    makes of keys and how the queue, the decoder, the editor and the terminal work together,
    \<open>Kshell\<close> what a whole session with the shell leaves on the terminal, and \<open>Ps2_Props\<close> how the
    initialisation ends for every behaviour of the controller.
  \<^item> \<open>Polling\<close>, \<open>Ata\<close>, \<open>Ata_Props\<close> (\<open>src/src/ata.c\<close>), \<open>Serial\<close> (\<open>src/src/serial.c\<close>): loops that wait for a
    status, and the two drivers built on them. A device that \<open>answers\<close> gives the status waited
    for after some number of reads; under that hypothesis the drivers return.
    \<open>Ata_Init\<close>: with drives that answer, \<open>ideInit\<close> returns and has changed nothing but the drives.
    \<open>Ide\<close> (\<open>src/src/ide.c\<close>): the copy of the disk driver that the build leaves out, translated on its
    own and proved equivalent to the driver but for one message.
  \<^item> \<open>Kernel\<close>, \<open>Kernel_Props\<close> (\<open>src/src/kernel.c\<close>): \<open>kernelMain\<close> as the composition of the operations
    above, in three stages (\<open>boot_tables\<close>, \<open>boot_memory\<close>, \<open>boot_devices\<close>). The parts keep their own
    records in one, and share the processor's log, the interrupt table and the memory; the first
    access to the heap goes through the page fault handler. From statics that are zero, a memory
    map and hardware that answers, every part ends up in the state its own theory asks for, and
    the ways in which it stops are listed.
  \<^item> \<open>Kernel_Run\<close> (\<open>src/src/isr.s\<close>, \<open>src/src/timer/PIT.s\<close>, \<open>src/src/ata_helper.s\<close>, \<open>src/src/syscall_helper.s\<close>):
    the kernel after \<open>kernelMain\<close>. The state is the kernel's and the keyboard's (record \<open>running\<close>); an
    event is an interrupt line that is raised, an access to memory, or an \<open>int\<close> of ring 3. The processor's way
    through a gate is \<open>enter_gate\<close>, \<open>through_gate\<close> and \<open>isr_at\<close>: from the mask and the table that the code
    has written to the entry point whose address the gate holds. \<open>Kernel_Run_Props\<close> gives the invariant (\<open>running_ok\<close>), which
    \<open>kernelMain\<close> establishes and every served event preserves, what each event does, and what
    any sequence of them leaves; \<open>Kernel_Syscalls\<close> the system call, which reads memory through the page
    fault handler and writes to the terminal, and the program that ring 3 is entered with.
  \<^item> \<open>Cpuid\<close> (\<open>src/src/cpuid.c\<close>), \<open>Acpi\<close> (\<open>src/src/rsdp.c\<close>, \<open>src/src/acpi.c\<close>): the vendor string; the search
    for the ACPI root pointer, equal to a search of the specification's.
  \<^item> \<open>Pci\<close> (\<open>src/src/pci.c\<close>): the enumeration of devices over routines that are parameters.
  \<^item> \<open>Sknyfs\<close>, \<open>Sknyfs_Disk\<close>, \<open>Sknyfs_Files\<close>, \<open>Sknyfs_Props\<close> (\<open>src/src/sknyfs.c\<close>): the file system on
    a disk whose routines are a parameter; its allocation map is the second instance of \<open>bitmap\<close>,
    from which no two files share a chunk.

  \<^bold>\<open>Reading the model.\<close> Definitions have the names of the C functions, types and constants, with
  \<open>_loop\<close> for the loop of a function and \<open>_drive\<close> for the functions with two leading
  underscores of the disk driver. A function that changes static variables takes and returns the
  component's record. Addresses of symbols, values read by assembly, timer interrupts and the
  contents of uninitialised locals are parameters. A definition that is only specification (such
  as \<open>cstr\<close>, \<open>same_name\<close>, \<open>is_rsdp\<close>) stands next to the lemmas that use it.

  \<^bold>\<open>Not modelled.\<close>
  \<^item> A comment that line 46 of \<open>src/src/kernel.c\<close> opens by accident ends in the first comment of
    \<open>kernelMain\<close>, so the file does not compile; \<open>kernelMain\<close> and \<open>user_mode_func_test\<close> (\<open>user_program\<close>) are
    modelled as their lines read without that comment.
  \<^item> The part of \<open>src/src/pci.c\<close> (not compiled) before its first line: it begins in the middle of
    \<open>pciCheckFunction\<close>, a parameter here, as is the access to the configuration space.
  \<^item> The assembly files other than the entry points of interrupts and system calls: what they do is
    an event or a parameter. The stack is not modelled, so neither are the registers that an entry point fails to
    save nor the stack that ring 3 shares with the kernel. The two structures of \<open>syscall.c\<close> are used by no code.
  \<^item> In \<open>Kernel_Run\<close>, task gates (the kernel has none), a fault whose own gate faults beyond the value
    \<open>Double_fault\<close>, and the priorities and the in-service state of the interrupt controllers.
  \<^item> \<open>src/include/multiboot.h\<close> (the specification's own text; the fields read are those declared in
    \<open>memory.h\<close>), and headers and structures without code that uses them (\<open>fadt.c\<close>, \<open>rsdt.c\<close>, the
    tables of \<open>acpi.h\<close> behind the root pointer, \<open>Process\<close> of \<open>scheduler.h\<close>).
  \<^item> Interrupts that arrive in the middle of an operation, other than in the sleep loop, between
    the reads of the keyboard queue and between the events of a run; timing; the processor's caches.
\<close>

end
